(* ===== verification/Bpfx_Prelude.thy ===== *)
theory Bpfx_Prelude
  imports Main "HOL-Library.Word" "HOL-Library.AList"
begin

text \<open>
  The prelude of the bpfx development: the machine types of the Rust sources, the combinator for
  a sequence of fallible calls on a shared state (Rust's \<open>f(s)?; g(s)?; Ok(())\<close>), the part of
  a byte array in front of its first NUL, and the interface of a hash map with its instance on
  association lists. Signed Rust integers are kept as words of their width and read by \<open>sint\<close>.
\<close>

unbundle bit_operations_syntax

type_synonym u8 = "8 word"
type_synonym u16 = "16 word"
type_synonym u32 = "32 word"
type_synonym u64 = "64 word"
type_synonym i32 = "32 word"
type_synonym isize = "64 word"
type_synonym usize = "64 word"

named_theorems wire "sizes and byte images of the structures shared with the kernel"
named_theorems probe "definitions of the eBPF probes and what they call"
named_theorems conv "definitions of the user-space converters and what they call"

section \<open>Fallible calls on a shared state\<close>

text \<open>
  A step may change the state even when it fails: Rust's \<open>?\<close> leaves the function at the first
  error with the effects of the calls before it in place.
\<close>

type_synonym ('s, 'e) step = "'s \<Rightarrow> ('e + unit) \<times> 's"

fun run_steps :: "('s, 'e) step list \<Rightarrow> ('s, 'e) step" where
  "run_steps [] s = (Inr (), s)"
| "run_steps (f # fs) s =
     (case f s of (Inl e, s') \<Rightarrow> (Inl e, s') | (Inr _, s') \<Rightarrow> run_steps fs s')"

definition when_steps :: "bool \<Rightarrow> ('s, 'e) step list \<Rightarrow> ('s, 'e) step list" where
  "when_steps c fs = (if c then fs else [])"

section \<open>Byte arrays read up to their first NUL\<close>

text \<open>
  \<open>position\<close> is Rust's \<open>iter().position(p)\<close>; \<open>until_nul a\<close> is the slice
  \<open>&a[..a.iter().position(|&c| c == 0).unwrap_or(a.len())]\<close>.
\<close>

fun position :: "('a \<Rightarrow> bool) \<Rightarrow> 'a list \<Rightarrow> nat option" where
  "position p [] = None"
| "position p (x # xs) = (if p x then Some 0 else map_option Suc (position p xs))"

definition until_nul :: "u8 list \<Rightarrow> u8 list" where
  "until_nul a = take (case position (\<lambda>c. c = 0) a of None \<Rightarrow> length a | Some n \<Rightarrow> n) a"

section \<open>Hash maps\<close>

text \<open>
  \<open>std::collections::HashMap\<close>: \<open>insert\<close> and \<open>remove\<close> return the previous value of the key.
  The entries are an association list, so that \<open>len\<close> computes.
\<close>

type_synonym ('k, 'v) hash_map = "('k \<times> 'v) list"

definition hm_get :: "('k, 'v) hash_map \<Rightarrow> 'k \<Rightarrow> 'v option" where
  "hm_get m k = map_of m k"

definition hm_insert :: "'k \<Rightarrow> 'v \<Rightarrow> ('k, 'v) hash_map \<Rightarrow> 'v option \<times> ('k, 'v) hash_map" where
  "hm_insert k v m = (map_of m k, AList.update k v m)"

definition hm_remove :: "'k \<Rightarrow> ('k, 'v) hash_map \<Rightarrow> 'v option \<times> ('k, 'v) hash_map" where
  "hm_remove k m = (map_of m k, AList.delete k m)"

definition hm_len :: "('k, 'v) hash_map \<Rightarrow> nat" where
  "hm_len m = length m"

definition hm_ok :: "('k, 'v) hash_map \<Rightarrow> bool" where
  "hm_ok m = distinct (map fst m)"

locale hash_map_spec =
  fixes get :: "'m \<Rightarrow> 'k \<Rightarrow> 'v option"
    and insert_kv :: "'k \<Rightarrow> 'v \<Rightarrow> 'm \<Rightarrow> 'v option \<times> 'm"
    and remove_k :: "'k \<Rightarrow> 'm \<Rightarrow> 'v option \<times> 'm"
    and len :: "'m \<Rightarrow> nat"
    and ok :: "'m \<Rightarrow> bool"
  assumes insert_old: "fst (insert_kv k v m) = get m k"
    and insert_get: "ok m \<Longrightarrow> get (snd (insert_kv k v m)) = (get m)(k \<mapsto> v)"
    and remove_old: "fst (remove_k k m) = get m k"
    and remove_get: "ok m \<Longrightarrow> get (snd (remove_k k m)) = (get m)(k := None)"
    and insert_ok: "ok m \<Longrightarrow> ok (snd (insert_kv k v m))"
    and remove_ok: "ok m \<Longrightarrow> ok (snd (remove_k k m))"
    and insert_len: "ok m \<Longrightarrow>
          len (snd (insert_kv k v m)) = (if get m k = None then Suc (len m) else len m)"
    and remove_len: "ok m \<Longrightarrow>
          len (snd (remove_k k m)) = (if get m k = None then len m else len m - 1)"
begin

lemma insert_below_cap:
  assumes "ok m" and "len m < cap"
  shows "len (snd (insert_kv k v m)) \<le> cap"
  using assms by (simp add: insert_len)

lemma remove_within_cap:
  assumes "ok m" and "len m \<le> cap"
  shows "len (snd (remove_k k m)) \<le> cap"
  using assms by (auto simp: remove_len)

lemma insert_then_remove:
  assumes "ok m"
  shows "fst (remove_k k (snd (insert_kv k v m))) = Some v"
    and "get (snd (remove_k k (snd (insert_kv k v m)))) = (get m)(k := None)"
  using assms by (auto simp: remove_old insert_get remove_get insert_ok)

end

section \<open>Lemmas\<close>

lemma run_steps_append:
  "run_steps (fs @ gs) s =
     (case run_steps fs s of (Inl e, s') \<Rightarrow> (Inl e, s') | (Inr _, s') \<Rightarrow> run_steps gs s')"
  by (induction fs arbitrary: s) (auto split: prod.splits sum.splits)

lemma run_steps_ok: "list_all (\<lambda>f. \<forall>s. fst (f s) = Inr ()) fs \<Longrightarrow> fst (run_steps fs s) = Inr ()"
proof (induction fs arbitrary: s)
  case (Cons f fs)
  obtain r s' where r: "f s = (r, s')" by force
  have "fst (f s) = Inr ()" using Cons.prems by simp
  with r Cons show ?case by simp
qed simp

lemma when_steps_simps [simp]:
  "when_steps True fs = fs" "when_steps False fs = []"
  by (simp_all add: when_steps_def)

lemma position_None: "position p xs = None \<longleftrightarrow> (\<forall>x\<in>set xs. \<not> p x)"
  by (induction xs) auto

lemma take_position:
  "take (case position p xs of None \<Rightarrow> length xs | Some n \<Rightarrow> n) xs = takeWhile (\<lambda>x. \<not> p x) xs"
  by (induction xs) (auto split: option.splits)

lemma until_nul_takeWhile: "until_nul a = takeWhile (\<lambda>c. c \<noteq> 0) a"
  by (simp add: until_nul_def take_position)

lemma until_nul_no_nul: "0 \<notin> set (until_nul a)"
  by (auto simp: until_nul_takeWhile dest: set_takeWhileD)

lemma until_nul_append_nul: "0 \<notin> set s \<Longrightarrow> until_nul (s @ 0 # rest) = s"
  by (auto simp: until_nul_takeWhile takeWhile_tail)

lemma until_nul_id: "0 \<notin> set s \<Longrightarrow> until_nul s = s"
  by (auto simp: until_nul_takeWhile takeWhile_eq_all_conv)

lemma length_until_nul: "length (until_nul a) \<le> length a"
  by (simp add: until_nul_takeWhile length_takeWhile_le)

lemma length_AList_update:
  "length (AList.update k v m) = (if map_of m k = None then Suc (length m) else length m)"
  by (induction m) auto

lemma length_AList_delete:
  "distinct (map fst m) \<Longrightarrow>
     length (AList.delete k m) = (if map_of m k = None then length m else length m - 1)"
proof (induction m)
  case Nil
  then show ?case by simp
next
  case (Cons a m)
  obtain k' v' where a: "a = (k', v')" by force
  show ?case
  proof (cases "k' = k")
    case True
    with Cons.prems a have "k \<notin> fst ` set m" by auto
    then have "AList.delete k m = m" by simp
    with True a show ?thesis by simp
  next
    case False
    with Cons a show ?thesis
      by (cases m) (auto simp: map_of_eq_None_iff)
  qed
qed

interpretation hm: hash_map_spec hm_get hm_insert hm_remove hm_len hm_ok
  by unfold_locales
    (auto simp: hm_get_def hm_insert_def hm_remove_def hm_len_def hm_ok_def update_conv' delete_conv'
      length_AList_update length_AList_delete distinct_update distinct_delete)

lemma hm_ok_Nil [simp]: "hm_ok []" "hm_len [] = 0" "hm_get [] k = None"
  by (simp_all add: hm_ok_def hm_len_def hm_get_def)

end
