(* ===== verification/Bpfx_Std.thy ===== *)
theory Bpfx_Std
  imports Bpfx_Prelude
begin

text \<open>
  What the sources use of the Rust standard library. A \<open>String\<close> is the list of its UTF-8
  bytes, one \<open>char\<close> per byte. \<open>String::from_utf8_lossy\<close> replaces every maximal ill-formed
  part of its input by U+FFFD (bytes EF BF BD), scanning the way \<open>Utf8Chunks\<close> does;
  \<open>Path::file_name\<close>, \<open>Duration::from_nanos\<close>, the \<open>{}\<close> and \<open>{:#x}\<close> formats of unsigned
  integers and \<open>[\<dots>].join(sep)\<close> follow. The lemmas show that a lossy conversion always yields
  well-formed UTF-8, is the identity on well-formed input and creates no NUL.
\<close>

section \<open>UTF-8\<close>

definition safe_get :: "u8 list \<Rightarrow> nat \<Rightarrow> u8" where
  "safe_get bs i = (if i < length bs then bs ! i else 0)"

definition utf8_tail :: "u8 \<Rightarrow> bool" where
  "utf8_tail b = (0x80 \<le> b \<and> b \<le> 0xBF)"

definition utf8_second3 :: "u8 \<Rightarrow> u8 \<Rightarrow> bool" where
  "utf8_second3 b0 b1 =
     (if b0 = 0xE0 then 0xA0 \<le> b1 \<and> b1 \<le> 0xBF
      else if b0 = 0xED then 0x80 \<le> b1 \<and> b1 \<le> 0x9F
      else utf8_tail b1)"

definition utf8_second4 :: "u8 \<Rightarrow> u8 \<Rightarrow> bool" where
  "utf8_second4 b0 b1 =
     (if b0 = 0xF0 then 0x90 \<le> b1 \<and> b1 \<le> 0xBF
      else if b0 = 0xF4 then 0x80 \<le> b1 \<and> b1 \<le> 0x8F
      else utf8_tail b1)"

text \<open>The width a leading byte announces, 0 for a byte that cannot lead.\<close>

definition utf8_char_width :: "u8 \<Rightarrow> nat" where
  "utf8_char_width b =
     (if b < 0x80 then 1
      else if 0xC2 \<le> b \<and> b \<le> 0xDF then 2
      else if 0xE0 \<le> b \<and> b \<le> 0xEF then 3
      else if 0xF0 \<le> b \<and> b \<le> 0xF4 then 4
      else 0)"

text \<open>The first chunk of a non-empty input: whether it is well formed, and its length.\<close>

definition utf8_chunk :: "u8 list \<Rightarrow> bool \<times> nat" where
  "utf8_chunk bs =
     (let b0 = safe_get bs 0; b1 = safe_get bs 1; b2 = safe_get bs 2; b3 = safe_get bs 3;
          w = utf8_char_width b0 in
      if w = 1 then (True, 1)
      else if w = 2 then (if utf8_tail b1 then (True, 2) else (False, 1))
      else if w = 3 then
        (if \<not> utf8_second3 b0 b1 then (False, 1)
         else if utf8_tail b2 then (True, 3) else (False, 2))
      else if w = 4 then
        (if \<not> utf8_second4 b0 b1 then (False, 1)
         else if \<not> utf8_tail b2 then (False, 2)
         else if utf8_tail b3 then (True, 4) else (False, 3))
      else (False, 1))"

definition replacement_char :: "u8 list" where
  "replacement_char = [0xEF, 0xBF, 0xBD]"

lemma utf8_chunk_pos: "0 < snd (utf8_chunk bs)"
  by (simp add: utf8_chunk_def Let_def)

function utf8_lossy :: "u8 list \<Rightarrow> u8 list" where
  "utf8_lossy bs =
     (if bs = [] then []
      else (if fst (utf8_chunk bs) then take (snd (utf8_chunk bs)) bs else replacement_char)
           @ utf8_lossy (drop (snd (utf8_chunk bs)) bs))"
  by pat_completeness auto
termination
  by (relation "measure length") (simp_all add: utf8_chunk_pos)

function utf8_valid :: "u8 list \<Rightarrow> bool" where
  "utf8_valid bs =
     (if bs = [] then True
      else fst (utf8_chunk bs) \<and> utf8_valid (drop (snd (utf8_chunk bs)) bs))"
  by pat_completeness auto
termination
  by (relation "measure length") (simp_all add: utf8_chunk_pos)

declare utf8_lossy.simps [simp del] utf8_valid.simps [simp del]

definition byte_char :: "u8 \<Rightarrow> char" where
  "byte_char b = char_of (unat b)"

definition char_byte :: "char \<Rightarrow> u8" where
  "char_byte c = word_of_nat (of_char c)"

definition from_utf8_lossy :: "u8 list \<Rightarrow> string" where
  "from_utf8_lossy bs = map byte_char (utf8_lossy bs)"

section \<open>Paths\<close>

text \<open>
  The components of a Unix path are its parts between slashes, with empty parts and \<open>.\<close> left
  out; a leading \<open>.\<close> is a component of its own, but not a normal one, so it never names a file.
\<close>

fun split_on :: "char \<Rightarrow> string \<Rightarrow> string list" where
  "split_on c [] = [[]]"
| "split_on c (x # xs) =
     (if x = c then [] # split_on c xs
      else case split_on c xs of [] \<Rightarrow> [[x]] | w # ws \<Rightarrow> (x # w) # ws)"

definition path_file_name :: "string \<Rightarrow> string option" where
  "path_file_name p =
     (let cs = filter (\<lambda>c. c \<noteq> '''' \<and> c \<noteq> ''.'') (split_on (CHR ''/'') p) in
      if cs = [] \<or> last cs = ''..'' then None else Some (last cs))"

section \<open>Durations and formatting\<close>

record Duration =
  dur_secs :: u64
  dur_nanos :: u32

definition duration_from_nanos :: "u64 \<Rightarrow> Duration" where
  "duration_from_nanos n = \<lparr>dur_secs = n div 1000000000, dur_nanos = ucast (n mod 1000000000)\<rparr>"

definition digit_char :: "nat \<Rightarrow> char" where
  "digit_char d = char_of (if d < 10 then 48 + d else 87 + d)"

fun show_base :: "nat \<Rightarrow> nat \<Rightarrow> string" where
  "show_base b n =
     (if b < 2 \<or> n < b then [digit_char n] else show_base b (n div b) @ [digit_char (n mod b)])"

declare show_base.simps [simp del]

definition show_u :: "'a::len word \<Rightarrow> string" where
  "show_u w = show_base 10 (unat w)"

definition show_i :: "'a::len word \<Rightarrow> string" where
  "show_i w = (if sint w < 0 then CHR ''-'' # show_base 10 (nat (- sint w))
               else show_base 10 (nat (sint w)))"

definition show_hex :: "'a::len word \<Rightarrow> string" where
  "show_hex w = ''0x'' @ show_base 16 (unat w)"

fun join_str :: "string \<Rightarrow> string list \<Rightarrow> string" where
  "join_str sep [] = []"
| "join_str sep [x] = x"
| "join_str sep (x # xs) = x @ sep @ join_str sep xs"

section \<open>Lemmas\<close>

lemma utf8_tail_0 [simp]: "\<not> utf8_tail 0" "\<not> utf8_second3 b 0" "\<not> utf8_second4 b 0"
  by (simp_all add: utf8_tail_def utf8_second3_def utf8_second4_def)

lemma safe_get_beyond [simp]: "length bs \<le> i \<Longrightarrow> safe_get bs i = 0"
  by (simp add: safe_get_def)

lemma utf8_chunk_le:
  assumes "fst (utf8_chunk bs)" and "bs \<noteq> []"
  shows "snd (utf8_chunk bs) \<le> length bs"
proof (rule ccontr)
  assume c: "\<not> snd (utf8_chunk bs) \<le> length bs"
  have "0 < length bs" using assms(2) by simp
  then have "length bs = 1 \<or> length bs = 2 \<or> length bs = 3 \<or> 4 \<le> length bs"
    by arith
  with assms(1) c show False
    by (elim disjE) (auto simp: utf8_chunk_def Let_def split: if_splits)
qed

lemma safe_get_take_append:
  "i < n \<Longrightarrow> n \<le> length bs \<Longrightarrow> safe_get (take n bs @ cs) i = safe_get bs i"
  by (simp add: safe_get_def nth_append)

lemma utf8_chunk_prefix:
  assumes "fst (utf8_chunk bs)" and "bs \<noteq> []"
  shows "utf8_chunk (take (snd (utf8_chunk bs)) bs @ cs) = utf8_chunk bs"
proof -
  let ?n = "snd (utf8_chunk bs)" and ?bs = "take (snd (utf8_chunk bs)) bs @ cs"
  have "?n \<le> length bs" using assms by (rule utf8_chunk_le)
  then have get: "safe_get ?bs i = safe_get bs i" if "i < ?n" for i
    using that by (simp only: safe_get_take_append)
  have get0: "safe_get ?bs 0 = safe_get bs 0" by (rule get) (rule utf8_chunk_pos)
  consider "utf8_char_width (safe_get bs 0) = 1" | "utf8_char_width (safe_get bs 0) = 2" "?n = 2"
    | "utf8_char_width (safe_get bs 0) = 3" "?n = 3" | "utf8_char_width (safe_get bs 0) = 4" "?n = 4"
    using assms(1) by (auto simp: utf8_chunk_def Let_def split: if_splits)
  then show ?thesis
  proof cases
    case 1
    then show ?thesis using get0 by (simp add: utf8_chunk_def)
  next
    case 2
    then show ?thesis using get0 get [of 1] by (simp add: utf8_chunk_def)
  next
    case 3
    then show ?thesis using get0 get [of 1] get [of 2] by (simp add: utf8_chunk_def)
  next
    case 4
    then show ?thesis using get0 get [of 1] get [of 2] get [of 3] by (simp add: utf8_chunk_def)
  qed
qed

lemma utf8_chunk_replacement: "utf8_chunk (replacement_char @ cs) = (True, 3)"
  by (simp add: utf8_chunk_def replacement_char_def safe_get_def utf8_char_width_def
      utf8_second3_def utf8_tail_def)

theorem utf8_valid_lossy: "utf8_valid (utf8_lossy bs)"
proof (induction bs rule: utf8_lossy.induct)
  case (1 bs)
  show ?case
  proof (cases "bs = []")
    case True
    then show ?thesis by (simp add: utf8_lossy.simps [of "[]"] utf8_valid.simps)
  next
    case False
    let ?n = "snd (utf8_chunk bs)" and ?r = "utf8_lossy (drop (snd (utf8_chunk bs)) bs)"
    have IH: "utf8_valid ?r" using 1 False by simp
    show ?thesis
    proof (cases "fst (utf8_chunk bs)")
      case True
      with False have "?n \<le> length bs" by (simp add: utf8_chunk_le)
      with True False IH show ?thesis
        by (subst utf8_lossy.simps, subst utf8_valid.simps) (simp add: utf8_chunk_prefix)
    next
      case F: False
      with False IH show ?thesis
        by (subst utf8_lossy.simps, subst utf8_valid.simps)
          (simp add: utf8_chunk_replacement, simp add: replacement_char_def)
    qed
  qed
qed

theorem utf8_lossy_id: "utf8_valid bs \<Longrightarrow> utf8_lossy bs = bs"
proof (induction bs rule: utf8_lossy.induct)
  case (1 bs)
  show ?case
  proof (cases "bs = []")
    case True
    then show ?thesis by (simp add: utf8_lossy.simps [of "[]"])
  next
    case False
    with 1(2) have c: "fst (utf8_chunk bs)" "utf8_valid (drop (snd (utf8_chunk bs)) bs)"
      by (auto simp: utf8_valid.simps [of bs])
    with 1(1) False have "utf8_lossy (drop (snd (utf8_chunk bs)) bs) = drop (snd (utf8_chunk bs)) bs"
      by simp
    with c False show ?thesis by (subst utf8_lossy.simps) simp
  qed
qed

theorem utf8_valid_ascii: "\<forall>b\<in>set bs. b < 0x80 \<Longrightarrow> utf8_valid bs"
proof (induction bs)
  case Nil
  then show ?case by (simp add: utf8_valid.simps)
next
  case (Cons b bs)
  then have "utf8_chunk (b # bs) = (True, 1)"
    by (simp add: utf8_chunk_def safe_get_def utf8_char_width_def)
  with Cons show ?case by (subst utf8_valid.simps) simp
qed

lemma utf8_lossy_no_nul: "0 \<notin> set bs \<Longrightarrow> 0 \<notin> set (utf8_lossy bs)"
proof (induction bs rule: utf8_lossy.induct)
  case (1 bs)
  show ?case
  proof (cases "bs = []")
    case True
    then show ?thesis by (simp add: utf8_lossy.simps [of "[]"])
  next
    case False
    have "0 \<notin> set (drop (snd (utf8_chunk bs)) bs)" using 1(2) by (meson in_set_dropD)
    with 1(1) False have "0 \<notin> set (utf8_lossy (drop (snd (utf8_chunk bs)) bs))" by simp
    with 1(2) False show ?thesis
      by (subst utf8_lossy.simps) (auto simp: replacement_char_def dest: in_set_takeD)
  qed
qed

lemma char_byte_byte_char [simp]: "char_byte (byte_char b) = b"
proof -
  have "unat b < 256" by (rule order_less_le_trans [OF unsigned_less]) simp
  then show ?thesis by (simp add: char_byte_def byte_char_def)
qed

lemma from_utf8_lossy_valid: "utf8_valid (map char_byte (from_utf8_lossy bs))"
  by (simp add: from_utf8_lossy_def utf8_valid_lossy comp_def)

lemma from_utf8_lossy_id: "utf8_valid bs \<Longrightarrow> map char_byte (from_utf8_lossy bs) = bs"
  by (simp add: from_utf8_lossy_def utf8_lossy_id comp_def)

end
