(* ===== verification/Bpfx_Bytes.thy ===== *)
theory Bpfx_Bytes
  imports Bpfx_Prelude
begin

text \<open>
  The memory image of the structures that cross the ring buffer. Integers are little-endian (the
  eBPF object is built for \<open>bpfel-unknown-none\<close>), a \<open>#[repr(C)]\<close> structure places each field at
  the next multiple of its alignment and is padded to a multiple of its own; the value of a
  padding byte is left open (the parameter \<open>p\<close> of every encoder). A ring buffer item is a pointer
  with a length: \<open>it_mem\<close> gives the byte at every offset from the pointer, those past the
  length being whatever the ring holds there, so that a read past the end of an item is a read of
  the model too. The locale \<open>codec\<close> is the contract of an encoder and a decoder of one structure.
\<close>

definition le_bytes :: "nat \<Rightarrow> 'a::len word \<Rightarrow> u8 list" where
  "le_bytes n w = map (\<lambda>i. ucast (drop_bit (8 * i) w)) [0..<n]"

definition of_le :: "u8 list \<Rightarrow> 'a::len word" where
  "of_le bs = foldr (\<lambda>b acc. ucast b OR push_bit 8 acc) bs 0"

definition align_up :: "nat \<Rightarrow> nat \<Rightarrow> nat" where
  "align_up off a = (off + (a - 1)) div a * a"

fun place :: "(nat \<Rightarrow> u8) \<Rightarrow> nat \<Rightarrow> (nat \<times> u8 list) list \<Rightarrow> u8 list" where
  "place p off [] = []"
| "place p off ((a, bs) # fs) =
     map p [off..<align_up off a] @ bs @ place p (align_up off a + length bs) fs"

definition repr_C :: "(nat \<Rightarrow> u8) \<Rightarrow> nat \<Rightarrow> (nat \<times> u8 list) list \<Rightarrow> u8 list" where
  "repr_C p al fs =
     (let bs = place p 0 fs in bs @ map p [length bs..<align_up (length bs) al])"

definition field :: "u8 list \<Rightarrow> nat \<Rightarrow> nat \<Rightarrow> u8 list" where
  "field bs off n = take n (drop off bs)"

record ring_item =
  it_len :: nat
  it_mem :: "nat \<Rightarrow> u8"

definition item_of :: "u8 list \<Rightarrow> (nat \<Rightarrow> u8) \<Rightarrow> ring_item" where
  "item_of bs beyond =
     \<lparr>it_len = length bs,
      it_mem = (\<lambda>i. if i < length bs then bs ! i else beyond (i - length bs))\<rparr>"

definition read_bytes :: "ring_item \<Rightarrow> nat \<Rightarrow> u8 list" where
  "read_bytes it n = map (it_mem it) [0..<n]"

definition read_in_bounds :: "ring_item \<Rightarrow> nat \<Rightarrow> bool" where
  "read_in_bounds it n = (n \<le> it_len it)"

section \<open>The contract of an encoding\<close>

locale codec =
  fixes sz :: nat
    and enc :: "(nat \<Rightarrow> u8) \<Rightarrow> 'a \<Rightarrow> u8 list"
    and dec :: "u8 list \<Rightarrow> 'a option"
    and wf :: "'a \<Rightarrow> bool"
  assumes enc_length: "wf x \<Longrightarrow> length (enc p x) = sz"
    and dec_enc: "wf x \<Longrightarrow> dec (enc p x) = Some x"
begin

lemma enc_inj: "wf x \<Longrightarrow> wf y \<Longrightarrow> enc p x = enc q y \<Longrightarrow> x = y"
  by (metis dec_enc option.inject)

end

section \<open>Lemmas\<close>

lemma length_le_bytes [simp]: "length (le_bytes n w) = n"
  by (simp add: le_bytes_def)

lemma bit_of_le:
  "bit (of_le bs :: 'a::len word) i \<longleftrightarrow>
     i < LENGTH('a) \<and> i < 8 * length bs \<and> bit (bs ! (i div 8)) (i mod 8)"
proof (induction bs arbitrary: i)
  case Nil
  then show ?case by (simp add: of_le_def)
next
  case (Cons b bs)
  have step: "of_le (b # bs) = (ucast b OR push_bit 8 (of_le bs) :: 'a word)"
    by (simp add: of_le_def)
  show ?case
  proof (cases "i < 8")
    case True
    then show ?thesis
      by (auto simp: step bit_or_iff bit_push_bit_iff bit_unsigned_iff dest: bit_imp_le_length)
  next
    case False
    then have "\<not> bit b i" by (auto dest: bit_imp_le_length)
    moreover have "i div 8 = Suc ((i - 8) div 8)" "(i - 8) mod 8 = i mod 8"
      using False by (simp_all add: le_div_geq le_mod_geq)
    ultimately show ?thesis
      using False Cons.IH [of "i - 8"]
      by (auto simp: step bit_or_iff bit_push_bit_iff bit_unsigned_iff)
  qed
qed

lemma of_le_le_bytes:
  assumes "LENGTH('a) \<le> 8 * n"
  shows "of_le (le_bytes n w) = (w :: 'a::len word)"
proof (rule bit_eqI)
  fix i assume "possible_bit TYPE('a word) i"
  then have i: "i < LENGTH('a)" by simp
  with assms have "i div 8 < n" by linarith
  then have "bit (le_bytes n w ! (i div 8)) (i mod 8) = bit w (8 * (i div 8) + i mod 8)"
    by (simp add: le_bytes_def bit_unsigned_iff bit_drop_bit_eq)
  with i assms show "bit (of_le (le_bytes n w) :: 'a word) i = bit w i"
    by (simp add: bit_of_le)
qed

lemma of_le_u8 [simp]: "of_le (le_bytes 1 w) = (w :: u8)"
  "of_le (le_bytes (Suc 0) w) = (w :: u8)"
  and of_le_u16 [simp]: "of_le (le_bytes 2 x) = (x :: u16)"
  and of_le_u32 [simp]: "of_le (le_bytes 4 y) = (y :: u32)"
  and of_le_u64 [simp]: "of_le (le_bytes 8 z) = (z :: u64)"
  by (simp_all add: of_le_le_bytes)

lemma of_le_single [simp]: "of_le [b] = (b :: u8)"
  by (simp add: of_le_def)

lemma field_append1 [simp]: "off + n \<le> length xs \<Longrightarrow> field (xs @ ys) off n = field xs off n"
  by (simp add: field_def)

lemma field_append2 [simp]:
  "length xs \<le> off \<Longrightarrow> field (xs @ ys) off n = field ys (off - length xs) n"
  by (simp add: field_def)

lemma field_Cons [simp]: "0 < off \<Longrightarrow> field (x # xs) off n = field xs (off - 1) n"
  by (cases off) (simp_all add: field_def)

lemma field_Cons_1 [simp]: "field (x # xs) 0 (Suc 0) = [x]"
  by (simp add: field_def)

lemma field_all: "n = length xs \<Longrightarrow> field xs 0 n = xs"
  by (simp add: field_def)

lemma read_bytes_item:
  "read_bytes (item_of bs beyond) n = take n bs @ map beyond [0..<n - length bs]"
proof (rule nth_equalityI)
  show "length (read_bytes (item_of bs beyond) n) = length (take n bs @ map beyond [0..<n - length bs])"
    by (simp add: read_bytes_def min_def)
next
  fix i assume "i < length (read_bytes (item_of bs beyond) n)"
  then have "i < n" by (simp add: read_bytes_def)
  then show "read_bytes (item_of bs beyond) n ! i = (take n bs @ map beyond [0..<n - length bs]) ! i"
    by (auto simp: read_bytes_def item_of_def nth_append min_def)
qed

lemma read_bytes_within [simp]:
  "n \<le> length bs \<Longrightarrow> read_bytes (item_of bs beyond) n = take n bs"
  by (simp add: read_bytes_item)

lemma it_len_item_of [simp]: "it_len (item_of bs beyond) = length bs"
  by (simp add: item_of_def)

lemma length_read_bytes [simp]: "length (read_bytes it n) = n"
  by (simp add: read_bytes_def)

end
