(* ===== verification/Bpfx_Raw.thy ===== *)
theory Bpfx_Raw
  imports Bpfx_Bytes
begin

text \<open>
  \<open>bpfx-common/src/raw.rs\<close>: the constants, enumerations and structures shared by the eBPF object
  and the user-space library. Fields carry a two-letter prefix for their structure. \<open>enc_*\<close> is the
  \<open>#[repr(C)]\<close> image of a structure and \<open>dec_*\<close> what \<open>ptr::read\<close> makes of its bytes: \<open>None\<close> where
  a byte is no discriminant of the enumeration it is read as, which Rust makes undefined behaviour.
  Arrays are lists whose lengths the \<open>wf_*\<close> predicates state. Every structure satisfies the \<open>codec\<close>
  contract, with its size, and starts with its header.
\<close>

section \<open>Constants\<close>

definition TASK_COMM_LEN :: nat where "TASK_COMM_LEN = 16"
definition FILE_REG :: u16 where "FILE_REG = 1"
definition FILE_DIR :: u16 where "FILE_DIR = 2"
definition FILE_CHR :: u16 where "FILE_CHR = 4"
definition FILE_BLK :: u16 where "FILE_BLK = 8"
definition FILE_FIFO :: u16 where "FILE_FIFO = 16"
definition FILE_LNK :: u16 where "FILE_LNK = 32"
definition FILE_SOCK :: u16 where "FILE_SOCK = 64"

definition O_RDONLY :: u32 where "O_RDONLY = 0"
definition O_WRONLY :: u32 where "O_WRONLY = 1"
definition O_RDWR :: u32 where "O_RDWR = 2"
definition O_ACCMODE :: u32 where "O_ACCMODE = 3"
definition O_APPEND :: u32 where "O_APPEND = 1024"
definition O_ASYNC :: u32 where "O_ASYNC = 0x2000"
definition O_CLOEXEC :: u32 where "O_CLOEXEC = 0x80000"
definition O_CREAT :: u32 where "O_CREAT = 64"
definition O_DIRECT :: u32 where "O_DIRECT = 0x4000"
definition O_DIRECTORY :: u32 where "O_DIRECTORY = 0x10000"
definition O_DSYNC :: u32 where "O_DSYNC = 4096"
definition O_EXCL :: u32 where "O_EXCL = 128"
definition O_NOATIME :: u32 where "O_NOATIME = 0x40000"
definition O_NOCTTY :: u32 where "O_NOCTTY = 256"
definition O_NOFOLLOW :: u32 where "O_NOFOLLOW = 0x20000"
definition O_NONBLOCK :: u32 where "O_NONBLOCK = 2048"
definition O_PATH :: u32 where "O_PATH = 0x200000"
definition O_SYNC :: u32 where "O_SYNC = 1052672"
definition O_TRUNC :: u32 where "O_TRUNC = 512"
definition O_TMPFILE :: u32 where "O_TMPFILE = 0x400000 OR O_DIRECTORY"

lemmas file_bits = FILE_REG_def FILE_DIR_def FILE_CHR_def FILE_BLK_def FILE_FIFO_def FILE_LNK_def
  FILE_SOCK_def

lemmas open_flag_defs = O_RDONLY_def O_WRONLY_def O_RDWR_def O_ACCMODE_def O_APPEND_def O_ASYNC_def
  O_CLOEXEC_def O_CREAT_def O_DIRECT_def O_DIRECTORY_def O_DSYNC_def O_EXCL_def O_NOATIME_def
  O_NOCTTY_def O_NOFOLLOW_def O_NONBLOCK_def O_PATH_def O_SYNC_def O_TRUNC_def O_TMPFILE_def

section \<open>Enumerations\<close>

datatype EventType = Connect | Accept | Close | ProcessStart | ProcessFork | ProcessExit
  | FileOpen | FileRead | FileClose | FileWrite | FileDelete | FileRename | Bind | Listen
  | MemoryMap | MemoryUnMap | PendingFileRename | Test

fun event_type_disc :: "EventType \<Rightarrow> u8" where
  "event_type_disc Connect = 1"
| "event_type_disc Accept = 2"
| "event_type_disc Close = 3"
| "event_type_disc ProcessStart = 4"
| "event_type_disc ProcessFork = 5"
| "event_type_disc ProcessExit = 6"
| "event_type_disc FileOpen = 7"
| "event_type_disc FileRead = 8"
| "event_type_disc FileClose = 9"
| "event_type_disc FileWrite = 10"
| "event_type_disc FileDelete = 11"
| "event_type_disc FileRename = 12"
| "event_type_disc Bind = 13"
| "event_type_disc Listen = 14"
| "event_type_disc MemoryMap = 15"
| "event_type_disc MemoryUnMap = 16"
| "event_type_disc PendingFileRename = 17"
| "event_type_disc Test = 18"

definition all_event_types :: "EventType list" where
  "all_event_types = [Connect, Accept, Close, ProcessStart, ProcessFork, ProcessExit, FileOpen,
     FileRead, FileClose, FileWrite, FileDelete, FileRename, Bind, Listen, MemoryMap, MemoryUnMap,
     PendingFileRename, Test]"

text \<open>The value a byte has when it is read as the enumeration; no value for any other byte.\<close>

definition event_type_of_disc :: "u8 \<Rightarrow> EventType option" where
  "event_type_of_disc b = find (\<lambda>t. event_type_disc t = b) all_event_types"

text \<open>\<open>impl TryFrom<u8> for EventType\<close>, as it is written.\<close>

definition event_type_try_from :: "u8 \<Rightarrow> unit + EventType" where
  "event_type_try_from value =
     (if value = 1 then Inr Connect
      else if value = 2 then Inr Accept
      else if value = 3 then Inr Close
      else if value = 4 then Inr ProcessStart
      else if value = 5 then Inr ProcessExit
      else if value = 6 then Inr FileOpen
      else if value = 7 then Inr FileClose
      else Inl ())"

datatype RawProtocol = RawTcp | RawUdp

fun protocol_disc :: "RawProtocol \<Rightarrow> u8" where
  "protocol_disc RawTcp = 1"
| "protocol_disc RawUdp = 2"

definition protocol_try_from :: "u8 \<Rightarrow> unit + RawProtocol" where
  "protocol_try_from value =
     (if value = 1 then Inr RawTcp else if value = 2 then Inr RawUdp else Inl ())"

definition protocol_of_disc :: "u8 \<Rightarrow> RawProtocol option" where
  "protocol_of_disc b = find (\<lambda>t. protocol_disc t = b) [RawTcp, RawUdp]"

datatype IpVersion = V4 | V6

fun ip_version_disc :: "IpVersion \<Rightarrow> u32" where
  "ip_version_disc V4 = 0"
| "ip_version_disc V6 = 1"

definition ip_version_of_disc :: "u32 \<Rightarrow> IpVersion option" where
  "ip_version_of_disc b = find (\<lambda>t. ip_version_disc t = b) [V4, V6]"

datatype FilterKey = FilterNone | Pid u32 | Tid u32 | Ppid u32 | Uid u32 | Gid u32

datatype FilterOwner = OwnerMemory | OwnerProcess | OwnerNetwork | OwnerFile

fun filter_owner_u32 :: "FilterOwner \<Rightarrow> u32" where
  "filter_owner_u32 OwnerMemory = 0"
| "filter_owner_u32 OwnerProcess = 1"
| "filter_owner_u32 OwnerNetwork = 2"
| "filter_owner_u32 OwnerFile = 3"

section \<open>Structures\<close>

record RawEventHeader =
  rh_event_type :: EventType
  rh_timestamp_ns :: u64
  rh_pid :: u32
  rh_tid :: u32
  rh_ppid :: u32
  rh_uid :: u32
  rh_gid :: u32
  rh_comm :: "u8 list"

record FileModeFilter =
  mode :: u16

record RawFilePath =
  filepath :: "u8 list"

record PendingConnect =
  pc_header :: RawEventHeader
  pc_protocol :: RawProtocol
  pc_tid :: u32
  pc_src_port :: u16
  pc_dst_port :: u16
  pc_ip_version :: IpVersion
  pc_src_addr :: "u8 list"
  pc_dst_addr :: "u8 list"
  pc_retval :: "i32 option"

record RawProcessStartEvent =
  rs_header :: RawEventHeader
  rs_filename :: "u8 list"

record RawProcessExitEvent =
  rx_header :: RawEventHeader
  rx_exit_code :: i32

record RawFileOpenEvent =
  ro_header :: RawEventHeader
  ro_file_path :: "u8 list"
  ro_file_mode :: FileModeFilter
  ro_inode :: u64
  ro_retval :: i32
  ro_flags :: u32

record RawFileCloseEvent =
  rc_header :: RawEventHeader
  rc_file_path :: "u8 list"
  rc_file_mode :: FileModeFilter
  rc_inode :: u64
  rc_retval :: i32
  rc_flags :: u32

record RawProcessForkEvent =
  rf_parent :: RawEventHeader
  rf_child_pid :: u32
  rf_child_comm :: "u8 list"

record RawFileReadEvent =
  rr_header :: RawEventHeader
  rr_file_path :: "u8 list"
  rr_file_mode :: FileModeFilter
  rr_inode :: u64
  rr_retval :: isize
  rr_flags :: u32

record RawFileWriteEvent =
  rw_header :: RawEventHeader
  rw_file_path :: "u8 list"
  rw_file_mode :: FileModeFilter
  rw_inode :: u64
  rw_flags :: u32
  rw_retval :: isize

record RawFileDeleteEvent =
  rd_header :: RawEventHeader
  rd_file_name :: "u8 list"
  rd_file_mode :: FileModeFilter
  rd_retval :: i32

record RawFileRtrEvent =
  rt_header :: RawEventHeader
  rt_retval :: i32

record RawFileRenameEvent =
  rn_header :: RawEventHeader
  rn_old_filename :: "u8 list"
  rn_new_filename :: "u8 list"
  rn_file_mode :: FileModeFilter
  rn_flags :: u32

record RawMemoryMapEvent =
  rm_header :: RawEventHeader
  rm_requested_address :: usize
  rm_length :: u64
  rm_protection :: u32
  rm_flags :: u32
  rm_mapped_address :: usize

record RawMemoryUnmapEvent =
  ru_header :: RawEventHeader
  ru_requested_address :: usize
  ru_length :: u64
  ru_mapped_address :: usize

text \<open>What one item of the EVENTS ring buffer holds: the structure its producer reserved.\<close>

datatype raw_event = RE_net PendingConnect | RE_start RawProcessStartEvent
  | RE_exit RawProcessExitEvent | RE_fork RawProcessForkEvent | RE_open RawFileOpenEvent
  | RE_close RawFileCloseEvent | RE_read RawFileReadEvent | RE_write RawFileWriteEvent
  | RE_delete RawFileDeleteEvent | RE_rename RawFileRenameEvent | RE_rtr RawFileRtrEvent
  | RE_mmap RawMemoryMapEvent | RE_munmap RawMemoryUnmapEvent

fun raw_header :: "raw_event \<Rightarrow> RawEventHeader" where
  "raw_header (RE_net e) = pc_header e"
| "raw_header (RE_start e) = rs_header e"
| "raw_header (RE_exit e) = rx_header e"
| "raw_header (RE_open e) = ro_header e"
| "raw_header (RE_close e) = rc_header e"
| "raw_header (RE_fork e) = rf_parent e"
| "raw_header (RE_read e) = rr_header e"
| "raw_header (RE_write e) = rw_header e"
| "raw_header (RE_delete e) = rd_header e"
| "raw_header (RE_rtr e) = rt_header e"
| "raw_header (RE_rename e) = rn_header e"
| "raw_header (RE_mmap e) = rm_header e"
| "raw_header (RE_munmap e) = ru_header e"

section \<open>Memory images\<close>

definition enc_header :: "(nat \<Rightarrow> u8) \<Rightarrow> RawEventHeader \<Rightarrow> u8 list" where
  "enc_header p h = repr_C p 8
     [(1, [event_type_disc (rh_event_type h)]),
      (8, le_bytes 8 (rh_timestamp_ns h)),
      (4, le_bytes 4 (rh_pid h)),
      (4, le_bytes 4 (rh_tid h)),
      (4, le_bytes 4 (rh_ppid h)),
      (4, le_bytes 4 (rh_uid h)),
      (4, le_bytes 4 (rh_gid h)),
      (1, rh_comm h)]"

definition dec_header :: "u8 list \<Rightarrow> RawEventHeader option" where
  "dec_header bs =
     (case event_type_of_disc (of_le (field bs 0 1)) of None \<Rightarrow> None | Some t \<Rightarrow>
        Some \<lparr>rh_event_type = t,
            rh_timestamp_ns = of_le (field bs 8 8),
            rh_pid = of_le (field bs 16 4),
            rh_tid = of_le (field bs 20 4),
            rh_ppid = of_le (field bs 24 4),
            rh_uid = of_le (field bs 28 4),
            rh_gid = of_le (field bs 32 4),
            rh_comm = field bs 36 16\<rparr>)"

text \<open>\<open>Option<i32>\<close> has no niche: a 4-byte tag, then the value, open when the tag is 0.\<close>

fun enc_option_i32 :: "(nat \<Rightarrow> u8) \<Rightarrow> i32 option \<Rightarrow> u8 list" where
  "enc_option_i32 p None = le_bytes 4 (0 :: u32) @ map p [4..<8]"
| "enc_option_i32 p (Some v) = le_bytes 4 (1 :: u32) @ le_bytes 4 v"

definition dec_option_i32 :: "u8 list \<Rightarrow> i32 option option" where
  "dec_option_i32 bs =
     (let tag = (of_le (field bs 0 4) :: u32) in
      if tag = 0 then Some None
      else if tag = 1 then Some (Some (of_le (field bs 4 4)))
      else None)"

definition wf_header :: "RawEventHeader \<Rightarrow> bool" where
  "wf_header h = (length (rh_comm h) = 16)"

definition enc_net :: "(nat \<Rightarrow> u8) \<Rightarrow> PendingConnect \<Rightarrow> u8 list" where
  "enc_net p e = repr_C p 8
     [(8, enc_header p (pc_header e)),
      (1, [protocol_disc (pc_protocol e)]),
      (4, le_bytes 4 (pc_tid e)),
      (2, le_bytes 2 (pc_src_port e)),
      (2, le_bytes 2 (pc_dst_port e)),
      (4, le_bytes 4 (ip_version_disc (pc_ip_version e))),
      (1, pc_src_addr e),
      (1, pc_dst_addr e),
      (4, enc_option_i32 p (pc_retval e))]"

definition dec_net :: "u8 list \<Rightarrow> PendingConnect option" where
  "dec_net bs =
     (case dec_header (field bs 0 56) of None \<Rightarrow> None | Some h \<Rightarrow>
        (case protocol_of_disc (of_le (field bs 56 1)) of None \<Rightarrow> None | Some pr \<Rightarrow>
        (case ip_version_of_disc (of_le (field bs 68 4)) of None \<Rightarrow> None | Some ip \<Rightarrow>
        (case dec_option_i32 (field bs 104 8) of None \<Rightarrow> None | Some rv \<Rightarrow>
        Some \<lparr>pc_header = h,
            pc_protocol = pr,
            pc_tid = of_le (field bs 60 4),
            pc_src_port = of_le (field bs 64 2),
            pc_dst_port = of_le (field bs 66 2),
            pc_ip_version = ip,
            pc_src_addr = field bs 72 16,
            pc_dst_addr = field bs 88 16,
            pc_retval = rv\<rparr>))))"

definition wf_net :: "PendingConnect \<Rightarrow> bool" where
  "wf_net e = (wf_header (pc_header e) \<and> length (pc_src_addr e) = 16 \<and> length (pc_dst_addr e) = 16)"

definition enc_start :: "(nat \<Rightarrow> u8) \<Rightarrow> RawProcessStartEvent \<Rightarrow> u8 list" where
  "enc_start p e = repr_C p 8
     [(8, enc_header p (rs_header e)),
      (1, rs_filename e)]"

definition dec_start :: "u8 list \<Rightarrow> RawProcessStartEvent option" where
  "dec_start bs =
     (case dec_header (field bs 0 56) of None \<Rightarrow> None | Some h \<Rightarrow>
        Some \<lparr>rs_header = h,
            rs_filename = field bs 56 256\<rparr>)"

definition wf_start :: "RawProcessStartEvent \<Rightarrow> bool" where
  "wf_start e = (wf_header (rs_header e) \<and> length (rs_filename e) = 256)"

definition enc_exit :: "(nat \<Rightarrow> u8) \<Rightarrow> RawProcessExitEvent \<Rightarrow> u8 list" where
  "enc_exit p e = repr_C p 8
     [(8, enc_header p (rx_header e)),
      (4, le_bytes 4 (rx_exit_code e))]"

definition dec_exit :: "u8 list \<Rightarrow> RawProcessExitEvent option" where
  "dec_exit bs =
     (case dec_header (field bs 0 56) of None \<Rightarrow> None | Some h \<Rightarrow>
        Some \<lparr>rx_header = h,
            rx_exit_code = of_le (field bs 56 4)\<rparr>)"

definition wf_exit :: "RawProcessExitEvent \<Rightarrow> bool" where
  "wf_exit e = (wf_header (rx_header e))"

definition enc_open :: "(nat \<Rightarrow> u8) \<Rightarrow> RawFileOpenEvent \<Rightarrow> u8 list" where
  "enc_open p e = repr_C p 8
     [(8, enc_header p (ro_header e)),
      (1, ro_file_path e),
      (2, le_bytes 2 (mode (ro_file_mode e))),
      (8, le_bytes 8 (ro_inode e)),
      (4, le_bytes 4 (ro_retval e)),
      (4, le_bytes 4 (ro_flags e))]"

definition dec_open :: "u8 list \<Rightarrow> RawFileOpenEvent option" where
  "dec_open bs =
     (case dec_header (field bs 0 56) of None \<Rightarrow> None | Some h \<Rightarrow>
        Some \<lparr>ro_header = h,
            ro_file_path = field bs 56 256,
            ro_file_mode = \<lparr>mode = of_le (field bs 312 2)\<rparr>,
            ro_inode = of_le (field bs 320 8),
            ro_retval = of_le (field bs 328 4),
            ro_flags = of_le (field bs 332 4)\<rparr>)"

definition wf_open :: "RawFileOpenEvent \<Rightarrow> bool" where
  "wf_open e = (wf_header (ro_header e) \<and> length (ro_file_path e) = 256)"

definition enc_close :: "(nat \<Rightarrow> u8) \<Rightarrow> RawFileCloseEvent \<Rightarrow> u8 list" where
  "enc_close p e = repr_C p 8
     [(8, enc_header p (rc_header e)),
      (1, rc_file_path e),
      (2, le_bytes 2 (mode (rc_file_mode e))),
      (8, le_bytes 8 (rc_inode e)),
      (4, le_bytes 4 (rc_retval e)),
      (4, le_bytes 4 (rc_flags e))]"

definition dec_close :: "u8 list \<Rightarrow> RawFileCloseEvent option" where
  "dec_close bs =
     (case dec_header (field bs 0 56) of None \<Rightarrow> None | Some h \<Rightarrow>
        Some \<lparr>rc_header = h,
            rc_file_path = field bs 56 256,
            rc_file_mode = \<lparr>mode = of_le (field bs 312 2)\<rparr>,
            rc_inode = of_le (field bs 320 8),
            rc_retval = of_le (field bs 328 4),
            rc_flags = of_le (field bs 332 4)\<rparr>)"

definition wf_close :: "RawFileCloseEvent \<Rightarrow> bool" where
  "wf_close e = (wf_header (rc_header e) \<and> length (rc_file_path e) = 256)"

definition enc_fork :: "(nat \<Rightarrow> u8) \<Rightarrow> RawProcessForkEvent \<Rightarrow> u8 list" where
  "enc_fork p e = repr_C p 8
     [(8, enc_header p (rf_parent e)),
      (4, le_bytes 4 (rf_child_pid e)),
      (1, rf_child_comm e)]"

definition dec_fork :: "u8 list \<Rightarrow> RawProcessForkEvent option" where
  "dec_fork bs =
     (case dec_header (field bs 0 56) of None \<Rightarrow> None | Some h \<Rightarrow>
        Some \<lparr>rf_parent = h,
            rf_child_pid = of_le (field bs 56 4),
            rf_child_comm = field bs 60 16\<rparr>)"

definition wf_fork :: "RawProcessForkEvent \<Rightarrow> bool" where
  "wf_fork e = (wf_header (rf_parent e) \<and> length (rf_child_comm e) = 16)"

definition enc_read :: "(nat \<Rightarrow> u8) \<Rightarrow> RawFileReadEvent \<Rightarrow> u8 list" where
  "enc_read p e = repr_C p 8
     [(8, enc_header p (rr_header e)),
      (1, rr_file_path e),
      (2, le_bytes 2 (mode (rr_file_mode e))),
      (8, le_bytes 8 (rr_inode e)),
      (8, le_bytes 8 (rr_retval e)),
      (4, le_bytes 4 (rr_flags e))]"

definition dec_read :: "u8 list \<Rightarrow> RawFileReadEvent option" where
  "dec_read bs =
     (case dec_header (field bs 0 56) of None \<Rightarrow> None | Some h \<Rightarrow>
        Some \<lparr>rr_header = h,
            rr_file_path = field bs 56 256,
            rr_file_mode = \<lparr>mode = of_le (field bs 312 2)\<rparr>,
            rr_inode = of_le (field bs 320 8),
            rr_retval = of_le (field bs 328 8),
            rr_flags = of_le (field bs 336 4)\<rparr>)"

definition wf_read :: "RawFileReadEvent \<Rightarrow> bool" where
  "wf_read e = (wf_header (rr_header e) \<and> length (rr_file_path e) = 256)"

definition enc_write :: "(nat \<Rightarrow> u8) \<Rightarrow> RawFileWriteEvent \<Rightarrow> u8 list" where
  "enc_write p e = repr_C p 8
     [(8, enc_header p (rw_header e)),
      (1, rw_file_path e),
      (2, le_bytes 2 (mode (rw_file_mode e))),
      (8, le_bytes 8 (rw_inode e)),
      (4, le_bytes 4 (rw_flags e)),
      (8, le_bytes 8 (rw_retval e))]"

definition dec_write :: "u8 list \<Rightarrow> RawFileWriteEvent option" where
  "dec_write bs =
     (case dec_header (field bs 0 56) of None \<Rightarrow> None | Some h \<Rightarrow>
        Some \<lparr>rw_header = h,
            rw_file_path = field bs 56 256,
            rw_file_mode = \<lparr>mode = of_le (field bs 312 2)\<rparr>,
            rw_inode = of_le (field bs 320 8),
            rw_flags = of_le (field bs 328 4),
            rw_retval = of_le (field bs 336 8)\<rparr>)"

definition wf_write :: "RawFileWriteEvent \<Rightarrow> bool" where
  "wf_write e = (wf_header (rw_header e) \<and> length (rw_file_path e) = 256)"

definition enc_delete :: "(nat \<Rightarrow> u8) \<Rightarrow> RawFileDeleteEvent \<Rightarrow> u8 list" where
  "enc_delete p e = repr_C p 8
     [(8, enc_header p (rd_header e)),
      (1, rd_file_name e),
      (2, le_bytes 2 (mode (rd_file_mode e))),
      (4, le_bytes 4 (rd_retval e))]"

definition dec_delete :: "u8 list \<Rightarrow> RawFileDeleteEvent option" where
  "dec_delete bs =
     (case dec_header (field bs 0 56) of None \<Rightarrow> None | Some h \<Rightarrow>
        Some \<lparr>rd_header = h,
            rd_file_name = field bs 56 256,
            rd_file_mode = \<lparr>mode = of_le (field bs 312 2)\<rparr>,
            rd_retval = of_le (field bs 316 4)\<rparr>)"

definition wf_delete :: "RawFileDeleteEvent \<Rightarrow> bool" where
  "wf_delete e = (wf_header (rd_header e) \<and> length (rd_file_name e) = 256)"

definition enc_rtr :: "(nat \<Rightarrow> u8) \<Rightarrow> RawFileRtrEvent \<Rightarrow> u8 list" where
  "enc_rtr p e = repr_C p 8
     [(8, enc_header p (rt_header e)),
      (4, le_bytes 4 (rt_retval e))]"

definition dec_rtr :: "u8 list \<Rightarrow> RawFileRtrEvent option" where
  "dec_rtr bs =
     (case dec_header (field bs 0 56) of None \<Rightarrow> None | Some h \<Rightarrow>
        Some \<lparr>rt_header = h,
            rt_retval = of_le (field bs 56 4)\<rparr>)"

definition wf_rtr :: "RawFileRtrEvent \<Rightarrow> bool" where
  "wf_rtr e = (wf_header (rt_header e))"

definition enc_rename :: "(nat \<Rightarrow> u8) \<Rightarrow> RawFileRenameEvent \<Rightarrow> u8 list" where
  "enc_rename p e = repr_C p 8
     [(8, enc_header p (rn_header e)),
      (1, rn_old_filename e),
      (1, rn_new_filename e),
      (2, le_bytes 2 (mode (rn_file_mode e))),
      (4, le_bytes 4 (rn_flags e))]"

definition dec_rename :: "u8 list \<Rightarrow> RawFileRenameEvent option" where
  "dec_rename bs =
     (case dec_header (field bs 0 56) of None \<Rightarrow> None | Some h \<Rightarrow>
        Some \<lparr>rn_header = h,
            rn_old_filename = field bs 56 256,
            rn_new_filename = field bs 312 256,
            rn_file_mode = \<lparr>mode = of_le (field bs 568 2)\<rparr>,
            rn_flags = of_le (field bs 572 4)\<rparr>)"

definition wf_rename :: "RawFileRenameEvent \<Rightarrow> bool" where
  "wf_rename e = (wf_header (rn_header e) \<and> length (rn_old_filename e) = 256 \<and> length (rn_new_filename e) = 256)"

definition enc_mmap :: "(nat \<Rightarrow> u8) \<Rightarrow> RawMemoryMapEvent \<Rightarrow> u8 list" where
  "enc_mmap p e = repr_C p 8
     [(8, enc_header p (rm_header e)),
      (8, le_bytes 8 (rm_requested_address e)),
      (8, le_bytes 8 (rm_length e)),
      (4, le_bytes 4 (rm_protection e)),
      (4, le_bytes 4 (rm_flags e)),
      (8, le_bytes 8 (rm_mapped_address e))]"

definition dec_mmap :: "u8 list \<Rightarrow> RawMemoryMapEvent option" where
  "dec_mmap bs =
     (case dec_header (field bs 0 56) of None \<Rightarrow> None | Some h \<Rightarrow>
        Some \<lparr>rm_header = h,
            rm_requested_address = of_le (field bs 56 8),
            rm_length = of_le (field bs 64 8),
            rm_protection = of_le (field bs 72 4),
            rm_flags = of_le (field bs 76 4),
            rm_mapped_address = of_le (field bs 80 8)\<rparr>)"

definition wf_mmap :: "RawMemoryMapEvent \<Rightarrow> bool" where
  "wf_mmap e = (wf_header (rm_header e))"

definition enc_munmap :: "(nat \<Rightarrow> u8) \<Rightarrow> RawMemoryUnmapEvent \<Rightarrow> u8 list" where
  "enc_munmap p e = repr_C p 8
     [(8, enc_header p (ru_header e)),
      (8, le_bytes 8 (ru_requested_address e)),
      (8, le_bytes 8 (ru_length e)),
      (8, le_bytes 8 (ru_mapped_address e))]"

definition dec_munmap :: "u8 list \<Rightarrow> RawMemoryUnmapEvent option" where
  "dec_munmap bs =
     (case dec_header (field bs 0 56) of None \<Rightarrow> None | Some h \<Rightarrow>
        Some \<lparr>ru_header = h,
            ru_requested_address = of_le (field bs 56 8),
            ru_length = of_le (field bs 64 8),
            ru_mapped_address = of_le (field bs 72 8)\<rparr>)"

definition wf_munmap :: "RawMemoryUnmapEvent \<Rightarrow> bool" where
  "wf_munmap e = (wf_header (ru_header e))"

fun enc_raw :: "(nat \<Rightarrow> u8) \<Rightarrow> raw_event \<Rightarrow> u8 list" where
  "enc_raw p (RE_net e) = enc_net p e"
| "enc_raw p (RE_start e) = enc_start p e"
| "enc_raw p (RE_exit e) = enc_exit p e"
| "enc_raw p (RE_open e) = enc_open p e"
| "enc_raw p (RE_close e) = enc_close p e"
| "enc_raw p (RE_fork e) = enc_fork p e"
| "enc_raw p (RE_read e) = enc_read p e"
| "enc_raw p (RE_write e) = enc_write p e"
| "enc_raw p (RE_delete e) = enc_delete p e"
| "enc_raw p (RE_rtr e) = enc_rtr p e"
| "enc_raw p (RE_rename e) = enc_rename p e"
| "enc_raw p (RE_mmap e) = enc_mmap p e"
| "enc_raw p (RE_munmap e) = enc_munmap p e"

fun wf_raw :: "raw_event \<Rightarrow> bool" where
  "wf_raw (RE_net e) = wf_net e"
| "wf_raw (RE_start e) = wf_start e"
| "wf_raw (RE_exit e) = wf_exit e"
| "wf_raw (RE_open e) = wf_open e"
| "wf_raw (RE_close e) = wf_close e"
| "wf_raw (RE_fork e) = wf_fork e"
| "wf_raw (RE_read e) = wf_read e"
| "wf_raw (RE_write e) = wf_write e"
| "wf_raw (RE_delete e) = wf_delete e"
| "wf_raw (RE_rtr e) = wf_rtr e"
| "wf_raw (RE_rename e) = wf_rename e"
| "wf_raw (RE_mmap e) = wf_mmap e"
| "wf_raw (RE_munmap e) = wf_munmap e"

text \<open>
  The convention between the two sides of the ring: the type in the header is the one of the
  structure behind it, and a network event has a return value exactly for the operations that
  report one.
\<close>

fun tag_ok :: "raw_event \<Rightarrow> bool" where
  "tag_ok (RE_net e) =
     (rh_event_type (pc_header e) \<in> {Connect, Accept, Close, Bind, Listen} \<and>
      (pc_retval e \<noteq> None \<longleftrightarrow> rh_event_type (pc_header e) \<in> {Connect, Bind, Listen}) \<and>
      pc_tid e = rh_tid (pc_header e))"
| "tag_ok (RE_start e) = (rh_event_type (rs_header e) = ProcessStart)"
| "tag_ok (RE_exit e) = (rh_event_type (rx_header e) = ProcessExit)"
| "tag_ok (RE_fork e) = (rh_event_type (rf_parent e) = ProcessFork)"
| "tag_ok (RE_open e) = (rh_event_type (ro_header e) = FileOpen)"
| "tag_ok (RE_close e) = (rh_event_type (rc_header e) = FileClose)"
| "tag_ok (RE_read e) = (rh_event_type (rr_header e) = FileRead)"
| "tag_ok (RE_write e) = (rh_event_type (rw_header e) = FileWrite)"
| "tag_ok (RE_delete e) = (rh_event_type (rd_header e) = FileDelete)"
| "tag_ok (RE_rename e) = (rh_event_type (rn_header e) = FileRename)"
| "tag_ok (RE_rtr e) = (rh_event_type (rt_header e) = PendingFileRename)"
| "tag_ok (RE_mmap e) = (rh_event_type (rm_header e) = MemoryMap)"
| "tag_ok (RE_munmap e) = (rh_event_type (ru_header e) = MemoryUnMap)"

text \<open>\<open>core::mem::size_of\<close> of the structure.\<close>

fun raw_size :: "raw_event \<Rightarrow> nat" where
  "raw_size (RE_net e) = 112"
| "raw_size (RE_start e) = 312"
| "raw_size (RE_exit e) = 64"
| "raw_size (RE_open e) = 336"
| "raw_size (RE_close e) = 336"
| "raw_size (RE_fork e) = 80"
| "raw_size (RE_read e) = 344"
| "raw_size (RE_write e) = 344"
| "raw_size (RE_delete e) = 320"
| "raw_size (RE_rtr e) = 64"
| "raw_size (RE_rename e) = 576"
| "raw_size (RE_mmap e) = 88"
| "raw_size (RE_munmap e) = 80"

section \<open>Lemmas on the enumerations\<close>

lemma event_type_of_disc_disc [simp]: "event_type_of_disc (event_type_disc t) = Some t"
  by (cases t) (simp_all add: event_type_of_disc_def all_event_types_def)

lemma event_type_disc_inj: "event_type_disc s = event_type_disc t \<Longrightarrow> s = t"
  by (metis event_type_of_disc_disc option.inject)

lemma protocol_of_disc_disc [simp]: "protocol_of_disc (protocol_disc t) = Some t"
  by (cases t) (simp_all add: protocol_of_disc_def)

lemma ip_version_of_disc_disc [simp]: "ip_version_of_disc (ip_version_disc t) = Some t"
  by (cases t) (simp_all add: ip_version_of_disc_def)

lemma length_enc_option_i32 [simp]: "length (enc_option_i32 p v) = 8"
  by (cases v) simp_all

lemma dec_enc_option_i32 [simp]: "dec_option_i32 (enc_option_i32 p v) = Some v"
  by (cases v) (simp_all add: dec_option_i32_def Let_def field_all)

section \<open>Every structure satisfies the codec contract\<close>

lemmas layout = repr_C_def Let_def align_up_def field_all

lemma length_enc_header [simp]: "wf_header h \<Longrightarrow> length (enc_header p h) = 56"
  by (simp add: enc_header_def wf_header_def layout)

lemma dec_enc_header [simp]: "wf_header h \<Longrightarrow> dec_header (enc_header p h) = Some h"
  by (simp add: enc_header_def dec_header_def wf_header_def layout)

lemma length_enc_net [wire]: "wf_net e \<Longrightarrow> length (enc_net p e) = 112"
  by (simp add: enc_net_def wf_net_def layout)

lemma dec_enc_net [wire]: "wf_net e \<Longrightarrow> dec_net (enc_net p e) = Some e"
  by (simp add: enc_net_def dec_net_def wf_net_def layout)

lemma length_enc_start [wire]: "wf_start e \<Longrightarrow> length (enc_start p e) = 312"
  by (simp add: enc_start_def wf_start_def layout)

lemma dec_enc_start [wire]: "wf_start e \<Longrightarrow> dec_start (enc_start p e) = Some e"
  by (simp add: enc_start_def dec_start_def wf_start_def layout)

lemma length_enc_exit [wire]: "wf_exit e \<Longrightarrow> length (enc_exit p e) = 64"
  by (simp add: enc_exit_def wf_exit_def layout)

lemma dec_enc_exit [wire]: "wf_exit e \<Longrightarrow> dec_exit (enc_exit p e) = Some e"
  by (simp add: enc_exit_def dec_exit_def wf_exit_def layout)

lemma length_enc_open [wire]: "wf_open e \<Longrightarrow> length (enc_open p e) = 336"
  by (simp add: enc_open_def wf_open_def layout)

lemma dec_enc_open [wire]: "wf_open e \<Longrightarrow> dec_open (enc_open p e) = Some e"
  by (simp add: enc_open_def dec_open_def wf_open_def layout)

lemma length_enc_close [wire]: "wf_close e \<Longrightarrow> length (enc_close p e) = 336"
  by (simp add: enc_close_def wf_close_def layout)

lemma dec_enc_close [wire]: "wf_close e \<Longrightarrow> dec_close (enc_close p e) = Some e"
  by (simp add: enc_close_def dec_close_def wf_close_def layout)

lemma length_enc_fork [wire]: "wf_fork e \<Longrightarrow> length (enc_fork p e) = 80"
  by (simp add: enc_fork_def wf_fork_def layout)

lemma dec_enc_fork [wire]: "wf_fork e \<Longrightarrow> dec_fork (enc_fork p e) = Some e"
  by (simp add: enc_fork_def dec_fork_def wf_fork_def layout)

lemma length_enc_read [wire]: "wf_read e \<Longrightarrow> length (enc_read p e) = 344"
  by (simp add: enc_read_def wf_read_def layout)

lemma dec_enc_read [wire]: "wf_read e \<Longrightarrow> dec_read (enc_read p e) = Some e"
  by (simp add: enc_read_def dec_read_def wf_read_def layout)

lemma length_enc_write [wire]: "wf_write e \<Longrightarrow> length (enc_write p e) = 344"
  by (simp add: enc_write_def wf_write_def layout)

lemma dec_enc_write [wire]: "wf_write e \<Longrightarrow> dec_write (enc_write p e) = Some e"
  by (simp add: enc_write_def dec_write_def wf_write_def layout)

lemma length_enc_delete [wire]: "wf_delete e \<Longrightarrow> length (enc_delete p e) = 320"
  by (simp add: enc_delete_def wf_delete_def layout)

lemma dec_enc_delete [wire]: "wf_delete e \<Longrightarrow> dec_delete (enc_delete p e) = Some e"
  by (simp add: enc_delete_def dec_delete_def wf_delete_def layout)

lemma length_enc_rtr [wire]: "wf_rtr e \<Longrightarrow> length (enc_rtr p e) = 64"
  by (simp add: enc_rtr_def wf_rtr_def layout)

lemma dec_enc_rtr [wire]: "wf_rtr e \<Longrightarrow> dec_rtr (enc_rtr p e) = Some e"
  by (simp add: enc_rtr_def dec_rtr_def wf_rtr_def layout)

lemma length_enc_rename [wire]: "wf_rename e \<Longrightarrow> length (enc_rename p e) = 576"
  by (simp add: enc_rename_def wf_rename_def layout)

lemma dec_enc_rename [wire]: "wf_rename e \<Longrightarrow> dec_rename (enc_rename p e) = Some e"
  by (simp add: enc_rename_def dec_rename_def wf_rename_def layout)

lemma length_enc_mmap [wire]: "wf_mmap e \<Longrightarrow> length (enc_mmap p e) = 88"
  by (simp add: enc_mmap_def wf_mmap_def layout)

lemma dec_enc_mmap [wire]: "wf_mmap e \<Longrightarrow> dec_mmap (enc_mmap p e) = Some e"
  by (simp add: enc_mmap_def dec_mmap_def wf_mmap_def layout)

lemma length_enc_munmap [wire]: "wf_munmap e \<Longrightarrow> length (enc_munmap p e) = 80"
  by (simp add: enc_munmap_def wf_munmap_def layout)

lemma dec_enc_munmap [wire]: "wf_munmap e \<Longrightarrow> dec_munmap (enc_munmap p e) = Some e"
  by (simp add: enc_munmap_def dec_munmap_def wf_munmap_def layout)

interpretation header_codec: codec 56 enc_header dec_header wf_header
  by unfold_locales simp_all

interpretation net_codec: codec 112 enc_net dec_net wf_net
  by unfold_locales (simp_all add: wire)

interpretation start_codec: codec 312 enc_start dec_start wf_start
  by unfold_locales (simp_all add: wire)

interpretation exit_codec: codec 64 enc_exit dec_exit wf_exit
  by unfold_locales (simp_all add: wire)

interpretation open_codec: codec 336 enc_open dec_open wf_open
  by unfold_locales (simp_all add: wire)

interpretation close_codec: codec 336 enc_close dec_close wf_close
  by unfold_locales (simp_all add: wire)

interpretation fork_codec: codec 80 enc_fork dec_fork wf_fork
  by unfold_locales (simp_all add: wire)

interpretation read_codec: codec 344 enc_read dec_read wf_read
  by unfold_locales (simp_all add: wire)

interpretation write_codec: codec 344 enc_write dec_write wf_write
  by unfold_locales (simp_all add: wire)

interpretation delete_codec: codec 320 enc_delete dec_delete wf_delete
  by unfold_locales (simp_all add: wire)

interpretation rtr_codec: codec 64 enc_rtr dec_rtr wf_rtr
  by unfold_locales (simp_all add: wire)

interpretation rename_codec: codec 576 enc_rename dec_rename wf_rename
  by unfold_locales (simp_all add: wire)

interpretation mmap_codec: codec 88 enc_mmap dec_mmap wf_mmap
  by unfold_locales (simp_all add: wire)

interpretation munmap_codec: codec 80 enc_munmap dec_munmap wf_munmap
  by unfold_locales (simp_all add: wire)

lemma length_enc_raw: "wf_raw r \<Longrightarrow> length (enc_raw p r) = raw_size r"
  by (cases r) (simp_all add: wire)

text \<open>Every structure starts with the bytes of its header.\<close>

lemma enc_raw_header: "wf_raw r \<Longrightarrow> take 56 (enc_raw p r) = enc_header p (raw_header r)"
  by (cases r) (simp_all add: enc_net_def wf_net_def
      enc_start_def wf_start_def
      enc_exit_def wf_exit_def
      enc_open_def wf_open_def
      enc_close_def wf_close_def
      enc_fork_def wf_fork_def
      enc_read_def wf_read_def
      enc_write_def wf_write_def
      enc_delete_def wf_delete_def
      enc_rtr_def wf_rtr_def
      enc_rename_def wf_rename_def
      enc_mmap_def wf_mmap_def
      enc_munmap_def wf_munmap_def layout)

lemma raw_size_ge_56: "56 \<le> raw_size r"
  by (cases r) simp_all


lemma wf_raw_header: "wf_raw e \<Longrightarrow> wf_header (raw_header e)"
  by (cases e) (auto simp: wf_net_def wf_start_def wf_exit_def wf_open_def wf_close_def wf_fork_def
      wf_read_def wf_write_def wf_delete_def wf_rtr_def wf_rename_def wf_mmap_def wf_munmap_def)

lemma same_header:
  assumes "wf_raw e" "wf_raw e'" "enc_raw p e = enc_raw q e'"
  shows "raw_header e = raw_header e'"
proof -
  have "enc_header p (raw_header e) = enc_header q (raw_header e')"
    using assms by (metis enc_raw_header)
  then show ?thesis
    using header_codec.enc_inj wf_raw_header assms(1,2) by blast
qed

lemmas codec_inj = net_codec.enc_inj start_codec.enc_inj exit_codec.enc_inj open_codec.enc_inj
  close_codec.enc_inj fork_codec.enc_inj read_codec.enc_inj write_codec.enc_inj delete_codec.enc_inj
  rtr_codec.enc_inj rename_codec.enc_inj mmap_codec.enc_inj munmap_codec.enc_inj

section \<open>Properties\<close>

definition exit_example :: "i32 \<Rightarrow> RawProcessExitEvent" where
  "exit_example code = \<lparr>rx_header = \<lparr>rh_event_type = ProcessExit, rh_timestamp_ns = 1, rh_pid = 2, rh_tid = 3,
     rh_ppid = 1, rh_uid = 0, rh_gid = 0, rh_comm = replicate 16 65\<rparr>, rx_exit_code = code\<rparr>"

text \<open>
  C33: the bytes in the ring are unambiguous: two well-formed, correctly tagged structures with the
  same memory image are the same structure with the same field values, whatever their padding
  holds.
\<close>

theorem wire_format_unambiguous:
  assumes "wf_raw e" "tag_ok e" "wf_raw e'" "tag_ok e'" "enc_raw p e = enc_raw q e'"
  shows "e = e'"
proof -
  have h: "rh_event_type (raw_header e) = rh_event_type (raw_header e')"
    using same_header [OF assms(1,3,5)] by simp
  show ?thesis
  proof (cases e)
    case (RE_net c)
    with h assms(2,4) obtain c' where "e' = RE_net c'" by (cases e') auto
    with RE_net assms show ?thesis by (auto dest: net_codec.enc_inj)
  qed (insert h assms, (cases e', auto dest: codec_inj)+)
qed

theorem wire_format_unambiguous_witness:
  "let p = (\<lambda>_. 0); q = (\<lambda>i. if i < 64 then 0 else 7); e = RE_exit (exit_example (255 + 1)); e' = RE_exit (exit_example 256)
   in p 64 \<noteq> q 64 \<and> wf_raw e \<and> tag_ok e \<and> wf_raw e' \<and> tag_ok e' \<and> enc_raw p e = enc_raw q e' \<and> e = e' \<and>
     (\<forall>r. enc_raw r (RE_exit (exit_example 255)) \<noteq> enc_raw p e') \<and>
     (\<forall>r. enc_raw r (RE_rtr \<lparr>rt_header = (rx_header (exit_example 256))\<lparr>rh_event_type := PendingFileRename\<rparr>,
         rt_retval = 256\<rparr>) \<noteq> enc_raw p e')"
proof -
  let ?q = "\<lambda>i :: nat. if i < 64 then 0 else 7 :: u8"
  have ok: "wf_raw (RE_exit (exit_example c))" "tag_ok (RE_exit (exit_example c))"
    "wf_raw (RE_rtr \<lparr>rt_header = (rx_header (exit_example 256))\<lparr>rh_event_type := PendingFileRename\<rparr>, rt_retval = 256\<rparr>)"
    "tag_ok (RE_rtr \<lparr>rt_header = (rx_header (exit_example 256))\<lparr>rh_event_type := PendingFileRename\<rparr>, rt_retval = 256\<rparr>)" for c
    by (simp_all add: exit_example_def wf_exit_def wf_rtr_def wf_header_def)
  have same: "enc_raw (\<lambda>_. 0) (RE_exit (exit_example (255 + 1))) = enc_raw ?q (RE_exit (exit_example 256))"
    by (simp add: exit_example_def enc_exit_def enc_header_def repr_C_def align_up_def Let_def upt_rec)
  note eq = wire_format_unambiguous [OF ok(1,2) ok(1,2) same]
  have "enc_raw r (RE_exit (exit_example 255)) \<noteq> enc_raw (\<lambda>_. 0) (RE_exit (exit_example 256))" for r
    using wire_format_unambiguous [OF ok(1,2) ok(1,2), of r 255 "\<lambda>_. 0" 256] by (auto simp: exit_example_def)
  moreover have "enc_raw r (RE_rtr \<lparr>rt_header = (rx_header (exit_example 256))\<lparr>rh_event_type := PendingFileRename\<rparr>,
      rt_retval = 256\<rparr>) \<noteq> enc_raw (\<lambda>_. 0) (RE_exit (exit_example 256))" for r
    using wire_format_unambiguous [OF ok(3,4) ok(1,2), of r "\<lambda>_. 0" 256] by auto
  ultimately show ?thesis
    using eq same ok by (simp add: Let_def del: enc_raw.simps wf_raw.simps tag_ok.simps)
qed

text \<open>
  \<open>EventType::try_from\<close> inverts the discriminants of the enumeration for the first four types
  only; the bytes of the other types are refused or read as another type.
\<close>

theorem event_type_try_from_partial:
  "event_type_try_from (event_type_disc t) = Inr t \<longleftrightarrow> t \<in> {Connect, Accept, Close, ProcessStart}"
  by (cases t) (simp_all add: event_type_try_from_def)

end
