(* ===== verification/Bpfx_Common.thy ===== *)
theory Bpfx_Common
  imports Bpfx_Std Bpfx_Raw
begin

text \<open>
  \<open>src/common.rs\<close> and \<open>src/error.rs\<close>: the header every user-space event carries, the library's
  error type, and the ways a call can end. The errors of \<open>aya\<close> and of the operating system are
  opaque: they are the type parameter \<open>'x\<close>. A call that Rust leaves undefined or that panics is a
  value of \<open>fault\<close>, like an error. The locale \<open>event_family\<close> is what the four event enumerations
  share: a header, and accessors that go through it.
\<close>

section \<open>Errors\<close>

datatype 'x Error = Btf 'x | Load 'x | Attach 'x | Io 'x | MapError 'x | Unsupported | InvalidFilter
  | ProgramAccess | NoActiveSubscriptions | FilterMapAccess | ConfigMapAccess | EventsMapAccess

datatype 'x fault = UndefinedBehaviour | Panic | Err "'x Error"

section \<open>Event headers\<close>

record ProcessId =
  pi_pid :: u32
  pi_tid :: u32

record EventHeader =
  eh_timestamp_ns :: u64
  eh_pid :: u32
  eh_tid :: u32
  eh_ppid :: u32
  eh_uid :: u32
  eh_gid :: u32
  eh_comm :: string

definition fmt_EventHeader :: "EventHeader \<Rightarrow> string" where
  "fmt_EventHeader h =
     show_u (eh_timestamp_ns h) @ '' pid='' @ show_u (eh_pid h) @ '' tid='' @ show_u (eh_tid h) @
     '' ppid='' @ show_u (eh_ppid h) @ '' uid='' @ show_u (eh_uid h) @ '' gid='' @
     show_u (eh_gid h) @ '' comm='' @ eh_comm h"

definition header_process :: "EventHeader \<Rightarrow> ProcessId" where
  "header_process h = \<lparr>pi_pid = eh_pid h, pi_tid = eh_tid h\<rparr>"

definition header_is_kernel_thread :: "EventHeader \<Rightarrow> bool" where
  "header_is_kernel_thread h = (eh_pid h = 0)"

definition header_timestamp :: "EventHeader \<Rightarrow> Duration" where
  "header_timestamp h = duration_from_nanos (eh_timestamp_ns h)"

section \<open>What the event enumerations share\<close>

locale event_family =
  fixes hdr :: "'e \<Rightarrow> EventHeader"
    and process :: "'e \<Rightarrow> ProcessId"
    and timestamp :: "'e \<Rightarrow> Duration"
    and is_kernel_thread :: "'e \<Rightarrow> bool"
  assumes process_hdr: "process e = header_process (hdr e)"
    and timestamp_hdr: "timestamp e = header_timestamp (hdr e)"
    and kernel_hdr: "is_kernel_thread e = header_is_kernel_thread (hdr e)"
begin

lemma kernel_thread_iff_pid: "is_kernel_thread e \<longleftrightarrow> pi_pid (process e) = 0"
  by (simp add: kernel_hdr process_hdr header_is_kernel_thread_def header_process_def)

lemma timestamp_exact:
  "unat (dur_secs (timestamp e)) * 1000000000 + unat (dur_nanos (timestamp e))
     = unat (eh_timestamp_ns (hdr e))"
  "unat (dur_nanos (timestamp e)) < 1000000000"
proof -
  let ?n = "eh_timestamp_ns (hdr e)"
  have lt: "unat ?n mod 1000000000 < 1000000000" by simp
  have "unat ?n mod 1000000000 < 2 ^ 32"
    by (rule order_less_trans [OF lt]) simp
  then have nanos: "unat (dur_nanos (timestamp e)) = unat ?n mod 1000000000"
    by (simp add: timestamp_hdr header_timestamp_def duration_from_nanos_def unsigned_ucast_eq
        unat_mod_distrib take_bit_nat_eq_self)
  show "unat (dur_nanos (timestamp e)) < 1000000000"
    unfolding nanos by (rule lt)
  show "unat (dur_secs (timestamp e)) * 1000000000 + unat (dur_nanos (timestamp e)) = unat ?n"
    unfolding nanos
    by (simp add: timestamp_hdr header_timestamp_def duration_from_nanos_def unat_div_distrib)
qed

end

end
