(* ===== verification/Bpfx_Mask.thy ===== *)
theory Bpfx_Mask
  imports Bpfx_Prelude
begin

text \<open>
  The contract of the bit masks \<open>FileMask\<close>, \<open>ProtocolMask\<close>, \<open>NetworkMask\<close>, \<open>ProcessMask\<close> and
  \<open>MemoryMask\<close>: newtypes over \<open>u8\<close> with \<open>contains\<close> and \<open>BitOr\<close>. Each mask interprets it in the
  theory of its module. \<open>contains\<close> is the inclusion of bit sets, so it is a partial order in which
  \<open>|\<close> is the least upper bound; an atom (a mask of one bit) is in a union exactly when it is in
  one of its parts.
\<close>

lemma and_eq_iff_bits:
  "(a AND b :: 'a::len word) = b \<longleftrightarrow> (\<forall>i. bit b i \<longrightarrow> bit a i)"
proof
  assume "a AND b = b"
  then show "\<forall>i. bit b i \<longrightarrow> bit a i" by (metis bit_and_iff)
next
  assume "\<forall>i. bit b i \<longrightarrow> bit a i"
  then show "a AND b = b" by (auto simp: bit_eq_iff bit_and_iff)
qed

text \<open>
  The field of a mask is private: outside its module a mask is one of the constants or is made from
  masks by \<open>|\<close> (\<open>|=\<close> stores the same union). \<open>built\<close> is the set of these values. With the feature
  \<open>serde\<close> or \<open>archive\<close> the masks of networks, protocols, processes and memory can also be read back
  from a serialised form; values that come from there are not among these.
\<close>

inductive built :: "('m \<Rightarrow> 'm \<Rightarrow> 'm) \<Rightarrow> 'm set \<Rightarrow> 'm \<Rightarrow> bool" 
  for bitor :: "'m \<Rightarrow> 'm \<Rightarrow> 'm" and cs :: "'m set" where
  built_const: "c \<in> cs \<Longrightarrow> built bitor cs c"
| built_or: "built bitor cs a \<Longrightarrow> built bitor cs b \<Longrightarrow> built bitor cs (bitor a b)"

lemma take_bit_Suc_or:
  "take_bit (Suc n) (w :: 'a::len word) = (if bit w n then 2 ^ n OR take_bit n w else take_bit n w)"
  by (rule bit_word_eqI) (auto simp: bit_take_bit_iff bit_or_iff bit_exp_iff less_Suc_eq)

locale bitmask =
  fixes bits :: "'m \<Rightarrow> u8"
    and mk :: "u8 \<Rightarrow> 'm"
    and contains :: "'m \<Rightarrow> 'm \<Rightarrow> bool"
    and bitor :: "'m \<Rightarrow> 'm \<Rightarrow> 'm"
  assumes bits_mk: "bits (mk w) = w"
    and mk_bits: "mk (bits m) = m"
    and contains_bits: "contains a b \<longleftrightarrow> bits a AND bits b = bits b"
    and bitor_bits: "bits (bitor a b) = bits a OR bits b"
begin

lemma contains_iff: "contains a b \<longleftrightarrow> (\<forall>i. bit (bits b) i \<longrightarrow> bit (bits a) i)"
  by (simp add: contains_bits and_eq_iff_bits)

lemma mask_eqI: "bits a = bits b \<Longrightarrow> a = b"
  by (metis mk_bits)

lemma contains_refl: "contains a a"
  by (simp add: contains_iff)

lemma contains_trans: "contains a b \<Longrightarrow> contains b c \<Longrightarrow> contains a c"
  by (simp add: contains_iff)

lemma contains_antisym: "contains a b \<Longrightarrow> contains b a \<Longrightarrow> a = b"
  by (rule mask_eqI, rule bit_word_eqI) (auto simp: contains_iff)

lemma bitor_upper: "contains (bitor a b) a" "contains (bitor a b) b"
  by (simp_all add: contains_iff bitor_bits bit_or_iff)

lemma bitor_least: "contains c (bitor a b) \<longleftrightarrow> contains c a \<and> contains c b"
  by (auto simp: contains_iff bitor_bits bit_or_iff)

lemma bitor_assoc: "bitor (bitor a b) c = bitor a (bitor b c)"
  by (rule mask_eqI) (simp add: bitor_bits or.assoc)

lemma bitor_commute: "bitor a b = bitor b a"
  by (rule mask_eqI) (simp add: bitor_bits or.commute)

lemma bitor_idem: "bitor a a = a"
  by (rule mask_eqI) (simp add: bitor_bits)

lemma contains_atom:
  assumes "bits c = 2 ^ n" and "n < 8"
  shows "contains a c \<longleftrightarrow> bit (bits a) n"
  using assms by (auto simp: contains_iff bit_exp_iff)

lemma built_within:
  assumes "built bitor cs m" and "\<And>c. c \<in> cs \<Longrightarrow> bits c \<noteq> 0 \<and> take_bit n (bits c) = bits c"
  shows "bits m \<noteq> 0 \<and> take_bit n (bits m) = bits m"
  using assms by (induction rule: built.induct) (auto simp: bitor_bits take_bit_or or_eq_0_iff)

lemma built_all:
  assumes atoms: "\<And>i. i < n \<Longrightarrow> mk (2 ^ i) \<in> cs" and "take_bit n w \<noteq> 0"
  shows "built bitor cs (mk (take_bit n w))"
  using assms
proof (induction n)
  case (Suc n)
  have one: "built bitor cs (mk (2 ^ n))" using Suc.prems(1) by (simp add: built_const)
  have ih: "take_bit n w \<noteq> 0 \<Longrightarrow> built bitor cs (mk (take_bit n w))" using Suc by simp
  show ?case
  proof (cases "bit w n \<and> take_bit n w \<noteq> 0")
    case True
    then have "mk (take_bit (Suc n) w) = bitor (mk (2 ^ n)) (mk (take_bit n w))"
      by (intro mask_eqI) (simp add: bitor_bits bits_mk take_bit_Suc_or)
    with one ih True show ?thesis by (simp add: built_or)
  next
    case False
    with one ih Suc.prems(2) show ?thesis by (auto simp: take_bit_Suc_or split: if_splits)
  qed
qed simp

text \<open>With the constants of the first \<open>n\<close> bits, the masks are the non-empty sets of these bits.\<close>

lemma built_iff:
  assumes "\<And>i. i < n \<Longrightarrow> mk (2 ^ i) \<in> cs"
    and "\<And>c. c \<in> cs \<Longrightarrow> bits c \<noteq> 0 \<and> take_bit n (bits c) = bits c"
  shows "built bitor cs m \<longleftrightarrow> bits m \<noteq> 0 \<and> take_bit n (bits m) = bits m"
  using built_within [OF _ assms(2)] built_all [OF assms(1), where w = "bits m"] mk_bits by metis

lemma bitor_atom:
  assumes "bits c = 2 ^ n" and "n < 8"
  shows "contains (bitor a b) c \<longleftrightarrow> contains a c \<or> contains b c"
  using contains_atom [OF assms] by (simp add: bitor_bits bit_or_iff)

end

end
