(* ===== verification/Bpfx_File.thy ===== *)
theory Bpfx_File
  imports Bpfx_Common Bpfx_Mask
begin

text \<open>
  \<open>src/file.rs\<close>: file types and their mode bits, the file events with their accessors, formats and
  deduplication keys, the open-flag queries of the trait \<open>FileInfo\<close>, and the masks and filters of a
  file subscription. The subscription itself is in \<open>Bpfx_Attach\<close>, the conversion of raw events in
  \<open>Bpfx_Convert\<close>. A method of the trait takes the event's raw flags as its argument.
\<close>

section \<open>Open flags: the trait FileInfo\<close>

definition is_read :: "u32 \<Rightarrow> bool" where
  "is_read flags = (flags AND O_ACCMODE = O_RDONLY \<or> flags AND O_ACCMODE = O_RDWR)"

definition is_write :: "u32 \<Rightarrow> bool" where
  "is_write flags = (flags AND O_ACCMODE = O_WRONLY \<or> flags AND O_ACCMODE = O_RDWR)"

definition has_flag :: "u32 \<Rightarrow> u32 \<Rightarrow> bool" where
  "has_flag flags flag = (flags AND flag \<noteq> 0)"

definition push_flags :: "(u32 \<times> string) list" where
  "push_flags =
     [(O_APPEND, ''APPEND''), (O_ASYNC, ''ASYNC''), (O_CLOEXEC, ''CLOEXEC''), (O_CREAT, ''CREAT''),
      (O_DIRECT, ''DIRECT''), (O_DIRECTORY, ''DIRECTORY''), (O_DSYNC, ''DSYNC''), (O_EXCL, ''EXCL''),
      (O_NOATIME, ''NOATIME''), (O_NOCTTY, ''NOCTTY''), (O_NOFOLLOW, ''NOFOLLOW''),
      (O_NONBLOCK, ''NONBLOCK''), (O_PATH, ''PATH''), (O_SYNC, ''SYNC''), (O_TRUNC, ''TRUNC'')]"

text \<open>The vector \<open>out\<close> of \<open>flags()\<close>, in the order in which it is filled.\<close>

definition flag_tokens :: "u32 \<Rightarrow> string list" where
  "flag_tokens flags =
     (if flags AND O_ACCMODE = O_RDONLY then [''RDONLY'']
      else if flags AND O_ACCMODE = O_WRONLY then [''WRONLY'']
      else if flags AND O_ACCMODE = O_RDWR then [''RDWR'']
      else []) @
     map snd (filter (\<lambda>(f, _). flags AND f \<noteq> 0) push_flags) @
     (if flags AND O_TMPFILE = O_TMPFILE then [''TMPFILE''] else [])"

definition flags_string :: "u32 \<Rightarrow> string" where
  "flags_string flags = join_str ''|'' (flag_tokens flags)"

section \<open>File types\<close>

datatype FileType = Regular | Directory | CharDevice | BlockDevice | Fifo | Symlink | Socket | Unknown

definition file_type_from :: "FileModeFilter \<Rightarrow> FileType" where
  "file_type_from m =
     (if mode m = FILE_REG then Regular
      else if mode m = FILE_DIR then Directory
      else if mode m = FILE_CHR then CharDevice
      else if mode m = FILE_BLK then BlockDevice
      else if mode m = FILE_FIFO then Fifo
      else if mode m = FILE_LNK then Symlink
      else if mode m = FILE_SOCK then Socket
      else Unknown)"

fun mode_bits :: "FileType \<Rightarrow> u32" where
  "mode_bits Regular = 0x8000"
| "mode_bits Directory = 0x4000"
| "mode_bits CharDevice = 0x2000"
| "mode_bits BlockDevice = 0x6000"
| "mode_bits Fifo = 0x1000"
| "mode_bits Symlink = 0xA000"
| "mode_bits Socket = 0xC000"
| "mode_bits Unknown = 0"

definition u32_from_file_type :: "FileType \<Rightarrow> u32" where
  "u32_from_file_type t = mode_bits t"

section \<open>Events\<close>

record FileOpenEvent =
  fo_header :: EventHeader
  fo_file_path :: string
  fo_file_type :: FileType
  fo_inode :: u64
  fo_retval :: i32
  fo_flags :: u32

record FileCloseEvent =
  fc_header :: EventHeader
  fc_file_path :: string
  fc_file_type :: FileType
  fc_inode :: u64
  fc_retval :: i32
  fc_flags :: u32

record FileReadEvent =
  fr_header :: EventHeader
  fr_file_path :: string
  fr_file_type :: FileType
  fr_inode :: u64
  fr_retval :: isize
  fr_flags :: u32

record FileWriteEvent =
  fw_header :: EventHeader
  fw_file_path :: string
  fw_file_type :: FileType
  fw_inode :: u64
  fw_retval :: isize
  fw_flags :: u32

record FileDeleteEvent =
  fd_header :: EventHeader
  fd_filename :: string
  fd_file_type :: FileType
  fd_retval :: i32

record FileRenameEvent =
  fn_header :: EventHeader
  fn_old_filename :: string
  fn_new_filename :: string
  fn_file_type :: FileType
  fn_flags :: u32
  fn_retval :: i32

datatype FileEvent = FileEvent_Open FileOpenEvent | FileEvent_Read FileReadEvent
  | FileEvent_Close FileCloseEvent | FileEvent_Write FileWriteEvent
  | FileEvent_Delete FileDeleteEvent | FileEvent_Rename FileRenameEvent

definition fmt_FileOpenEvent :: "FileOpenEvent \<Rightarrow> string" where
  "fmt_FileOpenEvent e =
     fmt_EventHeader (fo_header e) @ '' OPEN '' @ fo_file_path e @ '' -> '' @ show_i (fo_retval e)"

definition fmt_FileCloseEvent :: "FileCloseEvent \<Rightarrow> string" where
  "fmt_FileCloseEvent e =
     fmt_EventHeader (fc_header e) @ '' CLOSE '' @ fc_file_path e @ '' ('' @ show_i (fc_retval e) @ '')''"

definition fmt_FileReadEvent :: "FileReadEvent \<Rightarrow> string" where
  "fmt_FileReadEvent e =
     fmt_EventHeader (fr_header e) @ '' READ '' @ fr_file_path e @ '' ('' @ show_i (fr_retval e) @ '')''"

definition fmt_FileWriteEvent :: "FileWriteEvent \<Rightarrow> string" where
  "fmt_FileWriteEvent e =
     fmt_EventHeader (fw_header e) @ '' WRITE '' @ fw_file_path e @ '' ('' @ show_i (fw_retval e) @ '')''"

definition fmt_FileDeleteEvent :: "FileDeleteEvent \<Rightarrow> string" where
  "fmt_FileDeleteEvent e =
     fmt_EventHeader (fd_header e) @ '' DELETE '' @ fd_filename e @ '' ('' @ show_i (fd_retval e) @ '')''"

definition fmt_FileRenameEvent :: "FileRenameEvent \<Rightarrow> string" where
  "fmt_FileRenameEvent e =
     fmt_EventHeader (fn_header e) @ '' RENAME ('' @ fn_old_filename e @ '') => ('' @
     fn_new_filename e @ '') ('' @ show_i (fn_retval e) @ '')''"

text \<open>
  \<open>file_name()\<close> and \<open>file_path()\<close> of the four events that have a path: the path's last component,
  or nothing, and the path. The implementations of \<open>FileInfo\<close> give the flags of an event.
\<close>

definition event_file_name :: "string \<Rightarrow> string" where
  "event_file_name path = (case path_file_name path of None \<Rightarrow> '''' | Some n \<Rightarrow> n)"

definition FileOpenEvent_file_name :: "FileOpenEvent \<Rightarrow> string" where
  "FileOpenEvent_file_name e = event_file_name (fo_file_path e)"

definition FileOpenEvent_file_path :: "FileOpenEvent \<Rightarrow> string" where
  "FileOpenEvent_file_path e = fo_file_path e"

definition FileCloseEvent_file_name :: "FileCloseEvent \<Rightarrow> string" where
  "FileCloseEvent_file_name e = event_file_name (fc_file_path e)"

definition FileCloseEvent_file_path :: "FileCloseEvent \<Rightarrow> string" where
  "FileCloseEvent_file_path e = fc_file_path e"

definition FileReadEvent_file_name :: "FileReadEvent \<Rightarrow> string" where
  "FileReadEvent_file_name e = event_file_name (fr_file_path e)"

definition FileReadEvent_file_path :: "FileReadEvent \<Rightarrow> string" where
  "FileReadEvent_file_path e = fr_file_path e"

definition FileWriteEvent_file_name :: "FileWriteEvent \<Rightarrow> string" where
  "FileWriteEvent_file_name e = event_file_name (fw_file_path e)"

definition FileWriteEvent_file_path :: "FileWriteEvent \<Rightarrow> string" where
  "FileWriteEvent_file_path e = fw_file_path e"

definition FileOpenEvent_flags_raw :: "FileOpenEvent \<Rightarrow> u32" where
  "FileOpenEvent_flags_raw e = fo_flags e"

definition FileCloseEvent_flags_raw :: "FileCloseEvent \<Rightarrow> u32" where
  "FileCloseEvent_flags_raw e = fc_flags e"

definition FileReadEvent_flags_raw :: "FileReadEvent \<Rightarrow> u32" where
  "FileReadEvent_flags_raw e = fr_flags e"

definition FileWriteEvent_flags_raw :: "FileWriteEvent \<Rightarrow> u32" where
  "FileWriteEvent_flags_raw e = fw_flags e"

definition FileRenameEvent_flags_raw :: "FileRenameEvent \<Rightarrow> u32" where
  "FileRenameEvent_flags_raw e = fn_flags e"

datatype FileEventKey = Key_Read u64 isize | Key_Write u64 isize | Key_Open u64 u32
  | Key_Close u64 i32 | Key_Rename i32 | Key_Delete i32

fun dedup_key :: "FileEvent \<Rightarrow> FileEventKey" where
  "dedup_key (FileEvent_Read e) = Key_Read (fr_inode e) (fr_retval e)"
| "dedup_key (FileEvent_Open e) = Key_Open (fo_inode e) (fo_flags e)"
| "dedup_key (FileEvent_Write e) = Key_Write (fw_inode e) (fw_retval e)"
| "dedup_key (FileEvent_Close e) = Key_Close (fc_inode e) (fc_retval e)"
| "dedup_key (FileEvent_Rename e) = Key_Rename (fn_retval e)"
| "dedup_key (FileEvent_Delete e) = Key_Delete (fd_retval e)"

section \<open>Masks\<close>

datatype FileMask = FileMask (fm_bits: u8)

definition FileMask_OPEN :: FileMask where "FileMask_OPEN = FileMask 1"
definition FileMask_CLOSE :: FileMask where "FileMask_CLOSE = FileMask 2"
definition FileMask_READ :: FileMask where "FileMask_READ = FileMask 4"
definition FileMask_WRITE :: FileMask where "FileMask_WRITE = FileMask 8"
definition FileMask_DELETE :: FileMask where "FileMask_DELETE = FileMask 16"
definition FileMask_RENAME :: FileMask where "FileMask_RENAME = FileMask 32"

definition FileMask_ALL :: FileMask where
  "FileMask_ALL = FileMask (fm_bits FileMask_OPEN OR fm_bits FileMask_CLOSE OR fm_bits FileMask_READ
     OR fm_bits FileMask_WRITE OR fm_bits FileMask_DELETE OR fm_bits FileMask_RENAME)"

definition FileMask_contains :: "FileMask \<Rightarrow> FileMask \<Rightarrow> bool" where
  "FileMask_contains m other = (fm_bits m AND fm_bits other = fm_bits other)"

definition FileMask_bitor :: "FileMask \<Rightarrow> FileMask \<Rightarrow> FileMask" where
  "FileMask_bitor m rhs = FileMask (fm_bits m OR fm_bits rhs)"

definition FileMask_bitor_assign :: "FileMask \<Rightarrow> FileMask \<Rightarrow> FileMask" where
  "FileMask_bitor_assign m rhs = FileMask (fm_bits m OR fm_bits rhs)"

definition fmt_FileMask :: "FileMask \<Rightarrow> string" where
  "fmt_FileMask m =
     (if m = FileMask_OPEN then ''OPEN''
      else if m = FileMask_READ then ''READ''
      else if m = FileMask_WRITE then ''WRITE''
      else if m = FileMask_RENAME then ''RENAME''
      else if m = FileMask_CLOSE then ''CLOSE''
      else if m = FileMask_DELETE then ''DELETE''
      else ''FileMask('' @ show_u (fm_bits m) @ '')'')"

lemmas FileMask_consts = FileMask_OPEN_def FileMask_CLOSE_def FileMask_READ_def FileMask_WRITE_def
  FileMask_DELETE_def FileMask_RENAME_def

text \<open>The derived \<open>Ord\<close> of \<open>FileMask\<close> compares the bits.\<close>

instantiation FileMask :: linorder
begin

definition less_eq_FileMask :: "FileMask \<Rightarrow> FileMask \<Rightarrow> bool" where
  "less_eq_FileMask a b = (fm_bits a \<le> fm_bits b)"

definition less_FileMask :: "FileMask \<Rightarrow> FileMask \<Rightarrow> bool" where
  "less_FileMask a b = (fm_bits a < fm_bits b)"

instance
  by standard (auto simp: less_eq_FileMask_def less_FileMask_def FileMask.expand)

end

fun file_event_type :: "FileEvent \<Rightarrow> FileMask" where
  "file_event_type (FileEvent_Open _) = FileMask_OPEN"
| "file_event_type (FileEvent_Close _) = FileMask_CLOSE"
| "file_event_type (FileEvent_Read _) = FileMask_READ"
| "file_event_type (FileEvent_Write _) = FileMask_WRITE"
| "file_event_type (FileEvent_Rename _) = FileMask_RENAME"
| "file_event_type (FileEvent_Delete _) = FileMask_DELETE"

section \<open>Accessors of an event\<close>

fun file_header :: "FileEvent \<Rightarrow> EventHeader" where
  "file_header (FileEvent_Open e) = fo_header e"
| "file_header (FileEvent_Read e) = fr_header e"
| "file_header (FileEvent_Close e) = fc_header e"
| "file_header (FileEvent_Write e) = fw_header e"
| "file_header (FileEvent_Delete e) = fd_header e"
| "file_header (FileEvent_Rename e) = fn_header e"

definition file_process :: "FileEvent \<Rightarrow> ProcessId" where
  "file_process e = header_process (file_header e)"

definition file_timestamp :: "FileEvent \<Rightarrow> Duration" where
  "file_timestamp e = header_timestamp (file_header e)"

definition file_is_kernel_thread :: "FileEvent \<Rightarrow> bool" where
  "file_is_kernel_thread e = header_is_kernel_thread (file_header e)"

fun file_file_type :: "FileEvent \<Rightarrow> FileType" where
  "file_file_type (FileEvent_Open e) = fo_file_type e"
| "file_file_type (FileEvent_Read e) = fr_file_type e"
| "file_file_type (FileEvent_Close e) = fc_file_type e"
| "file_file_type (FileEvent_Write e) = fw_file_type e"
| "file_file_type (FileEvent_Delete e) = fd_file_type e"
| "file_file_type (FileEvent_Rename e) = fn_file_type e"

fun file_file_path :: "FileEvent \<Rightarrow> string option" where
  "file_file_path (FileEvent_Open e) = Some (FileOpenEvent_file_path e)"
| "file_file_path (FileEvent_Read e) = Some (FileReadEvent_file_path e)"
| "file_file_path (FileEvent_Close e) = Some (FileCloseEvent_file_path e)"
| "file_file_path (FileEvent_Write e) = Some (FileWriteEvent_file_path e)"
| "file_file_path _ = None"

fun file_file_name :: "FileEvent \<Rightarrow> string option" where
  "file_file_name (FileEvent_Open e) = Some (FileOpenEvent_file_name e)"
| "file_file_name (FileEvent_Read e) = Some (FileReadEvent_file_name e)"
| "file_file_name (FileEvent_Close e) = Some (FileCloseEvent_file_name e)"
| "file_file_name (FileEvent_Write e) = Some (FileWriteEvent_file_name e)"
| "file_file_name _ = None"

fun file_old_filename :: "FileEvent \<Rightarrow> string option" where
  "file_old_filename (FileEvent_Rename e) = Some (fn_old_filename e)"
| "file_old_filename _ = None"

fun file_new_filename :: "FileEvent \<Rightarrow> string option" where
  "file_new_filename (FileEvent_Rename e) = Some (fn_new_filename e)"
| "file_new_filename _ = None"

fun file_retval :: "FileEvent \<Rightarrow> isize" where
  "file_retval (FileEvent_Open e) = scast (fo_retval e)"
| "file_retval (FileEvent_Read e) = fr_retval e"
| "file_retval (FileEvent_Close e) = scast (fc_retval e)"
| "file_retval (FileEvent_Write e) = fw_retval e"
| "file_retval (FileEvent_Delete e) = scast (fd_retval e)"
| "file_retval (FileEvent_Rename e) = scast (fn_retval e)"

definition file_succeeded :: "FileEvent \<Rightarrow> bool" where
  "file_succeeded e = (0 \<le> sint (file_retval e))"

definition file_failed :: "FileEvent \<Rightarrow> bool" where
  "file_failed e = (\<not> file_succeeded e)"

fun file_inode :: "FileEvent \<Rightarrow> u64 option" where
  "file_inode (FileEvent_Open e) = Some (fo_inode e)"
| "file_inode (FileEvent_Read e) = Some (fr_inode e)"
| "file_inode (FileEvent_Close e) = Some (fc_inode e)"
| "file_inode (FileEvent_Write e) = Some (fw_inode e)"
| "file_inode (FileEvent_Delete _) = None"
| "file_inode (FileEvent_Rename _) = None"

section \<open>Filters\<close>

datatype FileTypeFilter = FileTypeFilter (ftf_mode: FileModeFilter)

definition FileTypeFilter_REG :: FileTypeFilter where
  "FileTypeFilter_REG = FileTypeFilter \<lparr>mode = 1\<rparr>"

definition FileTypeFilter_DIR :: FileTypeFilter where
  "FileTypeFilter_DIR = FileTypeFilter \<lparr>mode = 2\<rparr>"

definition FileTypeFilter_CHR :: FileTypeFilter where
  "FileTypeFilter_CHR = FileTypeFilter \<lparr>mode = 4\<rparr>"

definition FileTypeFilter_BLK :: FileTypeFilter where
  "FileTypeFilter_BLK = FileTypeFilter \<lparr>mode = 8\<rparr>"

definition FileTypeFilter_FIFO :: FileTypeFilter where
  "FileTypeFilter_FIFO = FileTypeFilter \<lparr>mode = 16\<rparr>"

definition FileTypeFilter_LNK :: FileTypeFilter where
  "FileTypeFilter_LNK = FileTypeFilter \<lparr>mode = 32\<rparr>"

definition FileTypeFilter_SOCK :: FileTypeFilter where
  "FileTypeFilter_SOCK = FileTypeFilter \<lparr>mode = 64\<rparr>"

definition FileTypeFilter_ALL :: FileTypeFilter where
  "FileTypeFilter_ALL = FileTypeFilter \<lparr>mode =
     mode (ftf_mode FileTypeFilter_REG) OR
     mode (ftf_mode FileTypeFilter_DIR) OR
     mode (ftf_mode FileTypeFilter_CHR) OR
     mode (ftf_mode FileTypeFilter_BLK) OR
     mode (ftf_mode FileTypeFilter_FIFO) OR
     mode (ftf_mode FileTypeFilter_LNK) OR
     mode (ftf_mode FileTypeFilter_SOCK)\<rparr>"

lemmas FileTypeFilter_consts = FileTypeFilter_REG_def FileTypeFilter_DIR_def FileTypeFilter_CHR_def FileTypeFilter_BLK_def FileTypeFilter_FIFO_def FileTypeFilter_LNK_def FileTypeFilter_SOCK_def

definition FileTypeFilter_default :: FileTypeFilter where
  "FileTypeFilter_default = FileTypeFilter_ALL"

definition FileTypeFilter_bitor :: "FileTypeFilter \<Rightarrow> FileTypeFilter \<Rightarrow> FileTypeFilter" where
  "FileTypeFilter_bitor a b = FileTypeFilter \<lparr>mode = mode (ftf_mode a) OR mode (ftf_mode b)\<rparr>"

definition FileTypeFilter_bitor_assign :: "FileTypeFilter \<Rightarrow> FileTypeFilter \<Rightarrow> FileTypeFilter" where
  "FileTypeFilter_bitor_assign m rhs = FileTypeFilter \<lparr>mode = mode (ftf_mode m) OR mode (ftf_mode rhs)\<rparr>"

definition file_mode_from_type_filter :: "FileTypeFilter \<Rightarrow> FileModeFilter" where
  "file_mode_from_type_filter v = ftf_mode v"

record FileFilter =
  ff_event_type :: FileMask
  ff_file_mode :: FileTypeFilter
  ff_filter :: FilterKey

definition FileFilter_default :: FileFilter where
  "FileFilter_default = \<lparr>ff_event_type = FileMask_ALL, ff_file_mode = FileTypeFilter_default,
     ff_filter = FilterNone\<rparr>"

definition FileFilter_of_mask :: "FileMask \<Rightarrow> FileFilter" where
  "FileFilter_of_mask m = \<lparr>ff_event_type = m, ff_file_mode = FileTypeFilter_ALL,
     ff_filter = FilterNone\<rparr>"

definition FileFilter_OPEN :: FileFilter where "FileFilter_OPEN = FileFilter_of_mask FileMask_OPEN"
definition FileFilter_CLOSE :: FileFilter where "FileFilter_CLOSE = FileFilter_of_mask FileMask_CLOSE"
definition FileFilter_READ :: FileFilter where "FileFilter_READ = FileFilter_of_mask FileMask_READ"
definition FileFilter_WRITE :: FileFilter where "FileFilter_WRITE = FileFilter_of_mask FileMask_WRITE"
definition FileFilter_DELETE :: FileFilter where "FileFilter_DELETE = FileFilter_of_mask FileMask_DELETE"
definition FileFilter_RENAME :: FileFilter where "FileFilter_RENAME = FileFilter_of_mask FileMask_RENAME"
definition FileFilter_ALL :: FileFilter where "FileFilter_ALL = FileFilter_of_mask FileMask_ALL"

definition FileFilter_bitor :: "FileFilter \<Rightarrow> FileFilter \<Rightarrow> FileFilter" where
  "FileFilter_bitor a rhs =
     \<lparr>ff_event_type = FileMask_bitor (ff_event_type a) (ff_event_type rhs),
      ff_file_mode = ff_file_mode a, ff_filter = ff_filter a\<rparr>"

section \<open>Interpretations\<close>

interpretation file_mask: bitmask fm_bits FileMask FileMask_contains FileMask_bitor
  by unfold_locales (simp_all add: FileMask_contains_def FileMask_bitor_def)

interpretation file_family: event_family file_header file_process file_timestamp
    file_is_kernel_thread
  by unfold_locales (simp_all add: file_process_def file_timestamp_def file_is_kernel_thread_def)

section \<open>Lemmas\<close>

lemma sint_scast_i32_isize [simp]: "sint (scast (x :: i32) :: isize) = sint x"
  using sint_greater_eq [of x] sint_less [of x]
  by (simp add: signed_scast_eq signed_take_bit_int_eq_self)

lemma snd_mem_filter: "y \<in> snd ` set (filter P xs) \<longleftrightarrow> (\<exists>x. (x, y) \<in> set xs \<and> P (x, y))"
  by force

lemma and_or_0: "(a AND (b OR c) :: 'a::len word) = 0 \<longleftrightarrow> a AND b = 0 \<and> a AND c = 0"
  by (auto simp: bit_eq_iff bit_and_iff bit_or_iff)

lemma push_flags_distinct: "distinct (map snd push_flags)"
  by (simp add: push_flags_def)

lemma flag_tokens_pushed:
  assumes "(f, n) \<in> set push_flags"
  shows "n \<in> set (flag_tokens flags) \<longleftrightarrow> flags AND f \<noteq> 0"
proof -
  have n: "n \<noteq> ''RDONLY''" "n \<noteq> ''WRONLY''" "n \<noteq> ''RDWR''" "n \<noteq> ''TMPFILE''"
    using assms by (auto simp: push_flags_def)
  have uniq: "g = f" if "(g, n) \<in> set push_flags" for g
    using assms that push_flags_distinct
    by (metis distinct_map inj_onD prod.inject snd_conv)
  have "n \<in> snd ` set (filter (\<lambda>(f, _). flags AND f \<noteq> 0) push_flags) \<longleftrightarrow>
      (\<exists>g. (g, n) \<in> set push_flags \<and> flags AND g \<noteq> 0)"
    unfolding snd_mem_filter by (simp only: prod.case)
  also have "\<dots> \<longleftrightarrow> flags AND f \<noteq> 0"
    by (rule iffI) (use assms uniq in blast)+
  finally have "n \<in> snd ` set (filter (\<lambda>(f, _). flags AND f \<noteq> 0) push_flags) \<longleftrightarrow> flags AND f \<noteq> 0" .
  then show ?thesis
    using n unfolding flag_tokens_def by (simp del: set_filter)
qed

text \<open>
  In the string of a file's open flags, the name of each of the fifteen status flags is present
  exactly when the flags have a bit of that flag's constant.
\<close>

theorem flag_tokens_iff:
  assumes "(f, n) \<in> set push_flags"
  shows "n \<in> set (flag_tokens flags) \<longleftrightarrow> has_flag flags f"
  using assms by (simp add: flag_tokens_pushed has_flag_def)

theorem flag_tokens_iff_witness:
  "(O_APPEND, ''APPEND'') \<in> set push_flags \<and> ''APPEND'' \<in> set (flag_tokens 0x80401)"
proof -
  have m: "(O_APPEND, ''APPEND'') \<in> set push_flags" by (simp add: push_flags_def)
  show ?thesis using m flag_tokens_iff [OF m, of "0x80401"] by (simp add: has_flag_def O_APPEND_def)
qed

text \<open>
  A file opened with \<open>O_DSYNC\<close> is always reported with \<open>SYNC\<close> as well: \<open>O_SYNC\<close> has the
  \<open>O_DSYNC\<close> bit and \<open>push_flag!\<close> tests for a common bit, so the stronger \<open>O_SYNC\<close> cannot be told
  from \<open>O_DSYNC\<close> in the string.
\<close>

theorem dsync_reported_as_sync:
  assumes "has_flag flags O_DSYNC"
  shows "''DSYNC'' \<in> set (flag_tokens flags) \<and> ''SYNC'' \<in> set (flag_tokens flags)"
proof -
  have mem: "(O_DSYNC, ''DSYNC'') \<in> set push_flags" "(O_SYNC, ''SYNC'') \<in> set push_flags"
    by (simp_all add: push_flags_def)
  have sync: "O_SYNC = O_DSYNC OR 0x100000" by (simp add: open_flag_defs)
  have "flags AND O_SYNC \<noteq> 0"
    using assms unfolding sync has_flag_def by (simp add: and_or_0)
  with assms mem show ?thesis by (simp add: flag_tokens_pushed has_flag_def)
qed

theorem dsync_reported_as_sync_witness:
  "has_flag 0x1001 O_DSYNC \<and> ''SYNC'' \<in> set (flag_tokens 0x1001)"
proof -
  have h: "has_flag 0x1001 O_DSYNC" by (simp add: has_flag_def O_DSYNC_def)
  show ?thesis using h dsync_reported_as_sync [OF h] by simp
qed

lemma accmode_cases: "(flags AND 3 :: u32) \<in> {0, 1, 2, 3}"
proof -
  have "flags AND 3 = (take_bit 2 flags :: u32)"
    by (simp add: take_bit_eq_mask mask_eq_exp_minus_1)
  then have "unat (flags AND 3) < 4"
    by (simp add: take_bit_eq_mod unat_mod_distrib)
  then have "unat (flags AND 3) \<in> {0, 1, 2, 3}" by auto
  then have "word_of_nat (unat (flags AND 3)) \<in> {0, 1, 2, 3 :: u32}"
    by (elim insertE) (simp_all del: unat_0_iff unat_eq_0)
  then show ?thesis by simp
qed

text \<open>
  The access mode: the file was opened for reading or for writing exactly when the access mode
  bits are not 3, it is reported as opened for both exactly for \<open>RDWR\<close>, and one access token
  is reported exactly when one of the two holds.
\<close>

theorem access_mode_exact:
  "(is_read flags \<or> is_write flags \<longleftrightarrow> flags AND O_ACCMODE \<noteq> O_ACCMODE) \<and>
   (is_read flags \<and> is_write flags \<longleftrightarrow> flags AND O_ACCMODE = O_RDWR) \<and>
   (set (flag_tokens flags) \<inter> {''RDONLY'', ''WRONLY'', ''RDWR''} =
      (if is_read flags \<and> is_write flags then {''RDWR''}
       else if is_read flags then {''RDONLY''}
       else if is_write flags then {''WRONLY''} else {}))"
proof -
  have names: "set (map snd (filter P push_flags)) \<inter> {''RDONLY'', ''WRONLY'', ''RDWR''} = {}" for P
    by (auto simp: push_flags_def)
  have tmp: "{''TMPFILE''} \<inter> {''RDONLY'', ''WRONLY'', ''RDWR''} = {}" by auto
  from accmode_cases [of flags] show ?thesis
    using names tmp
    by (auto simp: is_read_def is_write_def flag_tokens_def O_RDONLY_def O_WRONLY_def O_RDWR_def
        O_ACCMODE_def)
qed

text \<open>
  A file event failed exactly when the return value its kernel function gave is negative, for
  the 32-bit results, which are sign-extended, as for the 64-bit ones.
\<close>

theorem failed_iff_negative:
  "file_failed e \<longleftrightarrow>
     (case e of FileEvent_Open x \<Rightarrow> sint (fo_retval x) < 0
      | FileEvent_Read x \<Rightarrow> sint (fr_retval x) < 0
      | FileEvent_Close x \<Rightarrow> sint (fc_retval x) < 0
      | FileEvent_Write x \<Rightarrow> sint (fw_retval x) < 0
      | FileEvent_Delete x \<Rightarrow> sint (fd_retval x) < 0
      | FileEvent_Rename x \<Rightarrow> sint (fn_retval x) < 0)"
  by (cases e) (auto simp: file_failed_def file_succeeded_def not_le)

text \<open>
  \<open>a | b\<close> on file filters: an operation's mask bit is selected exactly when one of the two
  selects it, while the file types and the process filter are those of the left operand alone.
\<close>

theorem FileFilter_bitor_selects:
  "(\<forall>op \<in> {FileMask_OPEN, FileMask_CLOSE, FileMask_READ, FileMask_WRITE, FileMask_DELETE,
            FileMask_RENAME}.
      FileMask_contains (ff_event_type (FileFilter_bitor a b)) op \<longleftrightarrow>
        FileMask_contains (ff_event_type a) op \<or> FileMask_contains (ff_event_type b) op) \<and>
   ff_file_mode (FileFilter_bitor a b) = ff_file_mode a \<and>
   ff_filter (FileFilter_bitor a b) = ff_filter a"
proof -
  have atom: "FileMask_contains (FileMask_bitor x y) c \<longleftrightarrow> FileMask_contains x c \<or> FileMask_contains y c"
    if "fm_bits c = 2 ^ n" "n < 8" for x y c n
    using that by (rule file_mask.bitor_atom)
  show ?thesis
    using atom [of _ 0] atom [of _ 1] atom [of _ 2] atom [of _ 3] atom [of _ 4] atom [of _ 5]
    by (simp add: FileFilter_bitor_def FileMask_consts)
qed

theorem FileFilter_bitor_selects_witness:
  "FileMask_OPEN \<in> {FileMask_OPEN, FileMask_CLOSE} \<and>
   FileMask_contains (ff_event_type (FileFilter_bitor FileFilter_OPEN FileFilter_RENAME)) FileMask_RENAME"
  using FileFilter_bitor_selects [of FileFilter_OPEN FileFilter_RENAME]
  by (simp add: FileFilter_RENAME_def FileFilter_of_mask_def FileMask_contains_def)


text \<open>
  The time of a file event as a duration is exact: seconds and nanoseconds recombine to the
  kernel's 64-bit nanosecond count, with fewer than a billion nanoseconds left over; an event is of
  a kernel thread exactly when its process id is 0.
\<close>

theorem file_timestamp_exact:
  "unat (dur_secs (file_timestamp e)) * 1000000000 + unat (dur_nanos (file_timestamp e))
     = unat (eh_timestamp_ns (file_header e)) \<and>
   unat (dur_nanos (file_timestamp e)) < 1000000000 \<and>
   (file_is_kernel_thread e \<longleftrightarrow> pi_pid (file_process e) = 0)"
  by (simp add: file_family.timestamp_exact file_family.kernel_thread_iff_pid)

end
