(* ===== verification/Bpfx_Process.thy ===== *)
theory Bpfx_Process
  imports Bpfx_Common Bpfx_Mask
begin

text \<open>
  \<open>src/process.rs\<close>: process events, their accessors and formats, and the mask and filter of a
  process subscription.
\<close>

section \<open>Events\<close>

record ProcessStartEvent =
  ps_header :: EventHeader
  ps_filename :: string

record ProcessExitEvent =
  px_header :: EventHeader
  px_exit_code :: i32

record ProcessForkEvent =
  pf_parent :: EventHeader
  pf_child_pid :: u32
  pf_child_comm :: string

datatype ProcessEvent = ProcessEvent_Start ProcessStartEvent | ProcessEvent_Fork ProcessForkEvent
  | ProcessEvent_Exit ProcessExitEvent

definition exit_status :: "ProcessExitEvent \<Rightarrow> u8" where
  "exit_status e = ucast (push_bit 8 (px_exit_code e) AND 0xff)"

definition fmt_ProcessStartEvent :: "ProcessStartEvent \<Rightarrow> string" where
  "fmt_ProcessStartEvent e = fmt_EventHeader (ps_header e) @ '' START '' @ ps_filename e"

definition fmt_ProcessExitEvent :: "ProcessExitEvent \<Rightarrow> string" where
  "fmt_ProcessExitEvent e = fmt_EventHeader (px_header e) @ '' EXIT '' @ show_u (exit_status e)"

definition fmt_ProcessForkEvent :: "ProcessForkEvent \<Rightarrow> string" where
  "fmt_ProcessForkEvent e =
     fmt_EventHeader (pf_parent e) @ '' FORK '' @ pf_child_comm e @ ''('' @ show_u (pf_child_pid e) @ '')''"

fun fmt_ProcessEvent :: "ProcessEvent \<Rightarrow> string" where
  "fmt_ProcessEvent (ProcessEvent_Start e) = fmt_ProcessStartEvent e"
| "fmt_ProcessEvent (ProcessEvent_Fork e) = fmt_ProcessForkEvent e"
| "fmt_ProcessEvent (ProcessEvent_Exit e) = fmt_ProcessExitEvent e"

fun process_header :: "ProcessEvent \<Rightarrow> EventHeader" where
  "process_header (ProcessEvent_Start e) = ps_header e"
| "process_header (ProcessEvent_Fork e) = pf_parent e"
| "process_header (ProcessEvent_Exit e) = px_header e"

definition process_process :: "ProcessEvent \<Rightarrow> ProcessId" where
  "process_process e = header_process (process_header e)"

definition process_timestamp :: "ProcessEvent \<Rightarrow> Duration" where
  "process_timestamp e = header_timestamp (process_header e)"

definition process_is_kernel_thread :: "ProcessEvent \<Rightarrow> bool" where
  "process_is_kernel_thread e = header_is_kernel_thread (process_header e)"

fun is_start :: "ProcessEvent \<Rightarrow> bool" where
  "is_start (ProcessEvent_Start _) = True"
| "is_start _ = False"

fun is_fork :: "ProcessEvent \<Rightarrow> bool" where
  "is_fork (ProcessEvent_Fork _) = True"
| "is_fork _ = False"

fun is_exit :: "ProcessEvent \<Rightarrow> bool" where
  "is_exit (ProcessEvent_Exit _) = True"
| "is_exit _ = False"

section \<open>Masks and filters\<close>

datatype ProcessMask = ProcessMask (pm_bits: u8)

definition ProcessMask_START :: ProcessMask where "ProcessMask_START = ProcessMask 1"
definition ProcessMask_FORK :: ProcessMask where "ProcessMask_FORK = ProcessMask 2"
definition ProcessMask_EXIT :: ProcessMask where "ProcessMask_EXIT = ProcessMask 4"

definition ProcessMask_ALL :: ProcessMask where
  "ProcessMask_ALL = ProcessMask (pm_bits ProcessMask_START OR pm_bits ProcessMask_FORK OR
     pm_bits ProcessMask_EXIT)"

definition ProcessMask_contains :: "ProcessMask \<Rightarrow> ProcessMask \<Rightarrow> bool" where
  "ProcessMask_contains m other = (pm_bits m AND pm_bits other = pm_bits other)"

definition ProcessMask_bitor :: "ProcessMask \<Rightarrow> ProcessMask \<Rightarrow> ProcessMask" where
  "ProcessMask_bitor m rhs = ProcessMask (pm_bits m OR pm_bits rhs)"

definition ProcessMask_bitor_assign :: "ProcessMask \<Rightarrow> ProcessMask \<Rightarrow> ProcessMask" where
  "ProcessMask_bitor_assign m rhs = ProcessMask (pm_bits m OR pm_bits rhs)"

record ProcessFilter =
  pfl_mask :: ProcessMask
  pfl_filter :: FilterKey

definition ProcessFilter_bitor :: "ProcessFilter \<Rightarrow> ProcessFilter \<Rightarrow> ProcessFilter" where
  "ProcessFilter_bitor a rhs =
     \<lparr>pfl_mask = ProcessMask_bitor (pfl_mask a) (pfl_mask rhs), pfl_filter = pfl_filter a\<rparr>"

definition ProcessFilter_default :: ProcessFilter where
  "ProcessFilter_default = \<lparr>pfl_mask = ProcessMask_ALL, pfl_filter = FilterNone\<rparr>"

definition ProcessFilter_START :: ProcessFilter where
  "ProcessFilter_START = \<lparr>pfl_mask = ProcessMask_START, pfl_filter = FilterNone\<rparr>"

definition ProcessFilter_FORK :: ProcessFilter where
  "ProcessFilter_FORK = \<lparr>pfl_mask = ProcessMask_FORK, pfl_filter = FilterNone\<rparr>"

definition ProcessFilter_EXIT :: ProcessFilter where
  "ProcessFilter_EXIT = \<lparr>pfl_mask = ProcessMask_EXIT, pfl_filter = FilterNone\<rparr>"

definition ProcessFilter_ALL :: ProcessFilter where
  "ProcessFilter_ALL = \<lparr>pfl_mask = ProcessMask_ALL, pfl_filter = FilterNone\<rparr>"

lemmas ProcessMask_consts = ProcessMask_START_def ProcessMask_FORK_def ProcessMask_EXIT_def

section \<open>Interpretations and properties\<close>

interpretation process_mask: bitmask pm_bits ProcessMask ProcessMask_contains ProcessMask_bitor
  by unfold_locales (simp_all add: ProcessMask_contains_def ProcessMask_bitor_def)

interpretation process_family: event_family process_header process_process process_timestamp
    process_is_kernel_thread
  by unfold_locales (simp_all add: process_process_def process_timestamp_def
      process_is_kernel_thread_def)

text \<open>
  \<open>ProcessExitEvent::status\<close> is 0 for every exit code: the shift to the left moves every bit
  out of the byte that the mask keeps.
\<close>

theorem exit_status_zero: "exit_status e = 0"
proof -
  have "push_bit 8 (px_exit_code e) AND (0xff :: i32) = 0"
  proof (rule bit_word_eqI)
    fix n
    have m: "(0xff :: i32) = mask 8" by (simp add: mask_eq_exp_minus_1)
    show "bit (push_bit 8 (px_exit_code e) AND 0xff :: i32) n = bit (0 :: i32) n"
      unfolding m by (auto simp: bit_and_iff bit_push_bit_iff bit_mask_iff)
  qed
  then show ?thesis by (simp add: exit_status_def)
qed

end
