(* ===== verification/Bpfx_Memory.thy ===== *)
theory Bpfx_Memory
  imports Bpfx_Common Bpfx_Mask
begin

text \<open>
  \<open>src/memory.rs\<close>: memory events, their accessors and formats, and the mask and filter of a memory
  subscription.
\<close>

section \<open>Events\<close>

record MemoryMapEvent =
  mm_header :: EventHeader
  mm_requested_address :: usize
  mm_length :: u64
  mm_protection :: u32
  mm_flags :: u32
  mm_mapped_address :: usize

record MemoryUnmapEvent =
  mu_header :: EventHeader
  mu_requested_address :: usize
  mu_length :: u64
  mu_mapped_address :: usize

datatype MemoryEvent = MemoryEvent_MemoryMap MemoryMapEvent | MemoryEvent_MemoryUnMap MemoryUnmapEvent

definition fmt_MemoryMapEvent :: "MemoryMapEvent \<Rightarrow> string" where
  "fmt_MemoryMapEvent e =
     fmt_EventHeader (mm_header e) @ '' MMAP addr='' @ show_hex (mm_requested_address e) @ '' len='' @
     show_hex (mm_length e) @ '' -> '' @ show_hex (mm_mapped_address e)"

definition fmt_MemoryUnmapEvent :: "MemoryUnmapEvent \<Rightarrow> string" where
  "fmt_MemoryUnmapEvent e =
     fmt_EventHeader (mu_header e) @ '' MUNMAP addr='' @ show_hex (mu_requested_address e) @
     '' len='' @ show_hex (mu_length e)"

fun fmt_MemoryEvent :: "MemoryEvent \<Rightarrow> string" where
  "fmt_MemoryEvent (MemoryEvent_MemoryMap e) = fmt_MemoryMapEvent e"
| "fmt_MemoryEvent (MemoryEvent_MemoryUnMap e) = fmt_MemoryUnmapEvent e"

fun memory_header :: "MemoryEvent \<Rightarrow> EventHeader" where
  "memory_header (MemoryEvent_MemoryMap e) = mm_header e"
| "memory_header (MemoryEvent_MemoryUnMap e) = mu_header e"

definition memory_process :: "MemoryEvent \<Rightarrow> ProcessId" where
  "memory_process e = header_process (memory_header e)"

definition memory_timestamp :: "MemoryEvent \<Rightarrow> Duration" where
  "memory_timestamp e = header_timestamp (memory_header e)"

definition memory_is_kernel_thread :: "MemoryEvent \<Rightarrow> bool" where
  "memory_is_kernel_thread e = header_is_kernel_thread (memory_header e)"

fun is_mmap :: "MemoryEvent \<Rightarrow> bool" where
  "is_mmap (MemoryEvent_MemoryMap _) = True"
| "is_mmap _ = False"

fun is_unmap :: "MemoryEvent \<Rightarrow> bool" where
  "is_unmap (MemoryEvent_MemoryUnMap _) = True"
| "is_unmap _ = False"

section \<open>Masks and filters\<close>

datatype MemoryMask = MemoryMask (mmk_bits: u8)

definition MemoryMask_MMAP :: MemoryMask where "MemoryMask_MMAP = MemoryMask 1"
definition MemoryMask_UNMAP :: MemoryMask where "MemoryMask_UNMAP = MemoryMask 2"

definition MemoryMask_ALL :: MemoryMask where
  "MemoryMask_ALL = MemoryMask (mmk_bits MemoryMask_MMAP OR mmk_bits MemoryMask_UNMAP)"

definition MemoryMask_contains :: "MemoryMask \<Rightarrow> MemoryMask \<Rightarrow> bool" where
  "MemoryMask_contains m other = (mmk_bits m AND mmk_bits other = mmk_bits other)"

definition MemoryMask_bitor :: "MemoryMask \<Rightarrow> MemoryMask \<Rightarrow> MemoryMask" where
  "MemoryMask_bitor m rhs = MemoryMask (mmk_bits m OR mmk_bits rhs)"

definition MemoryMask_bitor_assign :: "MemoryMask \<Rightarrow> MemoryMask \<Rightarrow> MemoryMask" where
  "MemoryMask_bitor_assign m rhs = MemoryMask (mmk_bits m OR mmk_bits rhs)"

lemmas MemoryMask_consts = MemoryMask_MMAP_def MemoryMask_UNMAP_def

text \<open>The derived \<open>Ord\<close> of \<open>MemoryMask\<close> compares the bits.\<close>

instantiation MemoryMask :: linorder
begin

definition less_eq_MemoryMask :: "MemoryMask \<Rightarrow> MemoryMask \<Rightarrow> bool" where
  "less_eq_MemoryMask a b = (mmk_bits a \<le> mmk_bits b)"

definition less_MemoryMask :: "MemoryMask \<Rightarrow> MemoryMask \<Rightarrow> bool" where
  "less_MemoryMask a b = (mmk_bits a < mmk_bits b)"

instance
  by standard (auto simp: less_eq_MemoryMask_def less_MemoryMask_def MemoryMask.expand)

end

record MemoryFilter =
  mf_mask :: MemoryMask
  mf_filter :: FilterKey

definition MemoryFilter_default :: MemoryFilter where
  "MemoryFilter_default = \<lparr>mf_mask = MemoryMask_ALL, mf_filter = FilterNone\<rparr>"

definition MemoryFilter_ALL :: MemoryFilter where
  "MemoryFilter_ALL = \<lparr>mf_mask = MemoryMask_ALL, mf_filter = FilterNone\<rparr>"

definition MemoryFilter_MMAP :: MemoryFilter where
  "MemoryFilter_MMAP = \<lparr>mf_mask = MemoryMask_MMAP, mf_filter = FilterNone\<rparr>"

definition MemoryFilter_UNMAP :: MemoryFilter where
  "MemoryFilter_UNMAP = \<lparr>mf_mask = MemoryMask_UNMAP, mf_filter = FilterNone\<rparr>"

definition MemoryFilter_bitor :: "MemoryFilter \<Rightarrow> MemoryFilter \<Rightarrow> MemoryFilter" where
  "MemoryFilter_bitor a rhs =
     \<lparr>mf_mask = MemoryMask_bitor (mf_mask a) (mf_mask rhs), mf_filter = mf_filter a\<rparr>"

section \<open>Interpretations\<close>

interpretation memory_mask: bitmask mmk_bits MemoryMask MemoryMask_contains MemoryMask_bitor
  by unfold_locales (simp_all add: MemoryMask_contains_def MemoryMask_bitor_def)

interpretation memory_family: event_family memory_header memory_process memory_timestamp
    memory_is_kernel_thread
  by unfold_locales (simp_all add: memory_process_def memory_timestamp_def
      memory_is_kernel_thread_def)

end
