(* ===== verification/Bpfx_Network.thy ===== *)
theory Bpfx_Network
  imports Bpfx_Common Bpfx_Mask
begin

text \<open>
  \<open>src/network.rs\<close>: protocols and endpoints, network events with their accessors and formats, and
  the masks and filter of a network subscription. \<open>IpAddr\<close> is the standard library's, as the list
  of octets it is built from, with its \<open>Display\<close> (for IPv6 the longest run of at least two zero
  segments is written \<open>::\<close>, and a mapped IPv4 address is written as such).
\<close>

section \<open>Addresses\<close>

datatype IpAddr = IpV4 u8 u8 u8 u8 | IpV6 "u8 list"

definition fmt_ipv4 :: "u8 \<Rightarrow> u8 \<Rightarrow> u8 \<Rightarrow> u8 \<Rightarrow> string" where
  "fmt_ipv4 a b c d = join_str ''.'' [show_u a, show_u b, show_u c, show_u d]"

fun ipv6_segments :: "u8 list \<Rightarrow> u16 list" where
  "ipv6_segments (a # b # bs) = (push_bit 8 (ucast a) OR ucast b) # ipv6_segments bs"
| "ipv6_segments _ = []"

text \<open>The first longest run of zero segments, as a pair of its start and its length.\<close>

fun zero_span :: "nat \<Rightarrow> nat \<times> nat \<Rightarrow> nat \<times> nat \<Rightarrow> u16 list \<Rightarrow> nat \<times> nat" where
  "zero_span i longest current [] = longest"
| "zero_span i longest current (s # ss) =
     (if s = 0 then
        (let cur = (if snd current = 0 then (i, 1) else (fst current, snd current + 1)) in
         zero_span (Suc i) (if snd longest < snd cur then cur else longest) cur ss)
      else zero_span (Suc i) longest (0, 0) ss)"

definition fmt_segments :: "u16 list \<Rightarrow> string" where
  "fmt_segments ss = join_str '':'' (map (\<lambda>s. show_base 16 (unat s)) ss)"

definition fmt_ipv6 :: "u8 list \<Rightarrow> string" where
  "fmt_ipv6 octets =
     (if take 12 octets = replicate 10 0 @ [0xff, 0xff] \<and> length octets = 16
      then ''::ffff:'' @ fmt_ipv4 (octets ! 12) (octets ! 13) (octets ! 14) (octets ! 15)
      else let ss = ipv6_segments octets; (start, len) = zero_span 0 (0, 0) (0, 0) ss in
        if 1 < len then fmt_segments (take start ss) @ ''::'' @ fmt_segments (drop (start + len) ss)
        else fmt_segments ss)"

fun fmt_IpAddr :: "IpAddr \<Rightarrow> string" where
  "fmt_IpAddr (IpV4 a b c d) = fmt_ipv4 a b c d"
| "fmt_IpAddr (IpV6 octets) = fmt_ipv6 octets"

section \<open>Protocols and endpoints\<close>

datatype Protocol = Tcp | Udp

fun fmt_Protocol :: "Protocol \<Rightarrow> string" where
  "fmt_Protocol Tcp = ''TCP''"
| "fmt_Protocol Udp = ''UDP''"

record SocketEndpoints =
  se_local_ip :: IpAddr
  se_local_port :: u16
  se_remote_ip :: IpAddr
  se_remote_port :: u16

definition fmt_SocketEndpoints :: "SocketEndpoints \<Rightarrow> string" where
  "fmt_SocketEndpoints e =
     fmt_IpAddr (se_local_ip e) @ '':'' @ show_u (se_local_port e) @ '' -> '' @
     fmt_IpAddr (se_remote_ip e) @ '':'' @ show_u (se_remote_port e)"

section \<open>Events\<close>

record ConnectEvent =
  ce_header :: EventHeader
  ce_protocol :: Protocol
  ce_endpoints :: SocketEndpoints
  ce_retval :: i32

record AcceptEvent =
  ae_header :: EventHeader
  ae_protocol :: Protocol
  ae_endpoints :: SocketEndpoints

record CloseEvent =
  cl_header :: EventHeader
  cl_protocol :: Protocol
  cl_endpoints :: SocketEndpoints

record BindEvent =
  be_header :: EventHeader
  be_protocol :: Protocol
  be_endpoints :: SocketEndpoints
  be_retval :: i32

record ListenEvent =
  le_header :: EventHeader
  le_protocol :: Protocol
  le_endpoints :: SocketEndpoints
  le_retval :: i32

datatype NetworkEvent = NetworkEvent_Connect ConnectEvent | NetworkEvent_Accept AcceptEvent
  | NetworkEvent_Close CloseEvent | NetworkEvent_Bind BindEvent | NetworkEvent_Listen ListenEvent

definition fmt_ConnectEvent :: "ConnectEvent \<Rightarrow> string" where
  "fmt_ConnectEvent e =
     fmt_EventHeader (ce_header e) @ '' '' @ fmt_Protocol (ce_protocol e) @ '' CONNECT '' @
     fmt_SocketEndpoints (ce_endpoints e) @ '' -> '' @ show_i (ce_retval e)"

definition fmt_AcceptEvent :: "AcceptEvent \<Rightarrow> string" where
  "fmt_AcceptEvent e =
     fmt_EventHeader (ae_header e) @ '' '' @ fmt_Protocol (ae_protocol e) @ '' ACCEPT '' @
     fmt_SocketEndpoints (ae_endpoints e)"

definition fmt_CloseEvent :: "CloseEvent \<Rightarrow> string" where
  "fmt_CloseEvent e =
     fmt_EventHeader (cl_header e) @ '' '' @ fmt_Protocol (cl_protocol e) @ '' CLOSE '' @
     fmt_SocketEndpoints (cl_endpoints e)"

definition fmt_BindEvent :: "BindEvent \<Rightarrow> string" where
  "fmt_BindEvent e =
     fmt_EventHeader (be_header e) @ '' '' @ fmt_Protocol (be_protocol e) @ '' BIND '' @
     fmt_SocketEndpoints (be_endpoints e) @ '' -> '' @ show_i (be_retval e)"

definition fmt_ListenEvent :: "ListenEvent \<Rightarrow> string" where
  "fmt_ListenEvent e =
     fmt_EventHeader (le_header e) @ '' '' @ fmt_Protocol (le_protocol e) @ '' LISTEN '' @
     fmt_SocketEndpoints (le_endpoints e) @ '' -> '' @ show_i (le_retval e)"

fun fmt_NetworkEvent :: "NetworkEvent \<Rightarrow> string" where
  "fmt_NetworkEvent (NetworkEvent_Connect e) = fmt_ConnectEvent e"
| "fmt_NetworkEvent (NetworkEvent_Accept e) = fmt_AcceptEvent e"
| "fmt_NetworkEvent (NetworkEvent_Close e) = fmt_CloseEvent e"
| "fmt_NetworkEvent (NetworkEvent_Bind e) = fmt_BindEvent e"
| "fmt_NetworkEvent (NetworkEvent_Listen e) = fmt_ListenEvent e"

fun network_protocol :: "NetworkEvent \<Rightarrow> Protocol" where
  "network_protocol (NetworkEvent_Connect e) = ce_protocol e"
| "network_protocol (NetworkEvent_Accept e) = ae_protocol e"
| "network_protocol (NetworkEvent_Close e) = cl_protocol e"
| "network_protocol (NetworkEvent_Bind e) = be_protocol e"
| "network_protocol (NetworkEvent_Listen e) = le_protocol e"

definition is_tcp :: "NetworkEvent \<Rightarrow> bool" where
  "is_tcp e = (network_protocol e = Tcp)"

definition is_udp :: "NetworkEvent \<Rightarrow> bool" where
  "is_udp e = (network_protocol e = Udp)"

fun network_header :: "NetworkEvent \<Rightarrow> EventHeader" where
  "network_header (NetworkEvent_Connect e) = ce_header e"
| "network_header (NetworkEvent_Accept e) = ae_header e"
| "network_header (NetworkEvent_Close e) = cl_header e"
| "network_header (NetworkEvent_Bind e) = be_header e"
| "network_header (NetworkEvent_Listen e) = le_header e"

fun network_endpoints :: "NetworkEvent \<Rightarrow> SocketEndpoints" where
  "network_endpoints (NetworkEvent_Connect e) = ce_endpoints e"
| "network_endpoints (NetworkEvent_Accept e) = ae_endpoints e"
| "network_endpoints (NetworkEvent_Close e) = cl_endpoints e"
| "network_endpoints (NetworkEvent_Bind e) = be_endpoints e"
| "network_endpoints (NetworkEvent_Listen e) = le_endpoints e"

definition network_process :: "NetworkEvent \<Rightarrow> ProcessId" where
  "network_process e = header_process (network_header e)"

definition network_timestamp :: "NetworkEvent \<Rightarrow> Duration" where
  "network_timestamp e = header_timestamp (network_header e)"

definition network_is_kernel_thread :: "NetworkEvent \<Rightarrow> bool" where
  "network_is_kernel_thread e = header_is_kernel_thread (network_header e)"

section \<open>Masks and filters\<close>

datatype ProtocolMask = ProtocolMask (prm_bits: u8)

definition ProtocolMask_TCP :: ProtocolMask where "ProtocolMask_TCP = ProtocolMask 1"
definition ProtocolMask_UDP :: ProtocolMask where "ProtocolMask_UDP = ProtocolMask 2"

definition ProtocolMask_ALL :: ProtocolMask where
  "ProtocolMask_ALL = ProtocolMask (prm_bits ProtocolMask_TCP OR prm_bits ProtocolMask_UDP)"

definition ProtocolMask_contains :: "ProtocolMask \<Rightarrow> ProtocolMask \<Rightarrow> bool" where
  "ProtocolMask_contains m other = (prm_bits m AND prm_bits other = prm_bits other)"

definition ProtocolMask_bitor :: "ProtocolMask \<Rightarrow> ProtocolMask \<Rightarrow> ProtocolMask" where
  "ProtocolMask_bitor m rhs = ProtocolMask (prm_bits m OR prm_bits rhs)"

definition ProtocolMask_bitor_assign :: "ProtocolMask \<Rightarrow> ProtocolMask \<Rightarrow> ProtocolMask" where
  "ProtocolMask_bitor_assign m rhs = ProtocolMask (prm_bits m OR prm_bits rhs)"

datatype NetworkMask = NetworkMask (nm_bits: u8)

definition NetworkMask_CONNECT :: NetworkMask where "NetworkMask_CONNECT = NetworkMask 1"
definition NetworkMask_ACCEPT :: NetworkMask where "NetworkMask_ACCEPT = NetworkMask 2"
definition NetworkMask_CLOSE :: NetworkMask where "NetworkMask_CLOSE = NetworkMask 4"
definition NetworkMask_BIND :: NetworkMask where "NetworkMask_BIND = NetworkMask 8"
definition NetworkMask_LISTEN :: NetworkMask where "NetworkMask_LISTEN = NetworkMask 16"

definition NetworkMask_ALL :: NetworkMask where
  "NetworkMask_ALL = NetworkMask (nm_bits NetworkMask_CONNECT OR nm_bits NetworkMask_ACCEPT OR
     nm_bits NetworkMask_CLOSE OR nm_bits NetworkMask_BIND OR nm_bits NetworkMask_LISTEN)"

definition NetworkMask_contains :: "NetworkMask \<Rightarrow> NetworkMask \<Rightarrow> bool" where
  "NetworkMask_contains m other = (nm_bits m AND nm_bits other = nm_bits other)"

definition NetworkMask_bitor :: "NetworkMask \<Rightarrow> NetworkMask \<Rightarrow> NetworkMask" where
  "NetworkMask_bitor m rhs = NetworkMask (nm_bits m OR nm_bits rhs)"

definition NetworkMask_bitor_assign :: "NetworkMask \<Rightarrow> NetworkMask \<Rightarrow> NetworkMask" where
  "NetworkMask_bitor_assign m rhs = NetworkMask (nm_bits m OR nm_bits rhs)"

record NetworkFilter =
  nf_protocol_mask :: ProtocolMask
  nf_event_mask :: NetworkMask
  nf_filter :: FilterKey

definition NetworkFilter_default :: NetworkFilter where
  "NetworkFilter_default =
     \<lparr>nf_protocol_mask = ProtocolMask_ALL, nf_event_mask = NetworkMask_ALL, nf_filter = FilterNone\<rparr>"

definition NetworkFilter_ALL :: NetworkFilter where
  "NetworkFilter_ALL =
     \<lparr>nf_protocol_mask = ProtocolMask_ALL, nf_event_mask = NetworkMask_ALL, nf_filter = FilterNone\<rparr>"

definition NetworkFilter_TCP :: NetworkFilter where
  "NetworkFilter_TCP =
     \<lparr>nf_protocol_mask = ProtocolMask_TCP, nf_event_mask = NetworkMask_ALL, nf_filter = FilterNone\<rparr>"

definition NetworkFilter_UDP :: NetworkFilter where
  "NetworkFilter_UDP =
     \<lparr>nf_protocol_mask = ProtocolMask_UDP, nf_event_mask = NetworkMask_ALL, nf_filter = FilterNone\<rparr>"

definition NetworkFilter_bitor :: "NetworkFilter \<Rightarrow> NetworkFilter \<Rightarrow> NetworkFilter" where
  "NetworkFilter_bitor a rhs =
     \<lparr>nf_protocol_mask = nf_protocol_mask a,
      nf_event_mask = NetworkMask_bitor (nf_event_mask a) (nf_event_mask rhs),
      nf_filter = nf_filter a\<rparr>"

lemmas ProtocolMask_consts = ProtocolMask_TCP_def ProtocolMask_UDP_def
lemmas NetworkMask_consts = NetworkMask_CONNECT_def NetworkMask_ACCEPT_def NetworkMask_CLOSE_def
  NetworkMask_BIND_def NetworkMask_LISTEN_def

section \<open>Interpretations and properties\<close>

interpretation protocol_mask: bitmask prm_bits ProtocolMask ProtocolMask_contains ProtocolMask_bitor
  by unfold_locales (simp_all add: ProtocolMask_contains_def ProtocolMask_bitor_def)

interpretation network_mask: bitmask nm_bits NetworkMask NetworkMask_contains NetworkMask_bitor
  by unfold_locales (simp_all add: NetworkMask_contains_def NetworkMask_bitor_def)

interpretation network_family: event_family network_header network_process network_timestamp
    network_is_kernel_thread
  by unfold_locales (simp_all add: network_process_def network_timestamp_def
      network_is_kernel_thread_def)

text \<open>
  \<open>a | b\<close> on network filters drops the protocols of \<open>b\<close>: whatever they are, the union has the
  protocols and the process filter of \<open>a\<close>. So \<open>NetworkFilter::TCP | NetworkFilter::UDP\<close> is the
  filter \<open>NetworkFilter::TCP\<close>, which has no UDP events.
\<close>

theorem NetworkFilter_bitor_drops_protocols:
  "nf_protocol_mask (NetworkFilter_bitor a b) = nf_protocol_mask a \<and>
   nf_filter (NetworkFilter_bitor a b) = nf_filter a \<and>
   NetworkFilter_bitor NetworkFilter_TCP NetworkFilter_UDP = NetworkFilter_TCP \<and>
   \<not> ProtocolMask_contains
       (nf_protocol_mask (NetworkFilter_bitor NetworkFilter_TCP NetworkFilter_UDP)) ProtocolMask_UDP"
  by (simp add: NetworkFilter_bitor_def NetworkFilter_TCP_def NetworkFilter_UDP_def
      network_mask.bitor_idem ProtocolMask_contains_def ProtocolMask_consts)

end
