(* ===== verification/Bpfx_Convert.thy ===== *)
theory Bpfx_Convert
  imports Bpfx_File Bpfx_Process Bpfx_Memory Bpfx_Network
begin

text \<open>
  The converters of \<open>src/core.rs\<close>: from the bytes of a ring buffer item to an event of a family,
  handed to the channel of the family's subscriber. The channel belongs to \<open>tokio\<close>: its
  \<open>try_send\<close> is an argument of every converter, returning what it answers and the sender's
  channel afterwards. A converter returns its result, the channel and the lines it logs.
  \<open>ptr_read\<close> is \<open>ptr::read\<close> of a structure at the start of the item: the bytes are read whether or
  not the item has that many, and bytes that are no value of the structure give
  \<open>UndefinedBehaviour\<close>.
\<close>

section \<open>Channels and logs\<close>

datatype send_result = Sent | Full | Closed

type_synonym ('tx, 'e) sender = "'tx \<Rightarrow> 'e \<Rightarrow> send_result \<times> 'tx"

text \<open>
  A line of the log is its level and text; the two lines that print a value with \<open>{:?}\<close> keep the
  value.
\<close>

datatype log_line = Warn string | Info string | Debug string | WarnReplaced RawFileRenameEvent
  | DebugOrphaned "u32 \<times> u32"

type_synonym ('tx, 'x) converted = "('x fault + unit) \<times> 'tx \<times> log_line list"

text \<open>The \<open>match\<close> on the answer of \<open>try_send\<close> that every arm of every converter repeats.\<close>

definition deliver :: "('tx, 'e) sender \<Rightarrow> string \<Rightarrow> 'tx \<Rightarrow> 'e \<Rightarrow> ('tx, 'x) converted" where
  "deliver try_send family tx e =
     (case try_send tx e of
        (Sent, tx') \<Rightarrow> (Inr (), tx', [])
      | (Full, tx') \<Rightarrow> (Inr (), tx', [Warn (''dropping '' @ family @ '' event: channel is full'')])
      | (Closed, tx') \<Rightarrow>
          (Inr (), tx', [Warn (''dropping '' @ family @ '' event: receiver has been closed'')]))"

definition ptr_read :: "nat \<Rightarrow> (u8 list \<Rightarrow> 'a option) \<Rightarrow> ring_item \<Rightarrow> 'x fault + 'a" where
  "ptr_read n dec it =
     (case dec (read_bytes it n) of None \<Rightarrow> Inl UndefinedBehaviour | Some v \<Rightarrow> Inr v)"

section \<open>Headers\<close>

definition convert_header :: "RawEventHeader \<Rightarrow> EventHeader" where
  "convert_header header =
     \<lparr>eh_timestamp_ns = rh_timestamp_ns header, eh_pid = rh_pid header, eh_tid = rh_tid header,
      eh_ppid = rh_ppid header, eh_uid = rh_uid header, eh_gid = rh_gid header,
      eh_comm = from_utf8_lossy (until_nul (rh_comm header))\<rparr>"

definition ip_of :: "IpVersion \<Rightarrow> u8 list \<Rightarrow> IpAddr" where
  "ip_of v a = (case v of V4 \<Rightarrow> IpV4 (a ! 0) (a ! 1) (a ! 2) (a ! 3) | V6 \<Rightarrow> IpV6 a)"

definition parse_network_event :: "PendingConnect \<Rightarrow> EventHeader \<times> SocketEndpoints" where
  "parse_network_event event =
     (let header =
            \<lparr>eh_timestamp_ns = rh_timestamp_ns (pc_header event), eh_pid = rh_pid (pc_header event),
             eh_tid = rh_tid (pc_header event), eh_ppid = rh_ppid (pc_header event),
             eh_uid = rh_uid (pc_header event), eh_gid = rh_gid (pc_header event),
             eh_comm = from_utf8_lossy (until_nul (rh_comm (pc_header event)))\<rparr>;
          endpoints =
            \<lparr>se_local_ip = ip_of (pc_ip_version event) (pc_src_addr event),
             se_local_port = pc_src_port event,
             se_remote_ip = ip_of (pc_ip_version event) (pc_dst_addr event),
             se_remote_port = pc_dst_port event\<rparr>
      in (header, endpoints))"

section \<open>Building events\<close>

text \<open>The macros \<open>network_event!\<close>, \<open>process_event!\<close>, \<open>file_event!\<close> and \<open>mem_event!\<close>, one definition per variant.\<close>

definition network_event_connect :: "EventHeader \<Rightarrow> Protocol \<Rightarrow> SocketEndpoints \<Rightarrow> i32 \<Rightarrow> NetworkEvent" where
  "network_event_connect header protocol endpoints retval =
     NetworkEvent_Connect \<lparr>ce_header = header, ce_protocol = protocol, ce_endpoints = endpoints, ce_retval = retval\<rparr>"

definition network_event_accept :: "EventHeader \<Rightarrow> Protocol \<Rightarrow> SocketEndpoints \<Rightarrow> NetworkEvent" where
  "network_event_accept header protocol endpoints =
     NetworkEvent_Accept \<lparr>ae_header = header, ae_protocol = protocol, ae_endpoints = endpoints\<rparr>"

definition network_event_close :: "EventHeader \<Rightarrow> Protocol \<Rightarrow> SocketEndpoints \<Rightarrow> NetworkEvent" where
  "network_event_close header protocol endpoints =
     NetworkEvent_Close \<lparr>cl_header = header, cl_protocol = protocol, cl_endpoints = endpoints\<rparr>"

definition network_event_bind :: "EventHeader \<Rightarrow> Protocol \<Rightarrow> SocketEndpoints \<Rightarrow> i32 \<Rightarrow> NetworkEvent" where
  "network_event_bind header protocol endpoints retval =
     NetworkEvent_Bind \<lparr>be_header = header, be_protocol = protocol, be_endpoints = endpoints, be_retval = retval\<rparr>"

definition network_event_listen :: "EventHeader \<Rightarrow> Protocol \<Rightarrow> SocketEndpoints \<Rightarrow> i32 \<Rightarrow> NetworkEvent" where
  "network_event_listen header protocol endpoints retval =
     NetworkEvent_Listen \<lparr>le_header = header, le_protocol = protocol, le_endpoints = endpoints, le_retval = retval\<rparr>"

definition process_event_start :: "EventHeader \<Rightarrow> string \<Rightarrow> ProcessEvent" where
  "process_event_start header filename =
     ProcessEvent_Start \<lparr>ps_header = header, ps_filename = filename\<rparr>"

definition process_event_fork :: "EventHeader \<Rightarrow> u32 \<Rightarrow> string \<Rightarrow> ProcessEvent" where
  "process_event_fork parent child_pid child_comm =
     ProcessEvent_Fork \<lparr>pf_parent = parent, pf_child_pid = child_pid, pf_child_comm = child_comm\<rparr>"

definition process_event_exit :: "EventHeader \<Rightarrow> i32 \<Rightarrow> ProcessEvent" where
  "process_event_exit header code =
     ProcessEvent_Exit \<lparr>px_header = header, px_exit_code = code\<rparr>"

definition file_event_open :: "EventHeader \<Rightarrow> string \<Rightarrow> FileType \<Rightarrow> u64 \<Rightarrow> i32 \<Rightarrow> u32 \<Rightarrow> FileEvent" where
  "file_event_open header file_path file_type inode retval flags =
     FileEvent_Open \<lparr>fo_header = header, fo_file_path = file_path, fo_file_type = file_type,
       fo_inode = inode, fo_retval = retval, fo_flags = flags\<rparr>"

definition file_event_close :: "EventHeader \<Rightarrow> string \<Rightarrow> FileType \<Rightarrow> u64 \<Rightarrow> i32 \<Rightarrow> u32 \<Rightarrow> FileEvent" where
  "file_event_close header file_path file_type inode retval flags =
     FileEvent_Close \<lparr>fc_header = header, fc_file_path = file_path, fc_file_type = file_type,
       fc_inode = inode, fc_retval = retval, fc_flags = flags\<rparr>"

definition file_event_read :: "EventHeader \<Rightarrow> string \<Rightarrow> FileType \<Rightarrow> u64 \<Rightarrow> isize \<Rightarrow> u32 \<Rightarrow> FileEvent" where
  "file_event_read header file_path file_type inode retval flags =
     FileEvent_Read \<lparr>fr_header = header, fr_file_path = file_path, fr_file_type = file_type,
       fr_inode = inode, fr_retval = retval, fr_flags = flags\<rparr>"

definition file_event_write :: "EventHeader \<Rightarrow> string \<Rightarrow> FileType \<Rightarrow> u64 \<Rightarrow> isize \<Rightarrow> u32 \<Rightarrow> FileEvent" where
  "file_event_write header file_path file_type inode retval flags =
     FileEvent_Write \<lparr>fw_header = header, fw_file_path = file_path, fw_file_type = file_type,
       fw_inode = inode, fw_retval = retval, fw_flags = flags\<rparr>"

definition file_event_delete :: "EventHeader \<Rightarrow> string \<Rightarrow> FileType \<Rightarrow> i32 \<Rightarrow> FileEvent" where
  "file_event_delete header filename file_type retval =
     FileEvent_Delete \<lparr>fd_header = header, fd_filename = filename, fd_file_type = file_type, fd_retval = retval\<rparr>"

definition file_event_rename :: "EventHeader \<Rightarrow> string \<Rightarrow> string \<Rightarrow> FileType \<Rightarrow> i32 \<Rightarrow> u32 \<Rightarrow> FileEvent" where
  "file_event_rename header old_filename new_filename file_type retval flags =
     FileEvent_Rename \<lparr>fn_header = header, fn_old_filename = old_filename, fn_new_filename = new_filename, fn_file_type = file_type,
       fn_flags = flags, fn_retval = retval\<rparr>"

definition mem_event_map :: "EventHeader \<Rightarrow> usize \<Rightarrow> usize \<Rightarrow> u32 \<Rightarrow> u32 \<Rightarrow> usize \<Rightarrow> MemoryEvent" where
  "mem_event_map header requested_address len protection flags mapped_address =
     MemoryEvent_MemoryMap \<lparr>mm_header = header, mm_requested_address = requested_address, mm_length = len,
       mm_protection = protection, mm_flags = flags, mm_mapped_address = mapped_address\<rparr>"

definition mem_event_unmap :: "EventHeader \<Rightarrow> usize \<Rightarrow> usize \<Rightarrow> usize \<Rightarrow> MemoryEvent" where
  "mem_event_unmap header requested_address len mapped_address =
     MemoryEvent_MemoryUnMap \<lparr>mu_header = header, mu_requested_address = requested_address, mu_length = len,
       mu_mapped_address = mapped_address\<rparr>"

lemmas event_macros [simp, conv] = network_event_connect_def network_event_accept_def network_event_close_def
  network_event_bind_def network_event_listen_def process_event_start_def
  process_event_fork_def process_event_exit_def file_event_open_def
  file_event_close_def file_event_read_def file_event_write_def
  file_event_delete_def file_event_rename_def mem_event_map_def
  mem_event_unmap_def

section \<open>Network\<close>

definition handle_connect :: "('tx, NetworkEvent) sender \<Rightarrow> 'tx \<Rightarrow> PendingConnect \<Rightarrow> ('tx, 'x) converted" where
  "handle_connect try_send tx event =
     (case parse_network_event event of (header, endpoints) \<Rightarrow>
        (case pc_protocol event of
           RawTcp \<Rightarrow>
             (case pc_retval event of
                None \<Rightarrow> (Inl Panic, tx, [])
              | Some r \<Rightarrow> deliver try_send ''network'' tx (network_event_connect header Tcp endpoints r))
         | RawUdp \<Rightarrow>
             (case pc_retval event of
                None \<Rightarrow> (Inl Panic, tx, [])
              | Some r \<Rightarrow> deliver try_send ''network'' tx (network_event_connect header Udp endpoints r))))"

definition handle_tcp_accept :: "('tx, NetworkEvent) sender \<Rightarrow> 'tx \<Rightarrow> PendingConnect \<Rightarrow> ('tx, 'x) converted" where
  "handle_tcp_accept try_send tx event =
     (case parse_network_event event of (header, endpoints) \<Rightarrow>
        deliver try_send ''network'' tx (network_event_accept header Tcp endpoints))"

definition handle_close :: "('tx, NetworkEvent) sender \<Rightarrow> 'tx \<Rightarrow> PendingConnect \<Rightarrow> ('tx, 'x) converted" where
  "handle_close try_send tx event =
     (case parse_network_event event of (header, endpoints) \<Rightarrow>
        (case pc_protocol event of
           RawTcp \<Rightarrow> deliver try_send ''network'' tx (network_event_close header Tcp endpoints)
         | RawUdp \<Rightarrow> deliver try_send ''network'' tx (network_event_close header Udp endpoints)))"

definition handle_bind :: "('tx, NetworkEvent) sender \<Rightarrow> 'tx \<Rightarrow> PendingConnect \<Rightarrow> ('tx, 'x) converted" where
  "handle_bind try_send tx event =
     (case parse_network_event event of (header, endpoints) \<Rightarrow>
        (case pc_retval event of
           None \<Rightarrow> (Inl Panic, tx, [])
         | Some r \<Rightarrow> deliver try_send ''network'' tx (network_event_bind header Tcp endpoints r)))"

definition handle_listen :: "('tx, NetworkEvent) sender \<Rightarrow> 'tx \<Rightarrow> PendingConnect \<Rightarrow> ('tx, 'x) converted" where
  "handle_listen try_send tx event =
     (case parse_network_event event of (header, endpoints) \<Rightarrow>
        (case pc_retval event of
           None \<Rightarrow> (Inl Panic, tx, [])
         | Some r \<Rightarrow> deliver try_send ''network'' tx (network_event_listen header Tcp endpoints r)))"

definition convert_network_events :: "('tx, NetworkEvent) sender \<Rightarrow> 'tx \<Rightarrow> ring_item \<Rightarrow> ('tx, 'x) converted" where
  "convert_network_events try_send tx events =
     (case ptr_read 112 dec_net events of
        Inl f \<Rightarrow> (Inl f, tx, [])
      | Inr event \<Rightarrow>
          (case rh_event_type (pc_header event) of
             Connect \<Rightarrow> handle_connect try_send tx event
           | Accept \<Rightarrow> handle_tcp_accept try_send tx event
           | Close \<Rightarrow> handle_close try_send tx event
           | Bind \<Rightarrow> handle_bind try_send tx event
           | Listen \<Rightarrow> handle_listen try_send tx event
           | _ \<Rightarrow> (Inr (), tx, [])))"

section \<open>Processes\<close>

definition convert_process_events :: "('tx, ProcessEvent) sender \<Rightarrow> 'tx \<Rightarrow> ring_item \<Rightarrow> ('tx, 'x) converted" where
  "convert_process_events try_send tx events =
     (case ptr_read 56 dec_header events of
        Inl f \<Rightarrow> (Inl f, tx, [])
      | Inr header \<Rightarrow>
          (case rh_event_type header of
             ProcessStart \<Rightarrow>
               (case ptr_read 312 dec_start events of
                  Inl f \<Rightarrow> (Inl f, tx, [])
                | Inr event \<Rightarrow> deliver try_send ''process'' tx (process_event_start (convert_header (rs_header event)) (from_utf8_lossy (until_nul (rs_filename event)))))
           | ProcessExit \<Rightarrow>
               (case ptr_read 64 dec_exit events of
                  Inl f \<Rightarrow> (Inl f, tx, [])
                | Inr event \<Rightarrow> deliver try_send ''process'' tx (process_event_exit (convert_header (rx_header event))
                      (rx_exit_code event)))
           | ProcessFork \<Rightarrow>
               (case ptr_read 80 dec_fork events of
                  Inl f \<Rightarrow> (Inl f, tx, [])
                | Inr event \<Rightarrow> deliver try_send ''process'' tx (process_event_fork (convert_header (rf_parent event))
                      (rf_child_pid event) (from_utf8_lossy (until_nul (rf_child_comm event)))))
           | _ \<Rightarrow> (Inr (), tx, [])))"

section \<open>Memory\<close>

definition convert_mem_events :: "('tx, MemoryEvent) sender \<Rightarrow> 'tx \<Rightarrow> ring_item \<Rightarrow> ('tx, 'x) converted" where
  "convert_mem_events try_send tx events =
     (case ptr_read 56 dec_header events of
        Inl f \<Rightarrow> (Inl f, tx, [])
      | Inr header \<Rightarrow>
          (case rh_event_type header of
             MemoryMap \<Rightarrow>
               (case ptr_read 88 dec_mmap events of
                  Inl f \<Rightarrow> (Inl f, tx, [])
                | Inr event \<Rightarrow> deliver try_send ''memory'' tx (mem_event_map (convert_header (rm_header event))
                      (rm_requested_address event) (rm_length event) (rm_protection event)
                      (rm_flags event) (rm_mapped_address event)))
           | MemoryUnMap \<Rightarrow>
               (case ptr_read 80 dec_munmap events of
                  Inl f \<Rightarrow> (Inl f, tx, [])
                | Inr event \<Rightarrow> deliver try_send ''memory'' tx (mem_event_unmap (convert_header (ru_header event))
                      (ru_requested_address event) (ru_length event)
                      (ru_mapped_address event)))
           | _ \<Rightarrow> (Inr (), tx, [])))"


section \<open>Files\<close>

definition MAX_PENDING_RENAMES :: nat where "MAX_PENDING_RENAMES = 1024"

type_synonym pending_renames = "(u32 \<times> u32, RawFileRenameEvent) hash_map"

text \<open>The two halves of a rename: the entry event is kept, the exit event completes it.\<close>

definition rename_event :: "RawFileRenameEvent \<Rightarrow> i32 \<Rightarrow> FileEvent" where
  "rename_event event r = file_event_rename (convert_header (rn_header event))
      (from_utf8_lossy (until_nul (rn_old_filename event)))
      (from_utf8_lossy (until_nul (rn_new_filename event)))
                      (file_type_from (rn_file_mode event)) r (rn_flags event)"

definition rename_enter :: "RawFileRenameEvent \<Rightarrow> pending_renames \<Rightarrow> log_line list \<times> pending_renames" where
  "rename_enter event pending =
     (let pid_tid = (rh_pid (rn_header event), rh_tid (rn_header event)) in
      if hm_len pending \<ge> MAX_PENDING_RENAMES then
        ([Warn ''pending rename map full (1024 entries), dropping events''], pending)
      else
        (case hm_insert pid_tid event pending of
           (Some old, pending') \<Rightarrow> ([WarnReplaced old], pending')
         | (None, pending') \<Rightarrow> ([Info ''inserted new pending rename''], pending')))"

definition rename_exit :: "('tx, FileEvent) sender \<Rightarrow> 'tx \<Rightarrow> RawFileRtrEvent \<Rightarrow> pending_renames \<Rightarrow>
    ('tx, 'x) converted \<times> pending_renames" where
  "rename_exit try_send tx ret_event pending =
     (let pid_tid = (rh_pid (rt_header ret_event), rh_tid (rt_header ret_event)) in
      case hm_remove pid_tid pending of
        (Some event, pending') \<Rightarrow>
          (deliver try_send ''file'' tx (rename_event event (rt_retval ret_event)), pending')
      | (None, pending') \<Rightarrow> ((Inr (), tx, [DebugOrphaned pid_tid]), pending'))"

text \<open>The arms of \<open>convert_file_events\<close>: each reads its own structure from the item.\<close>

definition convert_open_item :: "('tx, FileEvent) sender \<Rightarrow> 'tx \<Rightarrow> ring_item \<Rightarrow> ('tx, 'x) converted" where
  "convert_open_item try_send tx events =
     (case ptr_read 336 dec_open events of
        Inl f \<Rightarrow> (Inl f, tx, [])
      | Inr event \<Rightarrow> deliver try_send ''file'' tx
          (file_event_open (convert_header (ro_header event))
            (from_utf8_lossy (until_nul (ro_file_path event))) (file_type_from (ro_file_mode event))
            (ro_inode event) (ro_retval event) (ro_flags event)))"

definition convert_close_item :: "('tx, FileEvent) sender \<Rightarrow> 'tx \<Rightarrow> ring_item \<Rightarrow> ('tx, 'x) converted" where
  "convert_close_item try_send tx events =
     (case ptr_read 336 dec_close events of
        Inl f \<Rightarrow> (Inl f, tx, [])
      | Inr event \<Rightarrow> deliver try_send ''file'' tx
          (file_event_close (convert_header (rc_header event))
            (from_utf8_lossy (until_nul (rc_file_path event))) (file_type_from (rc_file_mode event))
            (rc_inode event) (rc_retval event) (rc_flags event)))"

definition convert_read_item :: "('tx, FileEvent) sender \<Rightarrow> 'tx \<Rightarrow> ring_item \<Rightarrow> ('tx, 'x) converted" where
  "convert_read_item try_send tx events =
     (case ptr_read 344 dec_read events of
        Inl f \<Rightarrow> (Inl f, tx, [])
      | Inr event \<Rightarrow> deliver try_send ''file'' tx
          (file_event_read (convert_header (rr_header event))
            (from_utf8_lossy (until_nul (rr_file_path event))) (file_type_from (rr_file_mode event))
            (rr_inode event) (rr_retval event) (rr_flags event)))"

definition convert_write_item :: "('tx, FileEvent) sender \<Rightarrow> 'tx \<Rightarrow> ring_item \<Rightarrow> ('tx, 'x) converted" where
  "convert_write_item try_send tx events =
     (case ptr_read 344 dec_write events of
        Inl f \<Rightarrow> (Inl f, tx, [])
      | Inr event \<Rightarrow> deliver try_send ''file'' tx
          (file_event_write (convert_header (rw_header event))
            (from_utf8_lossy (until_nul (rw_file_path event))) (file_type_from (rw_file_mode event))
            (rw_inode event) (rw_retval event) (rw_flags event)))"

definition convert_delete_item :: "('tx, FileEvent) sender \<Rightarrow> 'tx \<Rightarrow> ring_item \<Rightarrow> ('tx, 'x) converted" where
  "convert_delete_item try_send tx events =
     (case ptr_read 320 dec_delete events of
        Inl f \<Rightarrow> (Inl f, tx, [])
      | Inr event \<Rightarrow> deliver try_send ''file'' tx
          (file_event_delete (convert_header (rd_header event))
            (from_utf8_lossy (until_nul (rd_file_name event))) (file_type_from (rd_file_mode event))
            (rd_retval event)))"

definition convert_rename_item :: "'tx \<Rightarrow> ring_item \<Rightarrow> pending_renames \<Rightarrow> ('tx, 'x) converted \<times> pending_renames" where
  "convert_rename_item tx events pending =
     (case ptr_read 576 dec_rename events of
        Inl f \<Rightarrow> ((Inl f, tx, []), pending)
      | Inr event \<Rightarrow> (case rename_enter event pending of (lg, pending') \<Rightarrow> ((Inr (), tx, lg), pending')))"

definition convert_rtr_item :: "('tx, FileEvent) sender \<Rightarrow> 'tx \<Rightarrow> ring_item \<Rightarrow> pending_renames \<Rightarrow>
    ('tx, 'x) converted \<times> pending_renames" where
  "convert_rtr_item try_send tx events pending =
     (case ptr_read 64 dec_rtr events of
        Inl f \<Rightarrow> ((Inl f, tx, []), pending)
      | Inr ret_event \<Rightarrow> rename_exit try_send tx ret_event pending)"

definition convert_file_events :: "('tx, FileEvent) sender \<Rightarrow> 'tx \<Rightarrow> ring_item \<Rightarrow> pending_renames \<Rightarrow>
    ('tx, 'x) converted \<times> pending_renames" where
  "convert_file_events try_send tx events pending =
     (case ptr_read 56 dec_header events of
        Inl f \<Rightarrow> ((Inl f, tx, []), pending)
      | Inr header \<Rightarrow>
          (case rh_event_type header of
             FileOpen \<Rightarrow> (convert_open_item try_send tx events, pending)
           | FileClose \<Rightarrow> (convert_close_item try_send tx events, pending)
           | FileRead \<Rightarrow> (convert_read_item try_send tx events, pending)
           | FileWrite \<Rightarrow> (convert_write_item try_send tx events, pending)
           | FileDelete \<Rightarrow> (convert_delete_item try_send tx events, pending)
           | FileRename \<Rightarrow> convert_rename_item tx events pending
           | PendingFileRename \<Rightarrow> convert_rtr_item try_send tx events pending
           | _ \<Rightarrow> ((Inr (), tx, []), pending)))"

lemmas convert_file_defs = convert_file_events_def convert_open_item_def convert_close_item_def convert_read_item_def
  convert_write_item_def convert_delete_item_def convert_rename_item_def convert_rtr_item_def

section \<open>What each family is to see\<close>

text \<open>
  The abstract specification: the event a subscriber of a family is to be handed for a structure
  the kernel side has submitted, with no bytes and no channel in sight. It is written out field by
  field and mentions no converter, handler or macro of \<open>core.rs\<close>: the header of the task, the two
  ends of a socket, the rename made of an entry half and a return value.
\<close>

definition header_view :: "RawEventHeader \<Rightarrow> EventHeader" where
  "header_view h =
     \<lparr>eh_timestamp_ns = rh_timestamp_ns h, eh_pid = rh_pid h, eh_tid = rh_tid h, eh_ppid = rh_ppid h,
      eh_uid = rh_uid h, eh_gid = rh_gid h, eh_comm = from_utf8_lossy (until_nul (rh_comm h))\<rparr>"

fun address_view :: "IpVersion \<Rightarrow> u8 list \<Rightarrow> IpAddr" where
  "address_view V4 a = IpV4 (a ! 0) (a ! 1) (a ! 2) (a ! 3)"
| "address_view V6 a = IpV6 a"

definition net_endpoints :: "PendingConnect \<Rightarrow> SocketEndpoints" where
  "net_endpoints c =
     \<lparr>se_local_ip = address_view (pc_ip_version c) (pc_src_addr c), se_local_port = pc_src_port c,
      se_remote_ip = address_view (pc_ip_version c) (pc_dst_addr c), se_remote_port = pc_dst_port c\<rparr>"

definition rename_view :: "RawFileRenameEvent \<Rightarrow> i32 \<Rightarrow> FileEvent" where
  "rename_view e r = FileEvent_Rename \<lparr>fn_header = header_view (rn_header e),
     fn_old_filename = from_utf8_lossy (until_nul (rn_old_filename e)),
     fn_new_filename = from_utf8_lossy (until_nul (rn_new_filename e)),
     fn_file_type = file_type_from (rn_file_mode e), fn_flags = rn_flags e, fn_retval = r\<rparr>"

fun protocol_of_raw :: "RawProtocol \<Rightarrow> Protocol" where
  "protocol_of_raw RawTcp = Tcp"
| "protocol_of_raw RawUdp = Udp"

fun net_view :: "raw_event \<Rightarrow> NetworkEvent option" where
  "net_view (RE_net c) =
     (let h = header_view (pc_header c); ep = net_endpoints c in
      case (rh_event_type (pc_header c), pc_retval c) of
        (Connect, Some r) \<Rightarrow> Some (NetworkEvent_Connect \<lparr>ce_header = h,
          ce_protocol = protocol_of_raw (pc_protocol c), ce_endpoints = ep, ce_retval = r\<rparr>)
      | (Accept, _) \<Rightarrow> Some (NetworkEvent_Accept \<lparr>ae_header = h, ae_protocol = Tcp, ae_endpoints = ep\<rparr>)
      | (Close, _) \<Rightarrow> Some (NetworkEvent_Close \<lparr>cl_header = h,
          cl_protocol = protocol_of_raw (pc_protocol c), cl_endpoints = ep\<rparr>)
      | (Bind, Some r) \<Rightarrow> Some (NetworkEvent_Bind \<lparr>be_header = h, be_protocol = Tcp,
          be_endpoints = ep, be_retval = r\<rparr>)
      | (Listen, Some r) \<Rightarrow> Some (NetworkEvent_Listen \<lparr>le_header = h, le_protocol = Tcp,
          le_endpoints = ep, le_retval = r\<rparr>)
      | _ \<Rightarrow> None)"
| "net_view _ = None"

fun process_view :: "raw_event \<Rightarrow> ProcessEvent option" where
  "process_view (RE_start e) = Some (ProcessEvent_Start \<lparr>ps_header = header_view (rs_header e),
     ps_filename = from_utf8_lossy (until_nul (rs_filename e))\<rparr>)"
| "process_view (RE_exit e) = Some (ProcessEvent_Exit \<lparr>px_header = header_view (rx_header e),
     px_exit_code = rx_exit_code e\<rparr>)"
| "process_view (RE_fork e) = Some (ProcessEvent_Fork \<lparr>pf_parent = header_view (rf_parent e),
     pf_child_pid = rf_child_pid e, pf_child_comm = from_utf8_lossy (until_nul (rf_child_comm e))\<rparr>)"
| "process_view _ = None"

fun mem_view :: "raw_event \<Rightarrow> MemoryEvent option" where
  "mem_view (RE_mmap e) = Some (MemoryEvent_MemoryMap \<lparr>mm_header = header_view (rm_header e),
     mm_requested_address = rm_requested_address e, mm_length = rm_length e,
     mm_protection = rm_protection e, mm_flags = rm_flags e, mm_mapped_address = rm_mapped_address e\<rparr>)"
| "mem_view (RE_munmap e) = Some (MemoryEvent_MemoryUnMap \<lparr>mu_header = header_view (ru_header e),
     mu_requested_address = ru_requested_address e, mu_length = ru_length e,
     mu_mapped_address = ru_mapped_address e\<rparr>)"
| "mem_view _ = None"

text \<open>
  A file event stands for itself, except that a rename needs both halves: \<open>renames\<close> gives the entry
  half that is waiting for a thread.
\<close>

fun file_view :: "raw_event \<Rightarrow> (u32 \<times> u32 \<Rightarrow> RawFileRenameEvent option) \<Rightarrow> FileEvent option" where
  "file_view (RE_open e) _ = Some (FileEvent_Open \<lparr>fo_header = header_view (ro_header e),
     fo_file_path = from_utf8_lossy (until_nul (ro_file_path e)),
     fo_file_type = file_type_from (ro_file_mode e), fo_inode = ro_inode e,
     fo_retval = ro_retval e, fo_flags = ro_flags e\<rparr>)"
| "file_view (RE_close e) _ = Some (FileEvent_Close \<lparr>fc_header = header_view (rc_header e),
     fc_file_path = from_utf8_lossy (until_nul (rc_file_path e)),
     fc_file_type = file_type_from (rc_file_mode e), fc_inode = rc_inode e,
     fc_retval = rc_retval e, fc_flags = rc_flags e\<rparr>)"
| "file_view (RE_read e) _ = Some (FileEvent_Read \<lparr>fr_header = header_view (rr_header e),
     fr_file_path = from_utf8_lossy (until_nul (rr_file_path e)),
     fr_file_type = file_type_from (rr_file_mode e), fr_inode = rr_inode e,
     fr_retval = rr_retval e, fr_flags = rr_flags e\<rparr>)"
| "file_view (RE_write e) _ = Some (FileEvent_Write \<lparr>fw_header = header_view (rw_header e),
     fw_file_path = from_utf8_lossy (until_nul (rw_file_path e)),
     fw_file_type = file_type_from (rw_file_mode e), fw_inode = rw_inode e,
     fw_retval = rw_retval e, fw_flags = rw_flags e\<rparr>)"
| "file_view (RE_delete e) _ = Some (FileEvent_Delete \<lparr>fd_header = header_view (rd_header e),
     fd_filename = from_utf8_lossy (until_nul (rd_file_name e)),
     fd_file_type = file_type_from (rd_file_mode e), fd_retval = rd_retval e\<rparr>)"
| "file_view (RE_rtr e) renames =
     map_option (\<lambda>ev. rename_view ev (rt_retval e)) (renames (rh_pid (rt_header e), rh_tid (rt_header e)))"
| "file_view _ _ = None"


section \<open>The contract of a converter\<close>

text \<open>
  A converter hands its subscriber the view its family has of a structure, and nothing else; an
  event that the channel refuses is logged. \<open>accepts\<close> are the structures it is safe on.
\<close>

locale converter =
  fixes family :: string
    and accepts :: "raw_event \<Rightarrow> bool"
    and view :: "raw_event \<Rightarrow> 'e option"
    and conv :: "('tx, 'e) sender \<Rightarrow> 'tx \<Rightarrow> ring_item \<Rightarrow> ('tx, 'x) converted"
  assumes refines: "wf_raw e \<Longrightarrow> tag_ok e \<Longrightarrow> accepts e \<Longrightarrow>
      conv ts tx (item_of (enc_raw p e) beyond) =
        (case view e of None \<Rightarrow> (Inr (), tx, []) | Some ev \<Rightarrow> deliver ts family tx ev)"
begin

lemma never_faults:
  assumes "wf_raw e" "tag_ok e" "accepts e"
  shows "fst (conv ts tx (item_of (enc_raw p e) beyond)) = Inr ()"
  using assms by (simp add: refines deliver_def split: option.split prod.split send_result.split)

lemma sent_in_view:
  assumes "wf_raw e" "tag_ok e" "accepts e" "view e = Some ev" "ts tx ev = (Sent, tx')"
  shows "conv ts tx (item_of (enc_raw p e) beyond) = (Inr (), tx', [])"
  using assms by (simp add: refines deliver_def)

lemma refused_is_logged:
  assumes "wf_raw e" "tag_ok e" "accepts e" "view e = Some ev" "fst (ts tx ev) \<noteq> Sent"
  shows "\<exists>line. snd (snd (conv ts tx (item_of (enc_raw p e) beyond))) = [Warn line]"
  using assms by (auto simp: refines deliver_def split: prod.splits send_result.splits)

lemma independent_of_padding:
  assumes "wf_raw e" "tag_ok e" "accepts e"
  shows "conv ts tx (item_of (enc_raw p e) beyond) = conv ts tx (item_of (enc_raw q e) beyond')"
  using assms by (simp add: refines)

end

section \<open>The converters satisfy it\<close>

lemma ptr_read_item:
  "length bs = n \<Longrightarrow> dec bs = Some v \<Longrightarrow> ptr_read n dec (item_of bs beyond) = Inr v"
  by (simp add: ptr_read_def)

lemma ptr_read_header:
  assumes "wf_raw e"
  shows "ptr_read 56 dec_header (item_of (enc_raw p e) beyond) = Inr (raw_header e)"
  using assms raw_size_ge_56 [of e]
  by (simp add: ptr_read_def length_enc_raw enc_raw_header wf_raw_header)

lemma ptr_read_raw:
  "wf_net a \<Longrightarrow> ptr_read 112 dec_net (item_of (enc_raw p (RE_net a)) beyond) = Inr a"
  "wf_start b \<Longrightarrow> ptr_read 312 dec_start (item_of (enc_raw p (RE_start b)) beyond) = Inr b"
  "wf_exit c \<Longrightarrow> ptr_read 64 dec_exit (item_of (enc_raw p (RE_exit c)) beyond) = Inr c"
  "wf_fork d \<Longrightarrow> ptr_read 80 dec_fork (item_of (enc_raw p (RE_fork d)) beyond) = Inr d"
  "wf_open f \<Longrightarrow> ptr_read 336 dec_open (item_of (enc_raw p (RE_open f)) beyond) = Inr f"
  "wf_close g \<Longrightarrow> ptr_read 336 dec_close (item_of (enc_raw p (RE_close g)) beyond) = Inr g"
  "wf_read h \<Longrightarrow> ptr_read 344 dec_read (item_of (enc_raw p (RE_read h)) beyond) = Inr h"
  "wf_write i \<Longrightarrow> ptr_read 344 dec_write (item_of (enc_raw p (RE_write i)) beyond) = Inr i"
  "wf_delete j \<Longrightarrow> ptr_read 320 dec_delete (item_of (enc_raw p (RE_delete j)) beyond) = Inr j"
  "wf_rename k \<Longrightarrow> ptr_read 576 dec_rename (item_of (enc_raw p (RE_rename k)) beyond) = Inr k"
  "wf_rtr l \<Longrightarrow> ptr_read 64 dec_rtr (item_of (enc_raw p (RE_rtr l)) beyond) = Inr l"
  "wf_mmap m \<Longrightarrow> ptr_read 88 dec_mmap (item_of (enc_raw p (RE_mmap m)) beyond) = Inr m"
  "wf_munmap n \<Longrightarrow> ptr_read 80 dec_munmap (item_of (enc_raw p (RE_munmap n)) beyond) = Inr n"
  by (simp_all add: ptr_read_item length_enc_net dec_enc_net length_enc_start dec_enc_start
      length_enc_exit dec_enc_exit length_enc_fork dec_enc_fork length_enc_open dec_enc_open
      length_enc_close dec_enc_close length_enc_read dec_enc_read length_enc_write dec_enc_write
      length_enc_delete dec_enc_delete length_enc_rename dec_enc_rename length_enc_rtr dec_enc_rtr
      length_enc_mmap dec_enc_mmap length_enc_munmap dec_enc_munmap)

lemma convert_header_view [conv]: "convert_header h = header_view h"
  by (simp add: convert_header_def header_view_def)

lemma ip_of_view: "ip_of v a = address_view v a"
  by (cases v) (simp_all add: ip_of_def)

lemma parse_network_split: "parse_network_event c = (header_view (pc_header c), net_endpoints c)"
  by (simp add: parse_network_event_def header_view_def net_endpoints_def ip_of_view Let_def)

lemma rename_event_view: "rename_event e r = rename_view e r"
  by (simp add: rename_event_def rename_view_def convert_header_view)

fun is_net :: "raw_event \<Rightarrow> bool" where
  "is_net (RE_net _) = True"
| "is_net _ = False"

lemmas handle_defs [conv] = handle_connect_def handle_tcp_accept_def handle_close_def
  handle_bind_def handle_listen_def

interpretation network_conv: converter "''network''" is_net net_view convert_network_events
proof unfold_locales
  fix e :: raw_event and ts :: "('tx, NetworkEvent) sender" and tx p beyond
  assume "wf_raw e" "tag_ok e" "is_net e"
  then obtain c where "e = RE_net c" "wf_net c" "tag_ok (RE_net c)" by (cases e) auto
  then show "convert_network_events ts tx (item_of (enc_raw p e) beyond) =
      (case net_view e of None \<Rightarrow> (Inr (), tx, []) | Some ev \<Rightarrow> deliver ts ''network'' tx ev)"
    by (auto simp: convert_network_events_def ptr_read_raw conv parse_network_split Let_def
        simp del: enc_raw.simps
        split: EventType.splits RawProtocol.splits option.splits)
qed

interpretation process_conv: converter "''process''" "\<lambda>_. True" process_view convert_process_events
proof unfold_locales
  fix e :: raw_event and ts :: "('tx, ProcessEvent) sender" and tx p beyond
  assume "wf_raw e" "tag_ok e"
  then show "convert_process_events ts tx (item_of (enc_raw p e) beyond) =
      (case process_view e of None \<Rightarrow> (Inr (), tx, []) | Some ev \<Rightarrow> deliver ts ''process'' tx ev)"
    by (cases e) (auto simp: convert_process_events_def convert_header_view ptr_read_header ptr_read_raw simp del: enc_raw.simps)
qed

interpretation mem_conv: converter "''memory''" "\<lambda>_. True" mem_view convert_mem_events
proof unfold_locales
  fix e :: raw_event and ts :: "('tx, MemoryEvent) sender" and tx p beyond
  assume "wf_raw e" "tag_ok e"
  then show "convert_mem_events ts tx (item_of (enc_raw p e) beyond) =
      (case mem_view e of None \<Rightarrow> (Inr (), tx, []) | Some ev \<Rightarrow> deliver ts ''memory'' tx ev)"
    by (cases e) (auto simp: convert_mem_events_def convert_header_view ptr_read_header ptr_read_raw simp del: enc_raw.simps)
qed


text \<open>
  The file converter also keeps the pending renames: \<open>pending_after\<close> is the map it is to leave (an
  entry half is kept under the process and thread of its task while there is room, an exit half
  takes the entry of its thread out), \<open>pending_log\<close> the lines of the two halves.
\<close>

fun pending_after :: "raw_event \<Rightarrow> pending_renames \<Rightarrow> pending_renames" where
  "pending_after (RE_rename e) m =
     (if hm_len m < 1024 then snd (hm_insert (rh_pid (rn_header e), rh_tid (rn_header e)) e m) else m)"
| "pending_after (RE_rtr e) m = snd (hm_remove (rh_pid (rt_header e), rh_tid (rt_header e)) m)"
| "pending_after _ m = m"

fun pending_log :: "raw_event \<Rightarrow> pending_renames \<Rightarrow> log_line list" where
  "pending_log (RE_rename e) m =
     (if hm_len m < 1024 then
        (case hm_get m (rh_pid (rn_header e), rh_tid (rn_header e)) of
           None \<Rightarrow> [Info ''inserted new pending rename'']
         | Some old \<Rightarrow> [WarnReplaced old])
      else [Warn ''pending rename map full (1024 entries), dropping events''])"
| "pending_log (RE_rtr e) m =
     (if hm_get m (rh_pid (rt_header e), rh_tid (rt_header e)) = None
      then [DebugOrphaned (rh_pid (rt_header e), rh_tid (rt_header e))] else [])"
| "pending_log _ m = []"

lemma rename_enter_view: "rename_enter e m = (pending_log (RE_rename e) m, pending_after (RE_rename e) m)"
  by (simp add: rename_enter_def MAX_PENDING_RENAMES_def hm_insert_def hm_get_def Let_def
      split: option.split)

lemma convert_file_refines:
  assumes "wf_raw e" "tag_ok e"
  shows "convert_file_events ts tx (item_of (enc_raw p e) beyond) m =
    ((case file_view e (hm_get m) of
        None \<Rightarrow> (Inr (), tx, pending_log e m)
      | Some ev \<Rightarrow> deliver ts ''file'' tx ev), pending_after e m)"
  using assms
  by (cases e)
     (auto simp: convert_file_defs convert_header_view rename_event_view rename_enter_view ptr_read_header
       ptr_read_raw rename_exit_def hm_remove_def hm_get_def Let_def
       split: option.split prod.split simp del: enc_raw.simps)


fun rename_half :: "raw_event \<Rightarrow> bool" where
  "rename_half (RE_rename _) = True"
| "rename_half (RE_rtr _) = True"
| "rename_half _ = False"

interpretation file_conv: converter "''file''" "\<lambda>e. \<not> rename_half e" "\<lambda>e. file_view e (hm_get m)"
    "\<lambda>ts tx it. fst (convert_file_events ts tx it m)" for m
proof unfold_locales
  fix e :: raw_event and ts :: "('tx, FileEvent) sender" and tx p beyond
  assume wf: "wf_raw e" "tag_ok e" and n: "\<not> rename_half e"
  from n have "pending_log e m = []" by (cases e) auto
  with wf show "fst (convert_file_events ts tx (item_of (enc_raw p e) beyond) m) =
      (case file_view e (hm_get m) of None \<Rightarrow> (Inr (), tx, []) | Some ev \<Rightarrow> deliver ts ''file'' tx ev)"
    by (simp add: convert_file_refines split: option.split)
qed

section \<open>Pending renames\<close>

fun rename_key :: "raw_event \<Rightarrow> (u32 \<times> u32) option" where
  "rename_key (RE_rename e) = Some (rh_pid (rn_header e), rh_tid (rn_header e))"
| "rename_key (RE_rtr e) = Some (rh_pid (rt_header e), rh_tid (rt_header e))"
| "rename_key _ = None"

definition pending_inv :: "pending_renames \<Rightarrow> bool" where
  "pending_inv m =
     (hm_ok m \<and> hm_len m \<le> MAX_PENDING_RENAMES \<and>
      (\<forall>k v. hm_get m k = Some v \<longrightarrow> k = (rh_pid (rn_header v), rh_tid (rn_header v))))"

lemma pending_inv_Nil [simp]: "pending_inv []"
  by (simp add: pending_inv_def)

lemma pending_inv_enter: "pending_inv m \<Longrightarrow> pending_inv (pending_after (RE_rename e) m)"
  by (auto simp: pending_inv_def MAX_PENDING_RENAMES_def hm.insert_ok hm.insert_get
      hm.insert_below_cap split: if_splits)

lemma pending_inv_remove: "pending_inv m \<Longrightarrow> pending_inv (snd (hm_remove k m))"
  by (auto simp: pending_inv_def hm.remove_ok hm.remove_get hm.remove_within_cap split: if_splits)

lemma snd_rename_exit:
  "snd (rename_exit ts tx r m) = snd (hm_remove (rh_pid (rt_header r), rh_tid (rt_header r)) m)"
  by (simp add: rename_exit_def Let_def split: prod.split option.split)

lemma pending_inv_after: "pending_inv m \<Longrightarrow> pending_inv (pending_after e m)"
  using pending_inv_enter [of m] by (cases e) (auto simp: pending_inv_remove)

lemma pending_other_key:
  assumes "pending_inv m" and "rename_key e \<noteq> Some k"
  shows "hm_get (pending_after e m) k = hm_get m k"
  using assms by (cases e) (auto simp: pending_inv_def hm.insert_get hm.remove_get)

lemma pending_fold_other_key:
  assumes "pending_inv m" and "list_all (\<lambda>e. rename_key e \<noteq> Some k) es"
  shows "hm_get (fold pending_after es m) k = hm_get m k \<and> pending_inv (fold pending_after es m)"
  using assms by (induction es arbitrary: m) (auto simp: pending_inv_after pending_other_key)

lemma pending_enter_get:
  assumes "pending_inv m" and "hm_len m < MAX_PENDING_RENAMES" and "rename_key (RE_rename e) = Some k"
  shows "hm_get (pending_after (RE_rename e) m) k = Some e"
  using assms by (auto simp: MAX_PENDING_RENAMES_def pending_inv_def hm.insert_get)


lemma pending_inv_convert:
  "pending_inv m \<Longrightarrow> pending_inv (snd (convert_file_events ts tx it m :: ('tx, 'x) converted \<times> pending_renames))"
proof (cases "ptr_read 56 dec_header it :: 'x fault + RawEventHeader")
  case (Inl f)
  then show "pending_inv m \<Longrightarrow> ?thesis" by (simp add: convert_file_defs)
next
  case (Inr h)
  then show "pending_inv m \<Longrightarrow> ?thesis"
    by (cases "rh_event_type h")
       (simp_all add: convert_file_defs snd_rename_exit rename_enter_view pending_inv_enter
         pending_inv_remove split_beta del: pending_after.simps pending_log.simps split: sum.split)
qed

lemma rename_exit_delivers:
  assumes "wf_raw (RE_rtr r)" "tag_ok (RE_rtr r)" "rename_key (RE_rtr r) = Some k" "hm_get m k = Some e"
  shows "fst (convert_file_events ts tx (item_of (enc_raw p (RE_rtr r)) beyond) m) =
    deliver ts ''file'' tx (rename_view e (rt_retval r))"
  using assms by (auto simp: convert_file_refines simp del: enc_raw.simps)

text \<open>The channel and the pending renames after the file converter has run on an item.\<close>

definition file_step :: "('tx, FileEvent) sender \<Rightarrow> ring_item \<Rightarrow> 'tx \<times> pending_renames \<Rightarrow> 'tx \<times> pending_renames" where
  "file_step ts it st =
     (case (convert_file_events ts (fst st) it (snd st) :: ('tx, unit) converted \<times> pending_renames) of
        ((_, tx', _), m') \<Rightarrow> (tx', m'))"

definition file_image :: "ring_item \<Rightarrow> raw_event \<Rightarrow> bool" where
  "file_image it e = (wf_raw e \<and> tag_ok e \<and> (\<exists>p beyond. it = item_of (enc_raw p e) beyond))"

lemma file_step_pending: "file_image it e \<Longrightarrow> snd (file_step ts it st) = pending_after e (snd st)"
  by (auto simp: file_image_def file_step_def convert_file_refines split: prod.split)

lemma file_steps_pending:
  "list_all2 file_image its es \<Longrightarrow> snd (fold (file_step ts) its st) = fold pending_after es (snd st)"
  by (induction arbitrary: st rule: list_all2_induct) (simp_all add: file_step_pending)

section \<open>Items of other families\<close>

text \<open>
  The text a structure carries right behind its header, where \<open>PendingConnect\<close> has its protocol
  byte.
\<close>

fun event_text :: "raw_event \<Rightarrow> u8 list option" where
  "event_text (RE_start e) = Some (rs_filename e)"
| "event_text (RE_open e) = Some (ro_file_path e)"
| "event_text (RE_close e) = Some (rc_file_path e)"
| "event_text (RE_read e) = Some (rr_file_path e)"
| "event_text (RE_write e) = Some (rw_file_path e)"
| "event_text (RE_delete e) = Some (rd_file_name e)"
| "event_text (RE_rename e) = Some (rn_old_filename e)"
| "event_text _ = None"

lemma enc_text:
  assumes "wf_raw e" "event_text e = Some name"
  shows "length name = 256 \<and> 112 \<le> length (enc_raw p e) \<and> field (enc_raw p e) 56 1 = [name ! 0]"
proof -
  have nth0: "length xs = 256 \<Longrightarrow> field (xs @ ys) 0 1 = [xs ! 0]" for xs ys :: "u8 list"
    by (cases xs) (simp_all add: field_def)
  have nth0': "length xs = 256 \<Longrightarrow> field xs 0 1 = [xs ! 0]" for xs :: "u8 list"
    using nth0 [of xs "[]"] by simp
  show ?thesis
    using assms
    by (cases e)
       (auto simp: enc_start_def wf_start_def enc_open_def wf_open_def enc_close_def wf_close_def
         enc_read_def wf_read_def enc_write_def wf_write_def enc_delete_def wf_delete_def
         enc_rename_def wf_rename_def repr_C_def Let_def align_up_def nth0 nth0'
         simp del: One_nat_def)
qed

lemma protocol_of_disc_None: "protocol_of_disc b = None \<longleftrightarrow> b \<noteq> 1 \<and> b \<noteq> 2"
  by (auto simp: protocol_of_disc_def)

lemma field_take: "off + n \<le> k \<Longrightarrow> field (take k bs) off n = field bs off n"
  by (simp add: field_def drop_take min_def)

lemma dec_net_bad_protocol:
  assumes "of_le (field bs 56 1) \<noteq> (1 :: u8)" "of_le (field bs 56 1) \<noteq> (2 :: u8)"
  shows "dec_net bs = None"
  using assms protocol_of_disc_None [of "of_le (field bs 56 1)"]
  by (simp add: dec_net_def split: option.split)

section \<open>A concrete channel and concrete structures\<close>

text \<open>
  A bounded queue that answers as \<open>tokio::sync::mpsc\<close> documents: \<open>Closed\<close> once the receiver is
  gone, \<open>Full\<close> at its capacity.
\<close>

record 'e chan =
  ch_queue :: "'e list"
  ch_cap :: nat
  ch_open :: bool

definition chan_try_send :: "('e chan, 'e) sender" where
  "chan_try_send c e =
     (if \<not> ch_open c then (Closed, c)
      else if ch_cap c \<le> length (ch_queue c) then (Full, c)
      else (Sent, c\<lparr>ch_queue := ch_queue c @ [e]\<rparr>))"

definition demo_raw_header :: "EventType \<Rightarrow> RawEventHeader" where
  "demo_raw_header et =
     \<lparr>rh_event_type = et, rh_timestamp_ns = 1500000001, rh_pid = 42, rh_tid = 43, rh_ppid = 1,
      rh_uid = 1000, rh_gid = 100, rh_comm = [115, 104] @ replicate 14 0\<rparr>"

definition demo_exit :: RawProcessExitEvent where
  "demo_exit = \<lparr>rx_header = demo_raw_header ProcessExit, rx_exit_code = 256\<rparr>"

definition demo_munmap :: RawMemoryUnmapEvent where
  "demo_munmap = \<lparr>ru_header = demo_raw_header MemoryUnMap, ru_requested_address = 4096,
     ru_length = 8192, ru_mapped_address = 0\<rparr>"

definition demo_net :: PendingConnect where
  "demo_net = \<lparr>pc_header = demo_raw_header Connect, pc_protocol = RawTcp, pc_tid = 43,
     pc_src_port = 4000, pc_dst_port = 0x5000, pc_ip_version = V4,
     pc_src_addr = [127, 0, 0, 1] @ replicate 12 0, pc_dst_addr = [10, 0, 0, 2] @ replicate 12 0,
     pc_retval = Some 0\<rparr>"

definition demo_rename :: "u8 \<Rightarrow> RawFileRenameEvent" where
  "demo_rename c = \<lparr>rn_header = demo_raw_header FileRename, rn_old_filename = c # replicate 255 0,
     rn_new_filename = [98] @ replicate 255 0, rn_file_mode = \<lparr>mode = 1\<rparr>, rn_flags = 0\<rparr>"

definition demo_rtr :: RawFileRtrEvent where
  "demo_rtr = \<lparr>rt_header = demo_raw_header PendingFileRename, rt_retval = 0\<rparr>"

definition demo_full :: pending_renames where
  "demo_full = ((42, 43), demo_rename 97) # map (\<lambda>i. ((word_of_nat i, 7), demo_rename 97)) [0..<1023]"

definition demo_chan :: "'e chan" where
  "demo_chan = \<lparr>ch_queue = [], ch_cap = 4, ch_open = True\<rparr>"

lemma demo_ok:
  "wf_raw (RE_exit demo_exit)" "tag_ok (RE_exit demo_exit)"
  "wf_raw (RE_munmap demo_munmap)" "tag_ok (RE_munmap demo_munmap)"
  "wf_raw (RE_net demo_net)" "tag_ok (RE_net demo_net)"
  "wf_raw (RE_rename (demo_rename c))" "tag_ok (RE_rename (demo_rename c))"
  "wf_raw (RE_rtr demo_rtr)" "tag_ok (RE_rtr demo_rtr)"
  by (simp_all add: demo_exit_def demo_munmap_def demo_net_def demo_rename_def demo_rtr_def
      demo_raw_header_def wf_exit_def wf_munmap_def wf_net_def wf_rename_def wf_rtr_def wf_header_def)

lemma deliver_demo: "deliver chan_try_send f demo_chan e = (Inr (), demo_chan\<lparr>ch_queue := [e]\<rparr>, [])"
  by (simp add: deliver_def chan_try_send_def demo_chan_def)

section \<open>Properties\<close>

text \<open>
  The process converter refines its specification: on the memory image of any well-formed
  structure the kernel side submits (whatever the padding holds and whatever lies behind the item)
  it hands the channel exactly the process event of that structure, and does nothing on the
  structures of the other families; it never faults.
\<close>

theorem process_conversion_refines:
  assumes "wf_raw e" and "tag_ok e"
  shows "convert_process_events ts tx (item_of (enc_raw p e) beyond) =
    (case process_view e of None \<Rightarrow> (Inr (), tx, []) | Some ev \<Rightarrow> deliver ts ''process'' tx ev)"
  using assms by (rule process_conv.refines) simp

theorem process_conversion_refines_witness:
  "(convert_process_events chan_try_send demo_chan (item_of (enc_raw (\<lambda>_. 0) (RE_exit demo_exit)) (\<lambda>_. 7))
      :: (ProcessEvent chan, unit) converted) =
    (Inr (), demo_chan\<lparr>ch_queue := [ProcessEvent_Exit
       \<lparr>px_header = header_view (demo_raw_header ProcessExit), px_exit_code = 256\<rparr>]\<rparr>, [])"
  by (subst process_conversion_refines [OF demo_ok(1,2)]) (simp add: deliver_demo demo_exit_def)

text \<open>The same for the memory converter.\<close>

theorem memory_conversion_refines:
  assumes "wf_raw e" and "tag_ok e"
  shows "convert_mem_events ts tx (item_of (enc_raw p e) beyond) =
    (case mem_view e of None \<Rightarrow> (Inr (), tx, []) | Some ev \<Rightarrow> deliver ts ''memory'' tx ev)"
  using assms by (rule mem_conv.refines) simp

theorem memory_conversion_refines_witness:
  "\<exists>ev. (convert_mem_events chan_try_send demo_chan (item_of (enc_raw (\<lambda>_. 0) (RE_munmap demo_munmap)) (\<lambda>_. 7))
      :: (MemoryEvent chan, unit) converted) =
    (Inr (), demo_chan\<lparr>ch_queue := [MemoryEvent_MemoryUnMap ev]\<rparr>, []) \<and> mu_length ev = 8192"
  by (subst memory_conversion_refines [OF demo_ok(3,4)]) (auto simp: deliver_demo demo_munmap_def)

text \<open>
  On the memory image of a network structure the network converter hands the channel exactly
  the network event of that structure: the \<open>unwrap\<close> of the return value never panics on what the
  kernel side produces.
\<close>

theorem network_conversion_refines:
  assumes "wf_net c" and "tag_ok (RE_net c)"
  shows "\<exists>ev. net_view (RE_net c) = Some ev \<and>
    convert_network_events ts tx (item_of (enc_net p c) beyond) = deliver ts ''network'' tx ev"
proof -
  obtain ev where ev: "net_view (RE_net c) = Some ev"
    using assms(2) by (auto simp: Let_def split: option.split)
  moreover have "convert_network_events ts tx (item_of (enc_raw p (RE_net c)) beyond) =
      deliver ts ''network'' tx ev"
    using network_conv.refines [of "RE_net c" ts tx p beyond] assms ev by simp
  ultimately show ?thesis by simp
qed

theorem network_conversion_refines_witness:
  "\<exists>ev. (convert_network_events chan_try_send demo_chan (item_of (enc_net (\<lambda>_. 0) demo_net) (\<lambda>_. 7))
      :: (NetworkEvent chan, unit) converted) = (Inr (), demo_chan\<lparr>ch_queue := [ev]\<rparr>, [])"
  using network_conversion_refines [of demo_net chan_try_send demo_chan "\<lambda>_. 0" "\<lambda>_. 7"] demo_ok(5,6)
  by (auto simp: deliver_demo)

text \<open>
  C20: the file converter hands the channel the file event of a structure, every field of it taken
  from its own field of the structure. The entry half of a rename is kept in the pending map under
  its process and thread while fewer than 1024 are pending, with a line that says whether it
  replaced one, and is dropped with a warning otherwise; its exit half takes the rename that is
  pending for its thread out of the map and delivers it, or logs that there is none.
\<close>

theorem file_conversion_refines:
  assumes "wf_raw e" and "tag_ok e"
  shows "convert_file_events ts tx (item_of (enc_raw p e) beyond) m =
    ((case file_view e (hm_get m) of
        None \<Rightarrow> (Inr (), tx, pending_log e m)
      | Some ev \<Rightarrow> deliver ts ''file'' tx ev), pending_after e m)"
  using assms by (rule convert_file_refines)

theorem file_conversion_refines_witness:
  "(convert_file_events chan_try_send demo_chan (item_of (enc_raw (\<lambda>_. 0) (RE_rename (demo_rename 97))) (\<lambda>_. 7))
      [] :: (FileEvent chan, unit) converted \<times> pending_renames) =
    ((Inr (), demo_chan, [Info ''inserted new pending rename'']), [((42, 43), demo_rename 97)]) \<and>
   (convert_file_events chan_try_send demo_chan (item_of (enc_raw (\<lambda>_. 0) (RE_rtr demo_rtr)) (\<lambda>_. 7))
      [((42, 43), demo_rename 97)] :: (FileEvent chan, unit) converted \<times> pending_renames) =
    ((Inr (), demo_chan\<lparr>ch_queue := [rename_view (demo_rename 97) 0]\<rparr>, []), [])"
proof
  have key: "rh_pid (rn_header (demo_rename 97)) = 42" "rh_tid (rn_header (demo_rename 97)) = 43"
    by (simp_all add: demo_rename_def demo_raw_header_def)
  show "(convert_file_events chan_try_send demo_chan (item_of (enc_raw (\<lambda>_. 0) (RE_rename (demo_rename 97))) (\<lambda>_. 7))
      [] :: (FileEvent chan, unit) converted \<times> pending_renames) =
    ((Inr (), demo_chan, [Info ''inserted new pending rename'']), [((42, 43), demo_rename 97)])"
    by (subst file_conversion_refines [OF demo_ok(7,8)]) (simp add: key hm_get_def hm_insert_def hm_len_def)
  show "(convert_file_events chan_try_send demo_chan (item_of (enc_raw (\<lambda>_. 0) (RE_rtr demo_rtr)) (\<lambda>_. 7))
      [((42, 43), demo_rename 97)] :: (FileEvent chan, unit) converted \<times> pending_renames) =
    ((Inr (), demo_chan\<lparr>ch_queue := [rename_view (demo_rename 97) 0]\<rparr>, []), [])"
    by (subst file_conversion_refines [OF demo_ok(9,10)])
       (simp add: deliver_demo demo_rtr_def demo_raw_header_def hm_get_def hm_remove_def)
qed

text \<open>
  C22: whatever bytes an item holds, the file converter keeps the pending renames a map of at most
  1024 entries, each under the process and thread of its own header.
\<close>

theorem pending_renames_bounded:
  assumes "pending_inv m"
  shows "pending_inv (snd (convert_file_events ts tx it m :: ('tx, 'x) converted \<times> pending_renames)) \<and>
    hm_len (snd (convert_file_events ts tx it m :: ('tx, 'x) converted \<times> pending_renames)) \<le> 1024"
  using pending_inv_convert [OF assms, of ts tx it] by (auto simp: pending_inv_def MAX_PENDING_RENAMES_def)

theorem pending_renames_bounded_witness:
  "hm_len (snd (convert_file_events chan_try_send demo_chan
       (item_of (enc_raw (\<lambda>_. 0) (RE_rename (demo_rename 97))) (\<lambda>_. 7)) []
       :: (FileEvent chan, unit) converted \<times> pending_renames)) \<le> 1024"
  by (rule conjunct2 [OF pending_renames_bounded [OF pending_inv_Nil]])

text \<open>
  C21: a rename is reported with the names of its own entry half and the return value of its exit
  half: if the pending map has room when the item of the entry event of a thread comes, then
  whatever items follow, as long as no other rename event of that thread is among them, the item of
  its exit event delivers that very rename.
\<close>

theorem rename_halves_paired:
  assumes "pending_inv m" "hm_len m < 1024" "rename_key (RE_rename e) = Some k"
    and "list_all (\<lambda>x. rename_key x \<noteq> Some k) es" "list_all2 file_image (it # its) (RE_rename e # es)"
    and "wf_raw (RE_rtr r)" "tag_ok (RE_rtr r)" "rename_key (RE_rtr r) = Some k"
    and "fold (file_step ts) (it # its) (tx, m) = (tx', m')"
  shows "fst (convert_file_events ts tx' (item_of (enc_raw p (RE_rtr r)) beyond) m') =
    deliver ts ''file'' tx' (rename_view e (rt_retval r))"
proof -
  have "m' = fold pending_after (RE_rename e # es) m"
    using file_steps_pending [OF assms(5), of ts "(tx, m)"] assms(9) by simp
  moreover have "hm_get (fold pending_after (RE_rename e # es) m) k = Some e"
    using pending_enter_get [OF assms(1) _ assms(3)] assms(2)
      pending_fold_other_key [OF pending_inv_after [OF assms(1)] assms(4), of "RE_rename e"]
    by (simp add: MAX_PENDING_RENAMES_def)
  ultimately have "hm_get m' k = Some e" by (simp only:)
  then show ?thesis by (rule rename_exit_delivers [OF assms(6-8)])
qed

theorem rename_halves_paired_witness:
  "\<exists>m'. fold (file_step chan_try_send) (map (\<lambda>x. item_of (enc_raw (\<lambda>_. 0) x) (\<lambda>_. 7))
       [RE_rename (demo_rename 97), RE_exit demo_exit]) (demo_chan, []) = (demo_chan, m') \<and>
     fst (convert_file_events chan_try_send demo_chan (item_of (enc_raw (\<lambda>_. 0) (RE_rtr demo_rtr)) (\<lambda>_. 7)) m' ::
       (FileEvent chan, unit) converted \<times> pending_renames) =
     (Inr (), demo_chan\<lparr>ch_queue := [rename_view (demo_rename 97) 0]\<rparr>, [])"
proof -
  let ?img = "\<lambda>x. item_of (enc_raw (\<lambda>_. 0) x) (\<lambda>_. 7)"
  have img: "list_all2 file_image (?img (RE_rename (demo_rename 97)) # [?img (RE_exit demo_exit)])
      (RE_rename (demo_rename 97) # [RE_exit demo_exit])"
    using demo_ok by (auto simp: file_image_def simp del: enc_raw.simps wf_raw.simps tag_ok.simps)
  have "file_step chan_try_send (?img x) (demo_chan, m) = (demo_chan, pending_after x m)"
    if "x \<in> {RE_rename (demo_rename 97), RE_exit demo_exit}" for x m
    using that demo_ok by (auto simp: file_step_def convert_file_refines simp del: enc_raw.simps wf_raw.simps tag_ok.simps)
  then obtain m' where m: "fold (file_step chan_try_send) (?img (RE_rename (demo_rename 97)) # [?img (RE_exit demo_exit)])
      (demo_chan, []) = (demo_chan, m')"
    by (simp del: enc_raw.simps)
  have key: "rename_key (RE_rename (demo_rename 97)) = Some (42, 43)" "rename_key (RE_rtr demo_rtr) = Some (42, 43)"
    "rt_retval demo_rtr = 0"
    by (simp_all add: demo_rename_def demo_rtr_def demo_raw_header_def)
  have "fst (convert_file_events chan_try_send demo_chan (?img (RE_rtr demo_rtr)) m' ::
       (FileEvent chan, unit) converted \<times> pending_renames) =
     (Inr (), demo_chan\<lparr>ch_queue := [rename_view (demo_rename 97) 0]\<rparr>, [])"
    by (subst rename_halves_paired [OF pending_inv_Nil _ key(1) _ img demo_ok(9,10) key(2) m])
       (simp_all add: deliver_demo key)
  with m show ?thesis by (auto simp del: enc_raw.simps)
qed

text \<open>
  C34: once 1024 renames are pending, the entry half of a further rename is dropped even when its
  thread already has an entry; the exit half then reports the names of the earlier rename with the
  return value of the later one.
\<close>

theorem full_map_reports_stale_rename:
  assumes "1024 \<le> hm_len m" "rename_key (RE_rename e) = Some k" "hm_get m k = Some old"
    and "file_image it (RE_rename e)" "file_step ts it (tx, m) = (tx', m')"
    and "wf_raw (RE_rtr r)" "tag_ok (RE_rtr r)" "rename_key (RE_rtr r) = Some k"
  shows "fst (convert_file_events ts tx' (item_of (enc_raw p (RE_rtr r)) beyond) m') =
    deliver ts ''file'' tx' (rename_view old (rt_retval r))"
proof (rule rename_exit_delivers [OF assms(6-8)])
  show "hm_get m' k = Some old"
    using file_step_pending [OF assms(4), of ts "(tx, m)"] assms(1-3,5) by simp
qed

theorem full_map_reports_stale_rename_witness:
  "\<exists>m'. file_step chan_try_send (item_of (enc_raw (\<lambda>_. 0) (RE_rename (demo_rename 99))) (\<lambda>_. 7)) (demo_chan, demo_full) =
       (demo_chan, m') \<and>
     fst (convert_file_events chan_try_send demo_chan (item_of (enc_raw (\<lambda>_. 0) (RE_rtr demo_rtr)) (\<lambda>_. 7)) m' ::
       (FileEvent chan, unit) converted \<times> pending_renames) =
     (Inr (), demo_chan\<lparr>ch_queue := [rename_view (demo_rename 97) 0]\<rparr>, [])"
proof -
  let ?it = "item_of (enc_raw (\<lambda>_. 0) (RE_rename (demo_rename 99))) (\<lambda>_. 7)"
  have img: "file_image ?it (RE_rename (demo_rename 99))"
    using demo_ok(7,8) by (auto simp: file_image_def simp del: enc_raw.simps wf_raw.simps tag_ok.simps)
  have full: "1024 \<le> hm_len demo_full" "hm_get demo_full (42, 43) = Some (demo_rename 97)"
    by (simp_all add: demo_full_def hm_len_def hm_get_def)
  have key: "rename_key (RE_rename (demo_rename 99)) = Some (42, 43)" "rename_key (RE_rtr demo_rtr) = Some (42, 43)"
    "rt_retval demo_rtr = 0"
    by (simp_all add: demo_rename_def demo_rtr_def demo_raw_header_def)
  obtain m' where m: "file_step chan_try_send ?it (demo_chan, demo_full) = (demo_chan, m')"
    using demo_ok(7,8) by (auto simp: file_step_def convert_file_refines simp del: enc_raw.simps wf_raw.simps tag_ok.simps)
  have "fst (convert_file_events chan_try_send demo_chan (item_of (enc_raw (\<lambda>_. 0) (RE_rtr demo_rtr)) (\<lambda>_. 7)) m' ::
       (FileEvent chan, unit) converted \<times> pending_renames) =
     (Inr (), demo_chan\<lparr>ch_queue := [rename_view (demo_rename 97) 0]\<rparr>, [])"
    by (subst full_map_reports_stale_rename [OF full(1) key(1) full(2) img m demo_ok(9,10) key(2)])
       (simp add: deliver_demo key)
  with m show ?thesis by (auto simp del: enc_raw.simps)
qed


lemma foreign_text_undefined:
  assumes "wf_raw e" and "event_text e = Some name" and "name ! 0 \<noteq> 1" "name ! 0 \<noteq> 2"
  shows "convert_network_events ts tx (item_of (enc_raw p e) beyond) = (Inl UndefinedBehaviour, tx, [])"
proof -
  have "112 \<le> length (enc_raw p e)" and f: "field (enc_raw p e) 56 1 = [name ! 0]"
    using enc_text [OF assms(1)] assms(2) by auto
  then have "dec_net (read_bytes (item_of (enc_raw p e) beyond) 112) = None"
    using assms(3,4) by (intro dec_net_bad_protocol) (simp_all add: field_take del: One_nat_def)
  then show ?thesis by (simp add: convert_network_events_def ptr_read_def)
qed

text \<open>
  The network converter reads a \<open>PendingConnect\<close> at the start of every item before it looks at
  the type. An item of a process exit, a fork, a rename exit or a memory event is shorter than
  that, so the read goes past its end; on the others the byte taken for the protocol is the first
  byte of a path or name, and unless it happens to be 1 or 2 the read has no defined value.
\<close>

theorem network_converter_reads_foreign_items:
  assumes "wf_raw e" and "\<not> is_net e"
  shows "(event_text e = None \<longrightarrow> \<not> read_in_bounds (item_of (enc_raw p e) beyond) 112) \<and>
    (\<forall>name. event_text e = Some name \<and> name ! 0 \<noteq> 1 \<and> name ! 0 \<noteq> 2 \<longrightarrow>
       convert_network_events ts tx (item_of (enc_raw p e) beyond) = (Inl UndefinedBehaviour, tx, []))"
proof (intro conjI impI allI)
  assume "event_text e = None"
  with assms show "\<not> read_in_bounds (item_of (enc_raw p e) beyond) 112"
    by (cases e) (simp_all add: read_in_bounds_def wire)
qed (auto intro: foreign_text_undefined [OF assms(1)])

theorem network_converter_reads_foreign_items_witness:
  "\<not> read_in_bounds (item_of (enc_raw (\<lambda>_. 0) (RE_exit demo_exit)) (\<lambda>_. 7)) 112 \<and>
   (convert_network_events chan_try_send demo_chan
      (item_of (enc_raw (\<lambda>_. 0) (RE_rename (demo_rename 97))) (\<lambda>_. 7)) :: (NetworkEvent chan, unit) converted) =
     (Inl UndefinedBehaviour, demo_chan, [])"
  using network_converter_reads_foreign_items [OF demo_ok(1), of "\<lambda>_. 0" "\<lambda>_. 7" chan_try_send demo_chan]
    network_converter_reads_foreign_items [OF demo_ok(7), of 97 "\<lambda>_. 0" "\<lambda>_. 7" chan_try_send demo_chan]
  by (simp add: demo_rename_def del: enc_raw.simps)

text \<open>
  C32: the command name of a converted header is valid UTF-8 without a NUL, whatever the bytes; the
  name of a task whose bytes are valid UTF-8 arrives unchanged, cut at its first NUL. The process,
  thread, parent, user, group and time are copied, each into its own field, and the network family
  converts its header in the same way.
\<close>

theorem header_conversion_exact:
  "0 \<notin> set (map char_byte (eh_comm (convert_header h))) \<and>
   utf8_valid (map char_byte (eh_comm (convert_header h))) \<and>
   (\<forall>s rest. rh_comm h = s @ 0 # rest \<and> 0 \<notin> set s \<and> utf8_valid s \<longrightarrow>
      map char_byte (eh_comm (convert_header h)) = s) \<and>
   header_process (convert_header h) = \<lparr>pi_pid = rh_pid h, pi_tid = rh_tid h\<rparr> \<and>
   eh_ppid (convert_header h) = rh_ppid h \<and>
   eh_uid (convert_header h) = rh_uid h \<and>
   eh_gid (convert_header h) = rh_gid h \<and>
   eh_timestamp_ns (convert_header h) = rh_timestamp_ns h \<and>
   fst (parse_network_event (c\<lparr>pc_header := h\<rparr>)) = convert_header h"
proof (intro conjI allI impI)
  show "0 \<notin> set (map char_byte (eh_comm (convert_header h)))"
    using utf8_lossy_no_nul [OF until_nul_no_nul, of "rh_comm h"]
    by (simp add: convert_header_def from_utf8_lossy_def image_image)
  show "utf8_valid (map char_byte (eh_comm (convert_header h)))"
    by (simp add: convert_header_def from_utf8_lossy_valid)
  show "map char_byte (eh_comm (convert_header h)) = s"
    if "rh_comm h = s @ 0 # rest \<and> 0 \<notin> set s \<and> utf8_valid s" for s rest
    using that by (simp add: convert_header_def until_nul_append_nul from_utf8_lossy_id)
qed (simp_all add: convert_header_def header_process_def parse_network_event_def Let_def)

theorem header_conversion_exact_witness:
  "map char_byte (eh_comm (convert_header (demo_raw_header Connect))) = [115, 104] \<and>
   eh_uid (convert_header (demo_raw_header Connect)) = 1000 \<and>
   eh_gid (fst (parse_network_event demo_net)) = 100"
proof -
  have "utf8_valid [115, 104]" by (rule utf8_valid_ascii) simp
  moreover have "rh_comm (demo_raw_header Connect) = [115, 104] @ 0 # replicate 13 0"
    by (simp add: demo_raw_header_def flip: replicate_Suc)
  moreover have "rh_uid (demo_raw_header Connect) = 1000" "rh_gid (demo_raw_header Connect) = 100"
    "demo_net\<lparr>pc_header := demo_raw_header Connect\<rparr> = demo_net"
    by (simp_all add: demo_raw_header_def demo_net_def)
  ultimately show ?thesis
    using header_conversion_exact [of "demo_raw_header Connect" demo_net] by simp
qed

end
