(* ===== verification/Ebpf_Core.thy ===== *)
theory Ebpf_Core
  imports Bpfx_Raw
begin

text \<open>
  The eBPF object, \<open>bpfx-ebpf/src/main.rs\<close>, first part: its maps, the header of an event, the
  process filter, the file type filter. What a program obtains from the kernel, from \<open>aya_ebpf\<close>
  and from the generated bindings during one invocation is the record \<open>kenv\<close>, an argument of every
  program: the values the BPF helpers return, the arguments of the hook, the memory the program
  reads (an \<open>option\<close> where the helper can fail; a read through a typed pointer cannot), whether a
  reservation in the ring buffer of a given size succeeds and whether an insertion in a hash map
  does. The maps of the object are the record \<open>kstate\<close>; per-CPU arrays are indexed by CPU.
  \<open>EVENTS\<close> lists what has been submitted, oldest first.
\<close>

section \<open>Environment and state\<close>

record kenv =
  k_cpu :: nat
  k_pid_tgid :: u64
  k_ktime :: u64
  k_uid_gid :: u64
  k_real_parent :: "u64 option"
  k_tgid_of :: "u64 \<Rightarrow> i32 option"
  k_comm :: "u8 list option"
  k_reserve :: "nat \<Rightarrow> bool"
  k_map_insert :: bool
  k_arg :: "nat \<Rightarrow> u64"
  k_ret :: "u64 option"
  k_read_at :: "nat \<Rightarrow> u32 option"
  k_ctx_ptr :: u64
  k_skc_daddr :: "u64 \<Rightarrow> u32 option"
  k_skc_rcv_saddr :: "u64 \<Rightarrow> u32 option"
  k_skc_dport :: "u64 \<Rightarrow> u16 option"
  k_skc_num :: "u64 \<Rightarrow> u16 option"
  k_skc_family :: "u64 \<Rightarrow> u16 option"
  k_skc_v6_daddr :: "u64 \<Rightarrow> u8 list option"
  k_skc_v6_rcv_saddr :: "u64 \<Rightarrow> u8 list option"
  k_socket_sk :: "u64 \<Rightarrow> u64"
  k_f_inode :: "u64 \<Rightarrow> u64"
  k_f_flags :: "u64 \<Rightarrow> u32"
  k_f_path :: "u64 \<Rightarrow> u64"
  k_i_mode :: "u64 \<Rightarrow> u16"
  k_i_ino :: "u64 \<Rightarrow> u64"
  k_d_inode :: "u64 \<Rightarrow> u64"
  k_d_name :: "u64 \<Rightarrow> u64"
  k_old_dentry :: "u64 \<Rightarrow> u64"
  k_new_dentry :: "u64 \<Rightarrow> u64"
  k_read_str :: "u64 \<Rightarrow> u8 list \<Rightarrow> u8 list"
  k_d_path :: "u64 \<Rightarrow> u8 list \<Rightarrow> isize \<times> u8 list"

record kstate =
  EVENTS :: "raw_event list"
  CONFIG :: "u32 \<Rightarrow> FileModeFilter option"
  TEMP :: "nat \<Rightarrow> RawFileRenameEvent option"
  FILTER :: "u32 \<Rightarrow> FilterKey option"
  FILE_PATH_MAP :: "u64 \<Rightarrow> RawFilePath option"
  PATH_BUF :: "nat \<Rightarrow> u8 list option"

text \<open>How a program ends. A panic would run the object's panic handler, an empty endless loop.\<close>

datatype kres = KOk i32 | KErr i32 | KPanic

definition submit :: "raw_event \<Rightarrow> kstate \<Rightarrow> kstate" where
  "submit e s = s\<lparr>EVENTS := EVENTS s @ [e]\<rparr>"

section \<open>Headers\<close>

definition collect_process_ctx :: "kenv \<Rightarrow> u64 \<times> u32 \<times> u32 \<times> u32 \<times> u32 \<times> u32 \<times> u8 list" where
  "collect_process_ctx env =
     (let tgid = k_pid_tgid env;
          pid = ucast (drop_bit 32 tgid);
          tid = ucast tgid;
          timestamp = k_ktime env;
          uid_gid = k_uid_gid env;
          uid = ucast uid_gid;
          gid = ucast (drop_bit 32 uid_gid);
          parent_ptr = (case k_real_parent env of Some p \<Rightarrow> p | None \<Rightarrow> 0);
          ppid = (if parent_ptr = 0 then 0
                  else case k_tgid_of env parent_ptr of Some t \<Rightarrow> t | None \<Rightarrow> 0);
          comm = (case k_comm env of Some c \<Rightarrow> c | None \<Rightarrow> replicate TASK_COMM_LEN 0)
      in (timestamp, pid, tid, ppid, uid, gid, comm))"

definition build_event_header :: "kenv \<Rightarrow> EventType \<Rightarrow> RawEventHeader" where
  "build_event_header env et =
     (case collect_process_ctx env of (timestamp, pid, tid, ppid, uid, gid, comm) \<Rightarrow>
        \<lparr>rh_event_type = et, rh_timestamp_ns = timestamp, rh_pid = pid, rh_tid = tid,
         rh_ppid = ppid, rh_uid = uid, rh_gid = gid, rh_comm = comm\<rparr>)"

section \<open>The process filter\<close>

definition filter_events :: "kstate \<Rightarrow> FilterOwner \<Rightarrow> RawEventHeader \<Rightarrow> bool" where
  "filter_events s owner header =
     (case FILTER s (filter_owner_u32 owner) of
        None \<Rightarrow> False
      | Some key \<Rightarrow>
          (case key of
             FilterNone \<Rightarrow> False
           | Pid pid \<Rightarrow> rh_pid header \<noteq> pid
           | Tid tid \<Rightarrow> rh_tid header \<noteq> tid
           | Uid uid \<Rightarrow> rh_uid header \<noteq> uid
           | Ppid ppid \<Rightarrow> rh_ppid header \<noteq> ppid
           | Gid gid \<Rightarrow> rh_gid header \<noteq> gid))"

text \<open>What the filter is meant to select, from the documentation of \<open>FilterKey\<close>.\<close>

fun key_matches :: "FilterKey \<Rightarrow> RawEventHeader \<Rightarrow> bool" where
  "key_matches FilterNone h = True"
| "key_matches (Pid n) h = (rh_pid h = n)"
| "key_matches (Tid n) h = (rh_tid h = n)"
| "key_matches (Ppid n) h = (rh_ppid h = n)"
| "key_matches (Uid n) h = (rh_uid h = n)"
| "key_matches (Gid n) h = (rh_gid h = n)"

section \<open>The file type filter\<close>

definition S_IFMT :: u16 where "S_IFMT = 0xF000"
definition S_IFIFO :: u16 where "S_IFIFO = 0x1000"
definition S_IFCHR :: u16 where "S_IFCHR = 0x2000"
definition S_IFDIR :: u16 where "S_IFDIR = 0x4000"
definition S_IFBLK :: u16 where "S_IFBLK = 0x6000"
definition S_IFREG :: u16 where "S_IFREG = 0x8000"
definition S_IFLNK :: u16 where "S_IFLNK = 0xA000"
definition S_IFSOCK :: u16 where "S_IFSOCK = 0xC000"

definition type_of_mode :: "u16 \<Rightarrow> u16" where
  "type_of_mode i_mode =
     (let m = i_mode AND S_IFMT in
      if m = S_IFREG then FILE_REG
      else if m = S_IFDIR then FILE_DIR
      else if m = S_IFCHR then FILE_CHR
      else if m = S_IFBLK then FILE_BLK
      else if m = S_IFIFO then FILE_FIFO
      else if m = S_IFLNK then FILE_LNK
      else if m = S_IFSOCK then FILE_SOCK
      else 0)"

definition capture_file :: "kenv \<Rightarrow> kstate \<Rightarrow> u64 \<Rightarrow> bool \<times> FileModeFilter" where
  "capture_file env s file =
     (case CONFIG s 0 of
        None \<Rightarrow> (False, \<lparr>mode = 0\<rparr>)
      | Some config \<Rightarrow>
          (let ty = type_of_mode (k_i_mode env (k_f_inode env file)) in
           (mode config AND ty \<noteq> 0, \<lparr>mode = ty\<rparr>)))"

definition capture_inode :: "kenv \<Rightarrow> kstate \<Rightarrow> u64 \<Rightarrow> bool \<times> FileModeFilter" where
  "capture_inode env s inode =
     (case CONFIG s 0 of
        None \<Rightarrow> (False, \<lparr>mode = 0\<rparr>)
      | Some config \<Rightarrow>
          (let ty = type_of_mode (k_i_mode env inode) in
           (mode config AND ty \<noteq> 0, \<lparr>mode = ty\<rparr>)))"

text \<open>
  What the selection is meant to be: the type bit that \<open>FileModeFilter\<close> has for each of the seven
  formats of \<open>stat.h\<close>, and none for any other.
\<close>

definition format_bit :: "u16 \<Rightarrow> u16" where
  "format_bit m =
     (case map_of [(0x8000, 1), (0x4000, 2), (0x2000, 4), (0x6000, 8), (0x1000, 16), (0xA000, 32), (0xC000, 64)]
        (m AND 0xF000) of None \<Rightarrow> 0 | Some b \<Rightarrow> b)"

lemmas file_mode_consts = S_IFMT_def S_IFIFO_def S_IFCHR_def S_IFDIR_def S_IFBLK_def S_IFREG_def
  S_IFLNK_def S_IFSOCK_def

section \<open>Typing of the environment and of the maps\<close>

text \<open>
  The fixed sizes that the Rust types of the helpers and of the maps guarantee: \<open>[u8; 16]\<close> for a
  command name and an IPv6 address, \<open>[u8; 256]\<close> for the path and name buffers; the helpers that
  write into a buffer leave its size alone.
\<close>

definition wf_env :: "kenv \<Rightarrow> bool" where
  "wf_env env =
     ((\<forall>c. k_comm env = Some c \<longrightarrow> length c = 16) \<and>
      (\<forall>p a. k_skc_v6_daddr env p = Some a \<longrightarrow> length a = 16) \<and>
      (\<forall>p a. k_skc_v6_rcv_saddr env p = Some a \<longrightarrow> length a = 16) \<and>
      (\<forall>p b. length (k_read_str env p b) = length b) \<and>
      (\<forall>p b. length (snd (k_d_path env p b)) = length b))"

definition wf_kstate :: "kstate \<Rightarrow> bool" where
  "wf_kstate s =
     ((\<forall>c t. TEMP s c = Some t \<longrightarrow> length (rn_old_filename t) = 256 \<and> length (rn_new_filename t) = 256) \<and>
      (\<forall>c b. PATH_BUF s c = Some b \<longrightarrow> length b = 256) \<and>
      (\<forall>k v. FILE_PATH_MAP s k = Some v \<longrightarrow> length (filepath v) = 256))"

section \<open>Lemmas\<close>

lemma submit_simps [simp]:
  "EVENTS (submit e s) = EVENTS s @ [e]" "CONFIG (submit e s) = CONFIG s" "TEMP (submit e s) = TEMP s"
  "FILTER (submit e s) = FILTER s" "FILE_PATH_MAP (submit e s) = FILE_PATH_MAP s"
  "PATH_BUF (submit e s) = PATH_BUF s"
  by (simp_all add: submit_def)

lemma filter_events_iff:
  "filter_events s owner h \<longleftrightarrow>
     (\<exists>key. FILTER s (filter_owner_u32 owner) = Some key \<and> \<not> key_matches key h)"
  by (auto simp: filter_events_def split: option.splits FilterKey.splits)

lemma filter_events_cong:
  "FILTER s = FILTER t \<Longrightarrow> filter_events s owner h = filter_events t owner h"
  by (simp add: filter_events_def)

lemma build_event_header_simps [simp]:
  "rh_event_type (build_event_header env et) = et"
  "rh_timestamp_ns (build_event_header env et) = k_ktime env"
  "rh_pid (build_event_header env et) = ucast (drop_bit 32 (k_pid_tgid env))"
  "rh_tid (build_event_header env et) = ucast (k_pid_tgid env)"
  "rh_uid (build_event_header env et) = ucast (k_uid_gid env)"
  "rh_gid (build_event_header env et) = ucast (drop_bit 32 (k_uid_gid env))"
  by (simp_all add: build_event_header_def collect_process_ctx_def Let_def)

lemma wf_build_event_header: "wf_env env \<Longrightarrow> wf_header (build_event_header env et)"
  by (auto simp: wf_env_def wf_header_def build_event_header_def collect_process_ctx_def Let_def
      TASK_COMM_LEN_def split: option.splits)

lemma type_of_mode_format: "type_of_mode m = format_bit m"
  by (simp add: type_of_mode_def format_bit_def file_mode_consts file_bits Let_def)

lemma capture_inode_format:
  "fst (capture_inode env s i) \<longleftrightarrow> (\<exists>c. CONFIG s 0 = Some c \<and> mode c AND format_bit (k_i_mode env i) \<noteq> 0)"
  "fst (capture_inode env s i) \<Longrightarrow> snd (capture_inode env s i) = \<lparr>mode = format_bit (k_i_mode env i)\<rparr>"
  by (auto simp: capture_inode_def type_of_mode_format Let_def split: option.splits)

lemma capture_file_inode: "capture_file env s file = capture_inode env s (k_f_inode env file)"
  by (simp add: capture_file_def capture_inode_def)

end
