(* ===== verification/Ebpf_Probes.thy ===== *)
theory Ebpf_Probes
  imports Ebpf_Core
begin

text \<open>
  The programs of the eBPF object, \<open>bpfx-ebpf/src/main.rs\<close>, in the order of the source. A \<open>try_*\<close>
  function is the body; the program of the hook's name returns its \<open>Ok\<close> value or 0
  (\<open>exit_code\<close>). A reservation that is discarded leaves no trace in \<open>EVENTS\<close>. Pointers are \<open>u64\<close>,
  null is 0. \<open>program\<close> enumerates the programs of the object, with the name and the kind of each.
\<close>

definition AF_INET :: u16 where "AF_INET = 2"
definition AF_INET6 :: u16 where "AF_INET6 = 10"

section \<open>Sockets\<close>

definition sock_daddr :: "kenv \<Rightarrow> u64 \<Rightarrow> u32" where
  "sock_daddr env sk = (case k_skc_daddr env sk of Some v \<Rightarrow> v | None \<Rightarrow> 0)"

definition sock_rcv_saddr :: "kenv \<Rightarrow> u64 \<Rightarrow> u32" where
  "sock_rcv_saddr env sk = (case k_skc_rcv_saddr env sk of Some v \<Rightarrow> v | None \<Rightarrow> 0)"

definition sock_dport :: "kenv \<Rightarrow> u64 \<Rightarrow> u16" where
  "sock_dport env sk = (case k_skc_dport env sk of Some v \<Rightarrow> v | None \<Rightarrow> 0)"

definition sock_num :: "kenv \<Rightarrow> u64 \<Rightarrow> u16" where
  "sock_num env sk = (case k_skc_num env sk of Some v \<Rightarrow> v | None \<Rightarrow> 0)"

definition emit_v4 :: "kenv \<Rightarrow> u64 \<Rightarrow> i32 option \<Rightarrow> u8 \<Rightarrow> EventType \<Rightarrow> kstate \<Rightarrow> kres \<times> kstate" where
  "emit_v4 env sk retval protocol et s =
     (if \<not> k_reserve env 112 then (KOk 0, s)
      else let header = build_event_header env et in
        if filter_events s OwnerNetwork header then (KOk 0, s)
        else let tid = ucast (k_pid_tgid env);
                 dst_addr = le_bytes 4 (sock_daddr env sk) @ replicate 12 0;
                 src_addr = le_bytes 4 (sock_rcv_saddr env sk) @ replicate 12 0 in
          (case protocol_try_from protocol of
             Inl _ \<Rightarrow> (KPanic, s)
           | Inr pr \<Rightarrow>
               (KOk 0, submit (RE_net
                  \<lparr>pc_header = header, pc_protocol = pr, pc_tid = tid, pc_src_port = sock_num env sk,
                   pc_dst_port = sock_dport env sk, pc_ip_version = V4, pc_src_addr = src_addr,
                   pc_dst_addr = dst_addr, pc_retval = retval\<rparr>) s)))"

definition read_v6_addr :: "u8 list option \<Rightarrow> i32 + u8 list" where
  "read_v6_addr r = (case r of Some a \<Rightarrow> Inr a | None \<Rightarrow> Inl 0)"

definition emit_v6 :: "kenv \<Rightarrow> u64 \<Rightarrow> i32 option \<Rightarrow> u8 \<Rightarrow> EventType \<Rightarrow> kstate \<Rightarrow> kres \<times> kstate" where
  "emit_v6 env sk retval protocol et s =
     (if \<not> k_reserve env 112 then (KOk 0, s)
      else let header = build_event_header env et in
        if filter_events s OwnerNetwork header then (KOk 0, s)
        else let tid = ucast (k_pid_tgid env) in
          (case read_v6_addr (k_skc_v6_daddr env sk) of
             Inl _ \<Rightarrow> (KOk 0, s)
           | Inr daddr \<Rightarrow>
               (case read_v6_addr (k_skc_v6_rcv_saddr env sk) of
                  Inl _ \<Rightarrow> (KOk 0, s)
                | Inr src_addr \<Rightarrow>
                    (case protocol_try_from protocol of
                       Inl _ \<Rightarrow> (KPanic, s)
                     | Inr pr \<Rightarrow>
                         (KOk 0, submit (RE_net
                            \<lparr>pc_header = header, pc_protocol = pr, pc_tid = tid,
                             pc_src_port = sock_num env sk, pc_dst_port = sock_dport env sk,
                             pc_ip_version = V6, pc_src_addr = src_addr, pc_dst_addr = daddr,
                             pc_retval = retval\<rparr>) s)))))"

text \<open>Rust's \<open>f()?; Ok(0)\<close> on the result of an emission.\<close>

definition then_ok :: "kres \<times> kstate \<Rightarrow> kres \<times> kstate" where
  "then_ok r = (case fst r of KOk _ \<Rightarrow> (KOk 0, snd r) | _ \<Rightarrow> r)"

definition exit_code :: "kres \<times> kstate \<Rightarrow> kres \<times> kstate" where
  "exit_code r = (case fst r of KOk v \<Rightarrow> (KOk v, snd r) | KErr _ \<Rightarrow> (KOk 0, snd r) | KPanic \<Rightarrow> r)"

text \<open>The dispatch on the address family that four programs share, as each writes it.\<close>

definition emit_by_family ::
  "kenv \<Rightarrow> u64 \<Rightarrow> i32 option \<Rightarrow> u8 \<Rightarrow> EventType \<Rightarrow> kstate \<Rightarrow> kres \<times> kstate" where
  "emit_by_family env sk retval protocol et s =
     (case k_skc_family env sk of
        None \<Rightarrow> (KOk 0, s)
      | Some family \<Rightarrow>
          if family = AF_INET then then_ok (emit_v4 env sk retval protocol et s)
          else if family = AF_INET6 then then_ok (emit_v6 env sk retval protocol et s)
          else (KOk 0, s))"

definition try_tcp_v4_connect :: "kenv \<Rightarrow> kstate \<Rightarrow> kres \<times> kstate" where
  "try_tcp_v4_connect env s =
     (let sk = k_arg env 0 in
      if sk = 0 then (KOk 0, s)
      else then_ok (emit_v4 env sk (Some (ucast (k_arg env 3))) 1 Connect s))"

definition try_inet_csk_accept_impl :: "kenv \<Rightarrow> kstate \<Rightarrow> kres \<times> kstate" where
  "try_inet_csk_accept_impl env s =
     (case k_ret env of
        None \<Rightarrow> (KOk 0, s)
      | Some sk \<Rightarrow> if sk = 0 then (KOk 0, s) else emit_by_family env sk None 1 Accept s)"

definition try_tcp_close :: "kenv \<Rightarrow> kstate \<Rightarrow> kres \<times> kstate" where
  "try_tcp_close env s = emit_by_family env (k_arg env 0) None 1 Close s"

definition try_udp_destroy_sock :: "kenv \<Rightarrow> kstate \<Rightarrow> kres \<times> kstate" where
  "try_udp_destroy_sock env s =
     (let sk = k_arg env 0 in
      if sk = 0 then (KOk 0, s) else emit_by_family env sk None 2 Close s)"

definition try_tcp_v6_connect :: "kenv \<Rightarrow> kstate \<Rightarrow> kres \<times> kstate" where
  "try_tcp_v6_connect env s =
     (let sk = k_arg env 0 in
      if sk = 0 then (KOk 0, s)
      else emit_v6 env sk (Some (ucast (k_arg env 3))) 1 Connect s)"

definition try_udp_connect :: "kenv \<Rightarrow> kstate \<Rightarrow> kres \<times> kstate" where
  "try_udp_connect env s =
     (let sk = k_arg env 0 in
      if sk = 0 then (KOk 0, s)
      else then_ok (emit_v4 env sk (Some (ucast (k_arg env 3))) 2 Connect s))"

definition try_udpv6_connect :: "kenv \<Rightarrow> kstate \<Rightarrow> kres \<times> kstate" where
  "try_udpv6_connect env s =
     (let sk = k_arg env 0 in
      if sk = 0 then (KOk 0, s)
      else emit_v6 env sk (Some (ucast (k_arg env 3))) 2 Connect s)"

definition try_inet_bind :: "kenv \<Rightarrow> kstate \<Rightarrow> kres \<times> kstate" where
  "try_inet_bind env s =
     (let socket = k_arg env 0; sk = k_socket_sk env socket in
      if sk = 0 \<or> socket = 0 then (KOk 0, s)
      else emit_by_family env sk (Some (ucast (k_arg env 3))) 1 Bind s)"

definition try_inet_listen :: "kenv \<Rightarrow> kstate \<Rightarrow> kres \<times> kstate" where
  "try_inet_listen env s =
     (let socket = k_arg env 0; sk = k_socket_sk env socket in
      if sk = 0 \<or> socket = 0 then (KOk 0, s)
      else emit_by_family env sk (Some (ucast (k_arg env 2))) 1 Listen s)"

section \<open>Processes\<close>

definition try_sched_process_exec :: "kenv \<Rightarrow> kstate \<Rightarrow> kres \<times> kstate" where
  "try_sched_process_exec env s =
     (if \<not> k_reserve env 312 then (KOk 0, s)
      else let header = build_event_header env ProcessStart in
        if filter_events s OwnerProcess header then (KOk 0, s)
        else
          (case k_read_at env 8 of
             None \<Rightarrow> (KOk 0, s)
           | Some data_loc \<Rightarrow>
               let p = k_ctx_ptr env + ucast (data_loc AND 0xffff);
                   filename = k_read_str env p (replicate 256 0) in
               (KOk 0, submit (RE_start \<lparr>rs_header = header, rs_filename = filename\<rparr>) s)))"

definition try_do_group_exit :: "kenv \<Rightarrow> kstate \<Rightarrow> kres \<times> kstate" where
  "try_do_group_exit env s =
     (if \<not> k_reserve env 64 then (KOk 0, s)
      else let header = build_event_header env ProcessExit in
        if filter_events s OwnerProcess header then (KOk 0, s)
        else
          (KOk 0, submit (RE_exit \<lparr>rx_header = header, rx_exit_code = ucast (k_arg env 0)\<rparr>) s))"

definition try_sched_process_fork :: "kenv \<Rightarrow> kstate \<Rightarrow> kres \<times> kstate" where
  "try_sched_process_fork env s =
     (if \<not> k_reserve env 80 then (KOk 0, s)
      else let header = build_event_header env ProcessFork in
        if filter_events s OwnerProcess header then (KOk 0, s)
        else
          (case k_read_at env 16 of
             None \<Rightarrow> (KOk 0, s)
           | Some data_loc \<Rightarrow>
               (case k_read_at env 20 of
                  None \<Rightarrow> (KOk 0, s)
                | Some child_pid \<Rightarrow>
                    let p = k_ctx_ptr env + ucast (data_loc AND 0xffff);
                        child_comm = k_read_str env p (replicate TASK_COMM_LEN 0) in
                    (KOk 0, submit (RE_fork \<lparr>rf_parent = header, rf_child_pid = child_pid,
                       rf_child_comm = child_comm\<rparr>) s))))"

section \<open>Files\<close>

definition try_file_open :: "kenv \<Rightarrow> kstate \<Rightarrow> kres \<times> kstate" where
  "try_file_open env s =
     (let file = k_arg env 0 in
      if file = 0 then (KOk 0, s)
      else
        (case PATH_BUF s (k_cpu env) of
           None \<Rightarrow> (KOk 0, s)
         | Some path_buf \<Rightarrow>
             (case k_d_path env (k_f_path env file) path_buf of (ret, path_buf') \<Rightarrow>
                let s' = s\<lparr>PATH_BUF := (PATH_BUF s)(k_cpu env := Some path_buf')\<rparr> in
                if sint ret < 0 then (KOk 0, s')
                else if k_map_insert env then
                  (KOk 0, s'\<lparr>FILE_PATH_MAP := (FILE_PATH_MAP s')(file \<mapsto> \<lparr>filepath = path_buf'\<rparr>)\<rparr>)
                else (KOk 0, s'))))"

definition try_vfs_open :: "kenv \<Rightarrow> kstate \<Rightarrow> kres \<times> kstate" where
  "try_vfs_open env s =
     (if \<not> k_reserve env 336 then (KOk 0, s)
      else let header = build_event_header env FileOpen in
        if filter_events s OwnerFile header then (KOk 0, s)
        else let file = k_arg env 1 in
          if file = 0 then (KOk 0, s)
          else let output = capture_file env s file in
            if \<not> fst output then (KOk 0, s)
            else
              (case FILE_PATH_MAP s file of
                 None \<Rightarrow> (KOk 0, s)
               | Some val \<Rightarrow>
                   (KOk 0, submit (RE_open \<lparr>ro_header = header, ro_file_path = filepath val,
                      ro_file_mode = snd output, ro_inode = k_i_ino env (k_f_inode env file),
                      ro_retval = ucast (k_arg env 2), ro_flags = k_f_flags env file\<rparr>) s)))"

definition try_fput :: "kenv \<Rightarrow> kstate \<Rightarrow> kres \<times> kstate" where
  "try_fput env s =
     (let file = k_arg env 0 in
      (KOk 0, s\<lparr>FILE_PATH_MAP := (FILE_PATH_MAP s)(file := None)\<rparr>))"

definition try_flip_close :: "kenv \<Rightarrow> kstate \<Rightarrow> kres \<times> kstate" where
  "try_flip_close env s =
     (if \<not> k_reserve env 336 then (KOk 0, s)
      else let header = build_event_header env FileClose in
        if filter_events s OwnerFile header then (KOk 0, s)
        else let file = k_arg env 0; output = capture_file env s file in
          if \<not> fst output then (KOk 0, s)
          else if file = 0 then (KOk 0, s)
          else
            (case FILE_PATH_MAP s file of
               None \<Rightarrow> (KOk 0, s)
             | Some val \<Rightarrow>
                 (KOk 0, submit (RE_close \<lparr>rc_header = header, rc_file_path = filepath val,
                    rc_file_mode = snd output, rc_inode = k_i_ino env (k_f_inode env file),
                    rc_retval = ucast (k_arg env 2), rc_flags = k_f_flags env file\<rparr>) s)))"

definition try_vfs_read :: "kenv \<Rightarrow> kstate \<Rightarrow> kres \<times> kstate" where
  "try_vfs_read env s =
     (if \<not> k_reserve env 344 then (KOk 0, s)
      else let header = build_event_header env FileRead in
        if filter_events s OwnerFile header then (KOk 0, s)
        else let file = k_arg env 0 in
          if file = 0 then (KOk 0, s)
          else let output = capture_file env s file in
            if \<not> fst output then (KOk 0, s)
            else
              (case FILE_PATH_MAP s file of
                 None \<Rightarrow> (KOk 0, s)
               | Some val \<Rightarrow>
                   (KOk 0, submit (RE_read \<lparr>rr_header = header, rr_file_path = filepath val,
                      rr_file_mode = snd output, rr_inode = k_i_ino env (k_f_inode env file),
                      rr_retval = k_arg env 4, rr_flags = k_f_flags env file\<rparr>) s)))"

definition try_vfs_write :: "kenv \<Rightarrow> kstate \<Rightarrow> kres \<times> kstate" where
  "try_vfs_write env s =
     (if \<not> k_reserve env 344 then (KOk 0, s)
      else let header = build_event_header env FileWrite in
        if filter_events s OwnerFile header then (KOk 0, s)
        else let file = k_arg env 0 in
          if file = 0 then (KOk 0, s)
          else let output = capture_file env s file in
            if \<not> fst output then (KOk 0, s)
            else
              (case FILE_PATH_MAP s file of
                 None \<Rightarrow> (KOk 0, s)
               | Some val \<Rightarrow>
                   (KOk 0, submit (RE_write \<lparr>rw_header = header, rw_file_path = filepath val,
                      rw_file_mode = snd output, rw_inode = k_i_ino env (k_f_inode env file),
                      rw_flags = k_f_flags env file, rw_retval = k_arg env 4\<rparr>) s)))"

definition try_vfs_unlink :: "kenv \<Rightarrow> kstate \<Rightarrow> kres \<times> kstate" where
  "try_vfs_unlink env s =
     (if \<not> k_reserve env 320 then (KOk 0, s)
      else let header = build_event_header env FileDelete in
        if filter_events s OwnerFile header then (KOk 0, s)
        else let dentry = k_arg env 2; inode = k_d_inode env dentry;
                 output = capture_inode env s inode in
          if \<not> fst output then (KOk 0, s)
          else let name = k_d_name env dentry;
                   file_name = k_read_str env name (replicate 256 0) in
            (KOk 0, submit (RE_delete \<lparr>rd_header = header, rd_file_name = file_name,
               rd_file_mode = snd output, rd_retval = ucast (k_arg env 4)\<rparr>) s))"

definition try_vfs_rename_retval :: "kenv \<Rightarrow> kstate \<Rightarrow> kres \<times> kstate" where
  "try_vfs_rename_retval env s =
     (if \<not> k_reserve env 64 then (KOk 0, s)
      else
        (KOk 0, submit (RE_rtr \<lparr>rt_header = build_event_header env PendingFileRename,
           rt_retval = ucast (k_arg env 1)\<rparr>) s))"

definition try_vfs_rename :: "kenv \<Rightarrow> kstate \<Rightarrow> kres \<times> kstate" where
  "try_vfs_rename env s =
     (let header = build_event_header env FileRename in
      if filter_events s OwnerFile header then (KOk 0, s)
      else let renamedata = k_arg env 0;
               old_dentry = k_old_dentry env renamedata;
               new_dentry = k_new_dentry env renamedata;
               old_inode = k_d_inode env old_dentry;
               output = capture_inode env s old_inode in
        if \<not> fst output then (KOk 0, s)
        else let old_filename = k_d_name env old_dentry;
                 new_filename = k_d_name env new_dentry in
          (case TEMP s (k_cpu env) of
             None \<Rightarrow> (KOk 0, s)
           | Some event \<Rightarrow>
               let event' = event\<lparr>rn_header := header, rn_file_mode := snd output,
                     rn_old_filename := k_read_str env old_filename (rn_old_filename event),
                     rn_new_filename := k_read_str env new_filename (rn_new_filename event)\<rparr>;
                   s' = s\<lparr>TEMP := (TEMP s)(k_cpu env := Some event')\<rparr> in
               if \<not> k_reserve env 576 then (KOk 0, s')
               else (KOk 0, submit (RE_rename event') s')))"

section \<open>Memory\<close>

definition try_vm_mmap_pgoff :: "kenv \<Rightarrow> kstate \<Rightarrow> kres \<times> kstate" where
  "try_vm_mmap_pgoff env s =
     (if \<not> k_reserve env 88 then (KOk 0, s)
      else let header = build_event_header env MemoryMap in
        if filter_events s OwnerMemory header then (KOk 0, s)
        else
          (KOk 0, submit (RE_mmap \<lparr>rm_header = header, rm_requested_address = k_arg env 1,
             rm_length = k_arg env 2, rm_protection = ucast (k_arg env 3),
             rm_flags = ucast (k_arg env 4), rm_mapped_address = k_arg env 6\<rparr>) s))"

definition try_vm_munmap :: "kenv \<Rightarrow> kstate \<Rightarrow> kres \<times> kstate" where
  "try_vm_munmap env s =
     (if \<not> k_reserve env 80 then (KOk 0, s)
      else
        (KOk 0, submit (RE_munmap \<lparr>ru_header = build_event_header env MemoryUnMap,
           ru_requested_address = k_arg env 0, ru_length = k_arg env 1,
           ru_mapped_address = k_arg env 3\<rparr>) s))"

section \<open>The programs of the object\<close>

text \<open>The kinds of program of \<open>aya\<close> the object uses; a kretprobe is loaded as a \<open>KProbe\<close>.\<close>

datatype prog_kind = FExit | FEntry | KProbe | TracePoint | Lsm

datatype program = P_tcp_v4_connect | P_inet_csk_accept | P_tcp_close | P_udp_destroy_sock
  | P_tcp_v6_connect | P_udp_connect | P_udpv6_connect | P_sched_process_exec
  | P_do_group_exit | P_file_open | P_vfs_open | P_fput
  | P_filp_close | P_sched_process_fork | P_vfs_read | P_vfs_write
  | P_vfs_unlink | P_vfs_rename_retval | P_vfs_rename | P_inet_bind
  | P_inet_listen | P_vm_mmap_pgoff | P_vm_munmap

fun program_name :: "program \<Rightarrow> string" where
  "program_name P_tcp_v4_connect = ''tcp_v4_connect''"
| "program_name P_inet_csk_accept = ''inet_csk_accept''"
| "program_name P_tcp_close = ''tcp_close''"
| "program_name P_udp_destroy_sock = ''udp_destroy_sock''"
| "program_name P_tcp_v6_connect = ''tcp_v6_connect''"
| "program_name P_udp_connect = ''udp_connect''"
| "program_name P_udpv6_connect = ''udpv6_connect''"
| "program_name P_sched_process_exec = ''sched_process_exec''"
| "program_name P_do_group_exit = ''do_group_exit''"
| "program_name P_file_open = ''file_open''"
| "program_name P_vfs_open = ''vfs_open''"
| "program_name P_fput = ''__fput''"
| "program_name P_filp_close = ''filp_close''"
| "program_name P_sched_process_fork = ''sched_process_fork''"
| "program_name P_vfs_read = ''vfs_read''"
| "program_name P_vfs_write = ''vfs_write''"
| "program_name P_vfs_unlink = ''vfs_unlink''"
| "program_name P_vfs_rename_retval = ''vfs_rename_retval''"
| "program_name P_vfs_rename = ''vfs_rename''"
| "program_name P_inet_bind = ''inet_bind''"
| "program_name P_inet_listen = ''inet_listen''"
| "program_name P_vm_mmap_pgoff = ''vm_mmap_pgoff''"
| "program_name P_vm_munmap = ''__vm_munmap''"

fun program_kind :: "program \<Rightarrow> prog_kind" where
  "program_kind P_tcp_v4_connect = FExit"
| "program_kind P_inet_csk_accept = KProbe"
| "program_kind P_tcp_close = FExit"
| "program_kind P_udp_destroy_sock = FExit"
| "program_kind P_tcp_v6_connect = FExit"
| "program_kind P_udp_connect = FExit"
| "program_kind P_udpv6_connect = FExit"
| "program_kind P_sched_process_exec = TracePoint"
| "program_kind P_do_group_exit = FEntry"
| "program_kind P_file_open = Lsm"
| "program_kind P_vfs_open = FExit"
| "program_kind P_fput = FExit"
| "program_kind P_filp_close = FExit"
| "program_kind P_sched_process_fork = TracePoint"
| "program_kind P_vfs_read = FExit"
| "program_kind P_vfs_write = FExit"
| "program_kind P_vfs_unlink = FExit"
| "program_kind P_vfs_rename_retval = FExit"
| "program_kind P_vfs_rename = FEntry"
| "program_kind P_inet_bind = FExit"
| "program_kind P_inet_listen = FExit"
| "program_kind P_vm_mmap_pgoff = FExit"
| "program_kind P_vm_munmap = FExit"

text \<open>The 23 programs: \<open>match try_..(ctx) { Ok(v) => v, Err(_) => 0 }\<close>, under the names of the source.\<close>

definition tcp_v4_connect :: "kenv \<Rightarrow> kstate \<Rightarrow> kres \<times> kstate" where
  "tcp_v4_connect env s = exit_code (try_tcp_v4_connect env s)"

definition inet_csk_accept :: "kenv \<Rightarrow> kstate \<Rightarrow> kres \<times> kstate" where
  "inet_csk_accept env s = exit_code (try_inet_csk_accept_impl env s)"

definition tcp_close :: "kenv \<Rightarrow> kstate \<Rightarrow> kres \<times> kstate" where
  "tcp_close env s = exit_code (try_tcp_close env s)"

definition udp_destroy_sock :: "kenv \<Rightarrow> kstate \<Rightarrow> kres \<times> kstate" where
  "udp_destroy_sock env s = exit_code (try_udp_destroy_sock env s)"

definition tcp_v6_connect :: "kenv \<Rightarrow> kstate \<Rightarrow> kres \<times> kstate" where
  "tcp_v6_connect env s = exit_code (try_tcp_v6_connect env s)"

definition udp_connect :: "kenv \<Rightarrow> kstate \<Rightarrow> kres \<times> kstate" where
  "udp_connect env s = exit_code (try_udp_connect env s)"

definition udpv6_connect :: "kenv \<Rightarrow> kstate \<Rightarrow> kres \<times> kstate" where
  "udpv6_connect env s = exit_code (try_udpv6_connect env s)"

definition sched_process_exec :: "kenv \<Rightarrow> kstate \<Rightarrow> kres \<times> kstate" where
  "sched_process_exec env s = exit_code (try_sched_process_exec env s)"

definition do_group_exit :: "kenv \<Rightarrow> kstate \<Rightarrow> kres \<times> kstate" where
  "do_group_exit env s = exit_code (try_do_group_exit env s)"

definition file_open :: "kenv \<Rightarrow> kstate \<Rightarrow> kres \<times> kstate" where
  "file_open env s = exit_code (try_file_open env s)"

definition vfs_open :: "kenv \<Rightarrow> kstate \<Rightarrow> kres \<times> kstate" where
  "vfs_open env s = exit_code (try_vfs_open env s)"

definition fput :: "kenv \<Rightarrow> kstate \<Rightarrow> kres \<times> kstate" where
  "fput env s = exit_code (try_fput env s)"

definition filp_close :: "kenv \<Rightarrow> kstate \<Rightarrow> kres \<times> kstate" where
  "filp_close env s = exit_code (try_flip_close env s)"

definition sched_process_fork :: "kenv \<Rightarrow> kstate \<Rightarrow> kres \<times> kstate" where
  "sched_process_fork env s = exit_code (try_sched_process_fork env s)"

definition vfs_read :: "kenv \<Rightarrow> kstate \<Rightarrow> kres \<times> kstate" where
  "vfs_read env s = exit_code (try_vfs_read env s)"

definition vfs_write :: "kenv \<Rightarrow> kstate \<Rightarrow> kres \<times> kstate" where
  "vfs_write env s = exit_code (try_vfs_write env s)"

definition vfs_unlink :: "kenv \<Rightarrow> kstate \<Rightarrow> kres \<times> kstate" where
  "vfs_unlink env s = exit_code (try_vfs_unlink env s)"

definition vfs_rename_retval :: "kenv \<Rightarrow> kstate \<Rightarrow> kres \<times> kstate" where
  "vfs_rename_retval env s = exit_code (try_vfs_rename_retval env s)"

definition vfs_rename :: "kenv \<Rightarrow> kstate \<Rightarrow> kres \<times> kstate" where
  "vfs_rename env s = exit_code (try_vfs_rename env s)"

definition inet_bind :: "kenv \<Rightarrow> kstate \<Rightarrow> kres \<times> kstate" where
  "inet_bind env s = exit_code (try_inet_bind env s)"

definition inet_listen :: "kenv \<Rightarrow> kstate \<Rightarrow> kres \<times> kstate" where
  "inet_listen env s = exit_code (try_inet_listen env s)"

definition vm_mmap_pgoff :: "kenv \<Rightarrow> kstate \<Rightarrow> kres \<times> kstate" where
  "vm_mmap_pgoff env s = exit_code (try_vm_mmap_pgoff env s)"

definition vm_munmap :: "kenv \<Rightarrow> kstate \<Rightarrow> kres \<times> kstate" where
  "vm_munmap env s = exit_code (try_vm_munmap env s)"

lemmas program_defs [simp] = tcp_v4_connect_def inet_csk_accept_def tcp_close_def udp_destroy_sock_def
  tcp_v6_connect_def udp_connect_def udpv6_connect_def sched_process_exec_def
  do_group_exit_def file_open_def vfs_open_def fput_def
  filp_close_def sched_process_fork_def vfs_read_def vfs_write_def
  vfs_unlink_def vfs_rename_retval_def vfs_rename_def inet_bind_def
  inet_listen_def vm_mmap_pgoff_def vm_munmap_def

fun run_program :: "program \<Rightarrow> kenv \<Rightarrow> kstate \<Rightarrow> kres \<times> kstate" where
  "run_program P_tcp_v4_connect env s = tcp_v4_connect env s"
| "run_program P_inet_csk_accept env s = inet_csk_accept env s"
| "run_program P_tcp_close env s = tcp_close env s"
| "run_program P_udp_destroy_sock env s = udp_destroy_sock env s"
| "run_program P_tcp_v6_connect env s = tcp_v6_connect env s"
| "run_program P_udp_connect env s = udp_connect env s"
| "run_program P_udpv6_connect env s = udpv6_connect env s"
| "run_program P_sched_process_exec env s = sched_process_exec env s"
| "run_program P_do_group_exit env s = do_group_exit env s"
| "run_program P_file_open env s = file_open env s"
| "run_program P_vfs_open env s = vfs_open env s"
| "run_program P_fput env s = fput env s"
| "run_program P_filp_close env s = filp_close env s"
| "run_program P_sched_process_fork env s = sched_process_fork env s"
| "run_program P_vfs_read env s = vfs_read env s"
| "run_program P_vfs_write env s = vfs_write env s"
| "run_program P_vfs_unlink env s = vfs_unlink env s"
| "run_program P_vfs_rename_retval env s = vfs_rename_retval env s"
| "run_program P_vfs_rename env s = vfs_rename env s"
| "run_program P_inet_bind env s = inet_bind env s"
| "run_program P_inet_listen env s = inet_listen env s"
| "run_program P_vm_mmap_pgoff env s = vm_mmap_pgoff env s"
| "run_program P_vm_munmap env s = vm_munmap env s"

definition all_programs :: "program list" where
  "all_programs = [
     P_tcp_v4_connect, P_inet_csk_accept, P_tcp_close, P_udp_destroy_sock, P_tcp_v6_connect,
     P_udp_connect, P_udpv6_connect, P_sched_process_exec, P_do_group_exit, P_file_open,
     P_vfs_open, P_fput, P_filp_close, P_sched_process_fork, P_vfs_read,
     P_vfs_write, P_vfs_unlink, P_vfs_rename_retval, P_vfs_rename, P_inet_bind,
     P_inet_listen, P_vm_mmap_pgoff, P_vm_munmap]"

lemmas try_defs [probe] = try_tcp_v4_connect_def
  try_inet_csk_accept_impl_def
  try_tcp_close_def
  try_udp_destroy_sock_def
  try_tcp_v6_connect_def
  try_udp_connect_def
  try_udpv6_connect_def
  try_sched_process_exec_def
  try_do_group_exit_def
  try_file_open_def
  try_vfs_open_def
  try_fput_def
  try_flip_close_def
  try_sched_process_fork_def
  try_vfs_read_def
  try_vfs_write_def
  try_vfs_unlink_def
  try_vfs_rename_retval_def
  try_vfs_rename_def
  try_inet_bind_def
  try_inet_listen_def
  try_vm_mmap_pgoff_def
  try_vm_munmap_def

lemmas emit_defs [probe] = emit_v4_def emit_v6_def emit_by_family_def then_ok_def exit_code_def
  read_v6_addr_def protocol_try_from_def

lemma all_programs_complete: "p \<in> set all_programs"
  by (cases p) (simp_all add: all_programs_def)

end
