(* ===== verification/Bpfx_Attach.thy ===== *)
theory Bpfx_Attach
  imports Bpfx_File Bpfx_Process Bpfx_Memory Bpfx_Network Ebpf_Probes
begin

text \<open>
  Attaching the probes, \<open>src/core.rs\<close>: the filter and configuration maps written from user space,
  and the sequence of programs that each subscription loads and attaches. The loader is \<open>aya\<close>,
  which is a parameter: the record \<open>aya\<close> has its calls as functions on its own state \<open>'b\<close> (the
  \<open>Ebpf\<close> handle and the kernel behind it, the kernel's BTF included); its errors are opaque values
  of \<open>'x\<close>. \<open>aya_law\<close> states what is relied on of it: which programs the object has, and that a call
  that succeeds has its effect and one that fails has none, on a history of effects.
\<close>

section \<open>The loader\<close>

record ('b, 'x) aya =
  ay_program :: "'b \<Rightarrow> string \<Rightarrow> bool"
  ay_try_into :: "'b \<Rightarrow> string \<Rightarrow> prog_kind \<Rightarrow> 'x option"
  ay_load :: "'b \<Rightarrow> string \<Rightarrow> prog_kind \<Rightarrow> string list \<Rightarrow> 'x option \<times> 'b"
  ay_attach :: "'b \<Rightarrow> string \<Rightarrow> prog_kind \<Rightarrow> string list \<Rightarrow> 'x option \<times> 'b"
  ay_map :: "'b \<Rightarrow> string \<Rightarrow> bool"
  ay_hash_map :: "'b \<Rightarrow> string \<Rightarrow> 'x option"
  ay_insert_filter :: "'b \<Rightarrow> u32 \<Rightarrow> FilterKey \<Rightarrow> 'x option \<times> 'b"
  ay_insert_config :: "'b \<Rightarrow> u32 \<Rightarrow> FileModeFilter \<Rightarrow> 'x option \<times> 'b"

type_synonym ('b, 'x) action_step = "('b, 'x fault) step"

text \<open>
  The part the attaching functions share once they hold the program: \<open>.try_into()?\<close> to the kind,
  \<open>load(..)?\<close>, \<open>attach(..)?\<close>.
\<close>

definition load_attach :: "('b, 'x) aya \<Rightarrow> prog_kind \<Rightarrow> string \<Rightarrow> string list \<Rightarrow> string list \<Rightarrow>
    ('b, 'x) action_step" where
  "load_attach ay kind prog_name load_args attach_args b =
     (case ay_try_into ay b prog_name kind of
        Some e \<Rightarrow> (Inl (Err (Attach e)), b)
      | None \<Rightarrow>
          (case ay_load ay b prog_name kind load_args of
             (Some e, b') \<Rightarrow> (Inl (Err (Attach e)), b')
           | (None, b') \<Rightarrow>
               (case ay_attach ay b' prog_name kind attach_args of
                  (Some e, b'') \<Rightarrow> (Inl (Err (Attach e)), b'')
                | (None, b'') \<Rightarrow> (Inr (), b''))))"

definition attach_fexit :: "('b, 'x) aya \<Rightarrow> string \<Rightarrow> string \<Rightarrow> ('b, 'x) action_step" where
  "attach_fexit ay prog_name func_name b =
     (if \<not> ay_program ay b prog_name then (Inl (Err ProgramAccess), b)
      else load_attach ay FExit prog_name [func_name] [] b)"

definition attach_kprobe :: "('b, 'x) aya \<Rightarrow> string \<Rightarrow> string \<Rightarrow> ('b, 'x) action_step" where
  "attach_kprobe ay prog_name symbol b =
     (if \<not> ay_program ay b prog_name then (Inl (Err ProgramAccess), b)
      else load_attach ay KProbe prog_name [] [symbol] b)"

definition attach_fentry :: "('b, 'x) aya \<Rightarrow> string \<Rightarrow> string \<Rightarrow> ('b, 'x) action_step" where
  "attach_fentry ay prog_name symbol b =
     (if \<not> ay_program ay b prog_name then (Inl (Err ProgramAccess), b)
      else load_attach ay FEntry prog_name [symbol] [] b)"

definition attach_tracepoint :: "('b, 'x) aya \<Rightarrow> string \<Rightarrow> string \<Rightarrow> string \<Rightarrow> ('b, 'x) action_step" where
  "attach_tracepoint ay prog_name category tracepoint b =
     (if \<not> ay_program ay b prog_name then (Inl (Err ProgramAccess), b)
      else load_attach ay TracePoint prog_name [] [category, tracepoint] b)"

text \<open>\<open>program_mut("file_open").unwrap()\<close>: a missing program panics here.\<close>

definition attach_lsm_probe :: "('b, 'x) aya \<Rightarrow> ('b, 'x) action_step" where
  "attach_lsm_probe ay b =
     (if \<not> ay_program ay b ''file_open'' then (Inl Panic, b)
      else load_attach ay Lsm ''file_open'' [''file_open''] [] b)"

section \<open>The maps\<close>

datatype Filters = Filters_Memory MemoryFilter | Filters_File FileFilter
  | Filters_Network NetworkFilter | Filters_Process ProcessFilter

fun filters_key :: "Filters \<Rightarrow> FilterKey" where
  "filters_key (Filters_Memory m) = mf_filter m"
| "filters_key (Filters_File f) = ff_filter f"
| "filters_key (Filters_Network n) = nf_filter n"
| "filters_key (Filters_Process p) = pfl_filter p"

definition write_to_fiter_map :: "('b, 'x) aya \<Rightarrow> Filters \<Rightarrow> FilterOwner \<Rightarrow> ('b, 'x) action_step" where
  "write_to_fiter_map ay filter_type owner b =
     (if \<not> ay_map ay b ''FILTER'' then (Inl (Err FilterMapAccess), b)
      else
        (case ay_hash_map ay b ''FILTER'' of
           Some e \<Rightarrow> (Inl (Err (MapError e)), b)
         | None \<Rightarrow>
             (case ay_insert_filter ay b (filter_owner_u32 owner) (filters_key filter_type) of
                (Some e, b') \<Rightarrow> (Inl (Err (MapError e)), b')
              | (None, b') \<Rightarrow> (Inr (), b'))))"

definition write_to_map :: "('b, 'x) aya \<Rightarrow> FileFilter \<Rightarrow> ('b, 'x) action_step" where
  "write_to_map ay filt b =
     (if \<not> ay_map ay b ''CONFIG'' then (Inl (Err ConfigMapAccess), b)
      else
        (case ay_hash_map ay b ''CONFIG'' of
           Some e \<Rightarrow> (Inl (Err (MapError e)), b)
         | None \<Rightarrow>
             (case ay_insert_config ay b 0 (file_mode_from_type_filter (ff_file_mode filt)) of
                (Some e, b') \<Rightarrow> (Inl (Err (MapError e)), b')
              | (None, b') \<Rightarrow> (Inr (), b'))))"

section \<open>The four subscriptions\<close>

definition TCP_CONNECT :: "(string \<times> string) list" where
  "TCP_CONNECT = [(''tcp_v4_connect'', ''tcp_v4_connect''), (''tcp_v6_connect'', ''tcp_v6_connect'')]"

definition TCP_ACCEPT :: "(string \<times> string) list" where
  "TCP_ACCEPT = [(''inet_csk_accept'', ''inet_csk_accept'')]"

definition TCP_CLOSE :: "string \<times> string" where
  "TCP_CLOSE = (''tcp_close'', ''tcp_close'')"

definition UDP_CONNECT :: "(string \<times> string) list" where
  "UDP_CONNECT = [(''udp_connect'', ''udp_connect''), (''udpv6_connect'', ''udpv6_connect'')]"

definition UDP_CLOSE :: "string \<times> string" where
  "UDP_CLOSE = (''udp_destroy_sock'', ''udp_destroy_sock'')"

definition attach_network_probe :: "('b, 'x) aya \<Rightarrow> NetworkFilter \<Rightarrow> ('b, 'x) action_step" where
  "attach_network_probe ay filt =
     (let tcp = ProtocolMask_contains (nf_protocol_mask filt) ProtocolMask_TCP;
          udp = ProtocolMask_contains (nf_protocol_mask filt) ProtocolMask_UDP;
          wants = NetworkMask_contains (nf_event_mask filt) in
      run_steps
        ([write_to_fiter_map ay (Filters_Network filt) OwnerNetwork] @
         when_steps (tcp \<and> wants NetworkMask_CONNECT)
           (map (\<lambda>probe. attach_fexit ay (fst probe) (snd probe)) TCP_CONNECT) @
         when_steps (tcp \<and> wants NetworkMask_ACCEPT)
           (map (\<lambda>probe. attach_kprobe ay (fst probe) (snd probe)) TCP_ACCEPT) @
         when_steps (tcp \<and> wants NetworkMask_CLOSE) [attach_fexit ay (fst TCP_CLOSE) (snd TCP_CLOSE)] @
         when_steps (tcp \<and> wants NetworkMask_BIND) [attach_fexit ay ''inet_bind'' ''inet_bind''] @
         when_steps (tcp \<and> wants NetworkMask_LISTEN) [attach_fexit ay ''inet_listen'' ''inet_listen''] @
         when_steps (udp \<and> wants NetworkMask_CONNECT)
           (map (\<lambda>probe. attach_fexit ay (fst probe) (snd probe)) UDP_CONNECT) @
         when_steps (udp \<and> wants NetworkMask_CLOSE) [attach_fexit ay (fst UDP_CLOSE) (snd UDP_CLOSE)]))"

definition attach_process_probe :: "('b, 'x) aya \<Rightarrow> ProcessFilter \<Rightarrow> ('b, 'x) action_step" where
  "attach_process_probe ay filt =
     (let wants = ProcessMask_contains (pfl_mask filt) in
      run_steps
        ([write_to_fiter_map ay (Filters_Process filt) OwnerProcess] @
         when_steps (wants ProcessMask_START)
           [attach_tracepoint ay ''sched_process_exec'' ''sched'' ''sched_process_exec''] @
         when_steps (wants ProcessMask_FORK)
           [attach_tracepoint ay ''sched_process_fork'' ''sched'' ''sched_process_fork''] @
         when_steps (wants ProcessMask_EXIT) [attach_fentry ay ''do_group_exit'' ''do_group_exit'']))"

definition attach_file_probe :: "('b, 'x) aya \<Rightarrow> FileFilter \<Rightarrow> ('b, 'x) action_step" where
  "attach_file_probe ay filt =
     (let wants = FileMask_contains (ff_event_type filt) in
      run_steps
        ([write_to_fiter_map ay (Filters_File filt) OwnerFile, write_to_map ay filt,
          attach_lsm_probe ay, attach_fexit ay ''__fput'' ''__fput''] @
         when_steps (wants FileMask_OPEN) [attach_fexit ay ''vfs_open'' ''vfs_open''] @
         when_steps (wants FileMask_CLOSE) [attach_fexit ay ''filp_close'' ''filp_close''] @
         when_steps (wants FileMask_READ) [attach_fexit ay ''vfs_read'' ''vfs_read''] @
         when_steps (wants FileMask_WRITE) [attach_fexit ay ''vfs_write'' ''vfs_write''] @
         when_steps (wants FileMask_DELETE) [attach_fexit ay ''vfs_unlink'' ''vfs_unlink''] @
         when_steps (wants FileMask_RENAME)
           [attach_fentry ay ''vfs_rename'' ''vfs_rename'',
            attach_fexit ay ''vfs_rename_retval'' ''vfs_rename'']))"

definition attach_mem_probe :: "('b, 'x) aya \<Rightarrow> MemoryFilter \<Rightarrow> ('b, 'x) action_step" where
  "attach_mem_probe ay filt =
     run_steps
       ([write_to_fiter_map ay (Filters_Memory filt) OwnerMemory] @
        when_steps (MemoryMask_contains (mf_mask filt) MemoryMask_MMAP)
          [attach_fexit ay ''vm_mmap_pgoff'' ''vm_mmap_pgoff''] @
        when_steps (MemoryMask_contains (mf_mask filt) MemoryMask_UNMAP)
          [attach_fexit ay ''__vm_munmap'' ''__vm_munmap''])"

section \<open>What is relied on of the loader\<close>

text \<open>
  The effects of the calls on the kernel, in the order they happened, and the plan of each
  subscription: the abstract specification of the four attaching functions.
\<close>

datatype effect = WroteFilter u32 FilterKey | WroteConfig u32 FileModeFilter
  | Attached prog_kind program "string list"

definition aya_law :: "('b, 'x) aya \<Rightarrow> ('b \<Rightarrow> effect list) \<Rightarrow> bool" where
  "aya_law ay hist =
     ((\<forall>b q. ay_program ay b (program_name q)) \<and>
      (\<forall>b q. ay_try_into ay b (program_name q) (program_kind q) = None) \<and>
      (\<forall>b q k a. hist (snd (ay_load ay b (program_name q) k a)) = hist b) \<and>
      (\<forall>b q k a b' a'. ay_load ay b (program_name q) k a = (None, b') \<longrightarrow>
         hist (snd (ay_attach ay b' (program_name q) k a')) =
           hist b' @ (if fst (ay_attach ay b' (program_name q) k a') = None
                      then [Attached k q (a @ a')] else [])) \<and>
      (\<forall>b. ay_map ay b ''FILTER'' \<and> ay_map ay b ''CONFIG'') \<and>
      (\<forall>b k v. hist (snd (ay_insert_filter ay b k v)) =
         hist b @ (if fst (ay_insert_filter ay b k v) = None then [WroteFilter k v] else [])) \<and>
      (\<forall>b k v. hist (snd (ay_insert_config ay b k v)) =
         hist b @ (if fst (ay_insert_config ay b k v) = None then [WroteConfig k v] else [])))"


definition plan_network :: "NetworkFilter \<Rightarrow> effect list" where
  "plan_network filt =
     (let tcp = ProtocolMask_contains (nf_protocol_mask filt) ProtocolMask_TCP;
          udp = ProtocolMask_contains (nf_protocol_mask filt) ProtocolMask_UDP;
          wants = NetworkMask_contains (nf_event_mask filt) in
      [WroteFilter 2 (nf_filter filt)] @
      (if tcp \<and> wants NetworkMask_CONNECT then
         [Attached FExit P_tcp_v4_connect [''tcp_v4_connect''],
          Attached FExit P_tcp_v6_connect [''tcp_v6_connect'']] else []) @
      (if tcp \<and> wants NetworkMask_ACCEPT then [Attached KProbe P_inet_csk_accept [''inet_csk_accept'']] else []) @
      (if tcp \<and> wants NetworkMask_CLOSE then [Attached FExit P_tcp_close [''tcp_close'']] else []) @
      (if tcp \<and> wants NetworkMask_BIND then [Attached FExit P_inet_bind [''inet_bind'']] else []) @
      (if tcp \<and> wants NetworkMask_LISTEN then [Attached FExit P_inet_listen [''inet_listen'']] else []) @
      (if udp \<and> wants NetworkMask_CONNECT then
         [Attached FExit P_udp_connect [''udp_connect''], Attached FExit P_udpv6_connect [''udpv6_connect'']]
       else []) @
      (if udp \<and> wants NetworkMask_CLOSE then [Attached FExit P_udp_destroy_sock [''udp_destroy_sock'']] else []))"

definition plan_process :: "ProcessFilter \<Rightarrow> effect list" where
  "plan_process filt =
     (let wants = ProcessMask_contains (pfl_mask filt) in
      [WroteFilter 1 (pfl_filter filt)] @
      (if wants ProcessMask_START then
         [Attached TracePoint P_sched_process_exec [''sched'', ''sched_process_exec'']] else []) @
      (if wants ProcessMask_FORK then
         [Attached TracePoint P_sched_process_fork [''sched'', ''sched_process_fork'']] else []) @
      (if wants ProcessMask_EXIT then [Attached FEntry P_do_group_exit [''do_group_exit'']] else []))"

definition plan_file :: "FileFilter \<Rightarrow> effect list" where
  "plan_file filt =
     (let wants = FileMask_contains (ff_event_type filt) in
      [WroteFilter 3 (ff_filter filt), WroteConfig 0 (ftf_mode (ff_file_mode filt)),
       Attached Lsm P_file_open [''file_open''], Attached FExit P_fput [''__fput'']] @
      (if wants FileMask_OPEN then [Attached FExit P_vfs_open [''vfs_open'']] else []) @
      (if wants FileMask_CLOSE then [Attached FExit P_filp_close [''filp_close'']] else []) @
      (if wants FileMask_READ then [Attached FExit P_vfs_read [''vfs_read'']] else []) @
      (if wants FileMask_WRITE then [Attached FExit P_vfs_write [''vfs_write'']] else []) @
      (if wants FileMask_DELETE then [Attached FExit P_vfs_unlink [''vfs_unlink'']] else []) @
      (if wants FileMask_RENAME then
         [Attached FEntry P_vfs_rename [''vfs_rename''], Attached FExit P_vfs_rename_retval [''vfs_rename'']]
       else []))"

definition plan_mem :: "MemoryFilter \<Rightarrow> effect list" where
  "plan_mem filt =
     [WroteFilter 0 (mf_filter filt)] @
     (if MemoryMask_contains (mf_mask filt) MemoryMask_MMAP then
        [Attached FExit P_vm_mmap_pgoff [''vm_mmap_pgoff'']] else []) @
     (if MemoryMask_contains (mf_mask filt) MemoryMask_UNMAP then
        [Attached FExit P_vm_munmap [''__vm_munmap'']] else [])"

section \<open>The contract of an attaching function\<close>

text \<open>The only ways a lawful loader makes a subscription fail.\<close>

fun loader_fault :: "'x fault \<Rightarrow> bool" where
  "loader_fault (Err (Attach _)) = True"
| "loader_fault (Err (MapError _)) = True"
| "loader_fault _ = False"

definition performs :: "('b \<Rightarrow> effect list) \<Rightarrow> ('b, 'x) action_step \<Rightarrow> effect \<Rightarrow> bool" where
  "performs hist stp eff =
     (\<forall>b. case fst (stp b) of
            Inr _ \<Rightarrow> hist (snd (stp b)) = hist b @ [eff]
          | Inl f \<Rightarrow> loader_fault f \<and> hist (snd (stp b)) = hist b)"

definition performs_all :: "('b \<Rightarrow> effect list) \<Rightarrow> ('b, 'x) action_step \<Rightarrow> effect list \<Rightarrow> bool" where
  "performs_all hist stp effs =
     (\<forall>b. (fst (stp b) = Inr () \<and> hist (snd (stp b)) = hist b @ effs) \<or>
          (\<exists>f n. fst (stp b) = Inl f \<and> loader_fault f \<and> n < length effs \<and>
                 hist (snd (stp b)) = hist b @ take n effs))"

locale attacher =
  fixes attach :: "('b, 'x) aya \<Rightarrow> 'f \<Rightarrow> ('b, 'x) action_step"
    and plan :: "'f \<Rightarrow> effect list"
  assumes follows_plan: "aya_law ay hist \<Longrightarrow> performs_all hist (attach ay filt) (plan filt)"
begin

lemma success_is_plan:
  assumes "aya_law ay hist" and "attach ay filt b = (Inr (), b')"
  shows "hist b' = hist b @ plan filt"
  using follows_plan [OF assms(1), of filt, unfolded performs_all_def, rule_format, of b] assms(2)
  by auto

lemma failure_is_prefix:
  assumes "aya_law ay hist" and "attach ay filt b = (Inl f, b')"
  shows "\<exists>n < length (plan filt). hist b' = hist b @ take n (plan filt)"
  using follows_plan [OF assms(1), of filt, unfolded performs_all_def, rule_format, of b] assms(2)
  by auto

lemma only_loader_faults:
  assumes "aya_law ay hist" and "attach ay filt b = (Inl f, b')"
  shows "loader_fault f"
  using follows_plan [OF assms(1), of filt, unfolded performs_all_def, rule_format, of b] assms(2)
  by auto

end

lemma performs_all_Nil: "performs_all hist (run_steps []) []"
  by (simp add: performs_all_def)

lemma performs_all_Cons:
  assumes "performs hist stp eff" and "performs_all hist (run_steps steps) effs"
  shows "performs_all hist (run_steps (stp # steps)) (eff # effs)"
  unfolding performs_all_def
proof
  fix b
  obtain r b1 where r: "stp b = (r, b1)" by force
  show "(fst (run_steps (stp # steps) b) = Inr () \<and>
         hist (snd (run_steps (stp # steps) b)) = hist b @ eff # effs) \<or>
        (\<exists>f n. fst (run_steps (stp # steps) b) = Inl f \<and> loader_fault f \<and> n < length (eff # effs) \<and>
           hist (snd (run_steps (stp # steps) b)) = hist b @ take n (eff # effs))"
  proof (cases r)
    case (Inl f)
    have "loader_fault f" "hist b1 = hist b"
      using assms(1) [unfolded performs_def, rule_format, of b] r Inl by simp_all
    with r Inl show ?thesis by (intro disjI2 exI [of _ f] exI [of _ 0]) simp
  next
    case (Inr u)
    have h: "hist b1 = hist b @ [eff]"
      using assms(1) [unfolded performs_def, rule_format, of b] r Inr by simp
    from assms(2) [unfolded performs_all_def, rule_format, of b1] show ?thesis
    proof (elim disjE exE conjE)
      assume "fst (run_steps steps b1) = Inr ()" "hist (snd (run_steps steps b1)) = hist b1 @ effs"
      with r Inr h show ?thesis by simp
    next
      fix f n
      assume "fst (run_steps steps b1) = Inl f" "loader_fault f" "n < length effs"
        "hist (snd (run_steps steps b1)) = hist b1 @ take n effs"
      with r Inr h show ?thesis by (intro disjI2 exI [of _ f] exI [of _ "Suc n"]) simp
    qed
  qed
qed

lemma performs_all_steps:
  "list_all2 (performs hist) steps effs \<Longrightarrow> performs_all hist (run_steps steps) effs"
proof (induction rule: list_all2_induct)
  case Nil
  show ?case by (rule performs_all_Nil)
next
  case (Cons stp steps eff effs)
  then show ?case by (intro performs_all_Cons)
qed

lemma load_attach_performs:
  assumes "aya_law ay hist" and "program_kind q = kind" and "program_name q = n"
  shows "performs hist (load_attach ay kind n a a') (Attached kind q (a @ a'))"
  unfolding performs_def
proof
  fix b
  obtain l b1 where l: "ay_load ay b n kind a = (l, b1)" by force
  obtain t b2 where t: "ay_attach ay b1 n kind a' = (t, b2)" by force
  have into: "ay_try_into ay b n kind = None" and h1: "hist b1 = hist b"
    and h2: "l = None \<Longrightarrow> hist b2 = hist b1 @ (if t = None then [Attached kind q (a @ a')] else [])"
    using assms l t unfolding aya_law_def by (metis, metis snd_conv, metis fst_conv snd_conv)
  show "case fst (load_attach ay kind n a a' b) of
           Inl f \<Rightarrow> loader_fault f \<and> hist (snd (load_attach ay kind n a a' b)) = hist b
         | Inr _ \<Rightarrow> hist (snd (load_attach ay kind n a a' b)) = hist b @ [Attached kind q (a @ a')]"
    by (cases l; cases t) (simp_all add: load_attach_def into l t h1 h2)
qed

text \<open>Each call performs its effect; the names of the source are those of the object's programs.\<close>

lemma attach_found:
  assumes "aya_law ay hist" and "program_name q = n"
  shows "attach_fexit ay n g = load_attach ay FExit n [g] []"
    and "attach_kprobe ay n g = load_attach ay KProbe n [] [g]"
    and "attach_fentry ay n g = load_attach ay FEntry n [g] []"
    and "attach_tracepoint ay n c g = load_attach ay TracePoint n [] [c, g]"
    and "n = ''file_open'' \<Longrightarrow> attach_lsm_probe ay = load_attach ay Lsm n [n] []"
proof -
  have "ay_program ay b n" for b using assms by (auto simp: aya_law_def)
  then show "attach_fexit ay n g = load_attach ay FExit n [g] []"
    and "attach_kprobe ay n g = load_attach ay KProbe n [] [g]"
    and "attach_fentry ay n g = load_attach ay FEntry n [g] []"
    and "attach_tracepoint ay n c g = load_attach ay TracePoint n [] [c, g]"
    and "n = ''file_open'' \<Longrightarrow> attach_lsm_probe ay = load_attach ay Lsm n [n] []"
    by (auto simp: fun_eq_iff attach_fexit_def attach_kprobe_def attach_fentry_def
        attach_tracepoint_def attach_lsm_probe_def)
qed

lemma attach_performs:
  assumes law: "aya_law ay hist" and n: "program_name q = n"
  shows "program_kind q = FExit \<Longrightarrow> performs hist (attach_fexit ay n g) (Attached FExit q [g])"
    and "program_kind q = KProbe \<Longrightarrow> performs hist (attach_kprobe ay n g) (Attached KProbe q [g])"
    and "program_kind q = FEntry \<Longrightarrow> performs hist (attach_fentry ay n g) (Attached FEntry q [g])"
    and "program_kind q = TracePoint \<Longrightarrow>
      performs hist (attach_tracepoint ay n c g) (Attached TracePoint q [c, g])"
    and "program_kind q = Lsm \<Longrightarrow> n = ''file_open'' \<Longrightarrow>
      performs hist (attach_lsm_probe ay) (Attached Lsm q [n])"
  using load_attach_performs [OF law _ n, of FExit "[g]" "[]"]
    load_attach_performs [OF law _ n, of KProbe "[]" "[g]"]
    load_attach_performs [OF law _ n, of FEntry "[g]" "[]"]
    load_attach_performs [OF law _ n, of TracePoint "[]" "[c, g]"]
    load_attach_performs [OF law _ n, of Lsm "[n]" "[]"]
  by (simp_all add: attach_found [OF law n])

lemma aya_law_insert:
  assumes "aya_law ay hist"
  shows "ay_insert_filter ay b k v = (r, b') \<Longrightarrow> hist b' = hist b @ (if r = None then [WroteFilter k v] else [])"
    and "ay_insert_config ay b k m = (r, b') \<Longrightarrow> hist b' = hist b @ (if r = None then [WroteConfig k m] else [])"
    and "ay_map ay b ''FILTER''" and "ay_map ay b ''CONFIG''"
  using assms unfolding aya_law_def by (metis fst_conv snd_conv)+

lemma write_performs:
  assumes "aya_law ay hist"
  shows "performs hist (write_to_fiter_map ay ft owner) (WroteFilter (filter_owner_u32 owner) (filters_key ft))"
    and "performs hist (write_to_map ay ff) (WroteConfig 0 (file_mode_from_type_filter (ff_file_mode ff)))"
  by (auto simp: performs_def write_to_fiter_map_def write_to_map_def aya_law_insert(3,4) [OF assms]
      dest: aya_law_insert(1,2) [OF assms] split: option.split prod.split)

interpretation network_attach: attacher attach_network_probe plan_network
proof unfold_locales
  fix ay hist filt
  assume law: "aya_law ay hist"
  have w: "performs hist (write_to_fiter_map ay (Filters_Network filt) OwnerNetwork) (WroteFilter 2 (nf_filter filt))"
    using write_performs(1) [OF law, of "Filters_Network filt" OwnerNetwork] by simp
  show "performs_all hist (attach_network_probe ay filt) (plan_network filt)"
    unfolding attach_network_probe_def plan_network_def Let_def
    by (intro performs_all_steps list_all2_appendI)
       (simp_all add: w attach_performs [OF law] when_steps_def TCP_CONNECT_def TCP_ACCEPT_def
          TCP_CLOSE_def UDP_CONNECT_def UDP_CLOSE_def)
qed

interpretation process_attach: attacher attach_process_probe plan_process
proof unfold_locales
  fix ay hist filt
  assume law: "aya_law ay hist"
  have w: "performs hist (write_to_fiter_map ay (Filters_Process filt) OwnerProcess) (WroteFilter 1 (pfl_filter filt))"
    using write_performs(1) [OF law, of "Filters_Process filt" OwnerProcess] by simp
  show "performs_all hist (attach_process_probe ay filt) (plan_process filt)"
    unfolding attach_process_probe_def plan_process_def Let_def
    by (intro performs_all_steps list_all2_appendI)
       (simp_all add: w attach_performs [OF law] when_steps_def)
qed

interpretation file_attach: attacher attach_file_probe plan_file
proof unfold_locales
  fix ay hist filt
  assume law: "aya_law ay hist"
  have w: "performs hist (write_to_fiter_map ay (Filters_File filt) OwnerFile) (WroteFilter 3 (ff_filter filt))"
    "performs hist (write_to_map ay filt) (WroteConfig 0 (ftf_mode (ff_file_mode filt)))"
    using write_performs(1) [OF law, of "Filters_File filt" OwnerFile] write_performs(2) [OF law, of filt]
    by (simp_all add: file_mode_from_type_filter_def)
  show "performs_all hist (attach_file_probe ay filt) (plan_file filt)"
    unfolding attach_file_probe_def plan_file_def Let_def
    by (intro performs_all_steps list_all2_appendI)
       (simp_all add: w attach_performs [OF law] when_steps_def)
qed

interpretation mem_attach: attacher attach_mem_probe plan_mem
proof unfold_locales
  fix ay hist filt
  assume law: "aya_law ay hist"
  have w: "performs hist (write_to_fiter_map ay (Filters_Memory filt) OwnerMemory) (WroteFilter 0 (mf_filter filt))"
    using write_performs(1) [OF law, of "Filters_Memory filt" OwnerMemory] by simp
  show "performs_all hist (attach_mem_probe ay filt) (plan_mem filt)"
    unfolding attach_mem_probe_def plan_mem_def Let_def
    by (intro performs_all_steps list_all2_appendI)
       (simp_all add: w attach_performs [OF law] when_steps_def)
qed


section \<open>A concrete loader\<close>

text \<open>
  A loader that knows the programs of the object by name and kind and records what it is asked to
  do; its state is the history and the arguments of the last \<open>load\<close>.
\<close>

definition program_of_name :: "string \<Rightarrow> program option" where
  "program_of_name n = find (\<lambda>q. program_name q = n) all_programs"

lemma program_of_name_name [simp]: "program_of_name (program_name q) = Some q"
  by (cases q) (simp_all add: program_of_name_def all_programs_def)

definition obj_aya :: "(effect list \<times> string list, unit) aya" where
  "obj_aya =
     \<lparr>ay_program = (\<lambda>b n. program_of_name n \<noteq> None),
      ay_try_into = (\<lambda>b n k. if map_option program_kind (program_of_name n) = Some k then None else Some ()),
      ay_load = (\<lambda>b n k a. (None, (fst b, a))),
      ay_attach = (\<lambda>b n k a. case program_of_name n of
         None \<Rightarrow> (Some (), b)
       | Some q \<Rightarrow> (None, (fst b @ [Attached k q (snd b @ a)], []))),
      ay_map = (\<lambda>b n. n \<in> {''FILTER'', ''CONFIG''}),
      ay_hash_map = (\<lambda>b n. None),
      ay_insert_filter = (\<lambda>b k v. (None, (fst b @ [WroteFilter k v], snd b))),
      ay_insert_config = (\<lambda>b k v. (None, (fst b @ [WroteConfig k v], snd b)))\<rparr>"

lemma obj_aya_law: "aya_law obj_aya fst"
  by (auto simp: aya_law_def obj_aya_def)

lemma performs_all_cases:
  assumes "performs_all hist stp effs"
  shows "(\<exists>b'. stp b = (Inr (), b') \<and> hist b' = hist b @ effs) \<or>
    (\<exists>f n b'. stp b = (Inl f, b') \<and> loader_fault f \<and> n < length effs \<and> hist b' = hist b @ take n effs)"
  using assms [unfolded performs_all_def, rule_format, of b] by (metis prod.collapse)

section \<open>Properties\<close>

text \<open>
  A file subscription carries out its plan in order: the process filter and the file type
  configuration first, then \<open>file_open\<close> and \<open>__fput\<close>, then the programs of the selected
  operations. Either all of it happens, or the call reports an error of the loader or of a map and
  a strict prefix of the plan has happened: the \<open>unwrap\<close> on the LSM program never panics and no
  program is missing from the object or of another kind.
\<close>

theorem file_attach_follows_plan:
  assumes "aya_law ay hist"
  shows "(\<exists>b'. attach_file_probe ay filt b = (Inr (), b') \<and> hist b' = hist b @ plan_file filt) \<or>
    (\<exists>f n b'. attach_file_probe ay filt b = (Inl f, b') \<and> loader_fault f \<and>
       n < length (plan_file filt) \<and> hist b' = hist b @ take n (plan_file filt))"
  by (rule performs_all_cases [OF file_attach.follows_plan [OF assms]])

theorem file_attach_follows_plan_witness:
  "length (plan_file FileFilter_ALL) = 11 \<and>
   ((\<exists>b'. attach_file_probe obj_aya FileFilter_ALL ([], []) = (Inr (), b') \<and> fst b' = plan_file FileFilter_ALL) \<or>
    (\<exists>f n b'. attach_file_probe obj_aya FileFilter_ALL ([], []) = (Inl f, b') \<and> loader_fault f \<and>
       n < 11 \<and> fst b' = take n (plan_file FileFilter_ALL)))"
proof -
  have len: "length (plan_file FileFilter_ALL) = 11"
    by (simp add: plan_file_def FileFilter_ALL_def FileFilter_of_mask_def FileMask_contains_def
        FileMask_ALL_def FileMask_consts Let_def)
  with file_attach_follows_plan [OF obj_aya_law, of FileFilter_ALL "([], [])"] show ?thesis by simp
qed

text \<open>
  A network subscription carries out its plan in the same way: the process filter, then for
  each selected pair of a protocol and an operation the programs of that pair, on the kernel
  functions they are written for.
\<close>

theorem network_attach_follows_plan:
  assumes "aya_law ay hist"
  shows "(\<exists>b'. attach_network_probe ay filt b = (Inr (), b') \<and> hist b' = hist b @ plan_network filt) \<or>
    (\<exists>f n b'. attach_network_probe ay filt b = (Inl f, b') \<and> loader_fault f \<and>
       n < length (plan_network filt) \<and> hist b' = hist b @ take n (plan_network filt))"
  by (rule performs_all_cases [OF network_attach.follows_plan [OF assms]])

theorem network_attach_follows_plan_witness:
  "length (plan_network NetworkFilter_UDP) = 4 \<and>
   ((\<exists>b'. attach_network_probe obj_aya NetworkFilter_UDP ([], []) = (Inr (), b') \<and> fst b' = plan_network NetworkFilter_UDP) \<or>
    (\<exists>f n b'. attach_network_probe obj_aya NetworkFilter_UDP ([], []) = (Inl f, b') \<and> loader_fault f \<and>
       n < 4 \<and> fst b' = take n (plan_network NetworkFilter_UDP)))"
proof -
  have len: "length (plan_network NetworkFilter_UDP) = 4"
    by (simp add: plan_network_def NetworkFilter_UDP_def NetworkMask_contains_def ProtocolMask_contains_def
        NetworkMask_ALL_def NetworkMask_consts ProtocolMask_consts Let_def)
  with network_attach_follows_plan [OF obj_aya_law, of NetworkFilter_UDP "([], [])"] show ?thesis by simp
qed

end
