(* ===== verification/Bpfx_Runtime.thy ===== *)
theory Bpfx_Runtime
  imports Bpfx_Convert Bpfx_Attach "HOL-Library.Sublist"
begin

text \<open>
  The runtime of \<open>src/core.rs\<close>: \<open>BpfxConfig\<close>, \<open>Bpfx\<close>, the construction of a runtime, the four
  subscriptions and the event loop. The channels are \<open>tokio\<close>'s: the record \<open>mpsc\<close> has what the code
  calls on one (\<open>None\<close> for a \<open>channel\<close> that panics); each family has a channel type of its own. The
  receiving half of a channel is not a value of the runtime: what receivers do between two calls
  (take events, go away) is an action \<open>receivers\<close> that the environment inserts before each item
  and each wake-up. The loop runs on the list of its wake-ups, \<open>Ready\<close> with the items that the ring
  buffer hands out until it is empty, or a failed wait; at the end of the list it is waiting.
\<close>

section \<open>Configuration and state\<close>

record BpfxConfig =
  channel_capacity :: usize

definition BpfxConfig_default :: BpfxConfig where
  "BpfxConfig_default = \<lparr>channel_capacity = 1024\<rparr>"

definition BpfxConfig_new :: BpfxConfig where
  "BpfxConfig_new = BpfxConfig_default"

definition set_channel_capacity :: "usize \<Rightarrow> BpfxConfig \<Rightarrow> BpfxConfig" where
  "set_channel_capacity capacity c = c\<lparr>channel_capacity := capacity\<rparr>"

record ('tx, 'e) mpsc =
  mk_channel :: "usize \<Rightarrow> 'tx option"
  try_send :: "('tx, 'e) sender"
  is_closed :: "'tx \<Rightarrow> bool"

record ('n, 'p, 'f, 'm) tokio =
  tk_network :: "('n, NetworkEvent) mpsc"
  tk_process :: "('p, ProcessEvent) mpsc"
  tk_file :: "('f, FileEvent) mpsc"
  tk_mem :: "('m, MemoryEvent) mpsc"

record 'n NetworkRegister =
  nr_filter :: NetworkFilter
  nr_tx :: 'n

record 'p ProcessRegister =
  pr_filter :: ProcessFilter
  pr_tx :: 'p

record 'f FileRegister =
  fr_filter :: FileFilter
  fr_tx :: 'f

record 'm MemRegister =
  mr_filter :: MemoryFilter
  mr_tx :: 'm

record ('b, 'r, 'n, 'p, 'f, 'm) Bpfx =
  bx_bpf :: 'b
  bx_ringbuf :: 'r
  bx_network :: "'n NetworkRegister option"
  bx_process :: "'p ProcessRegister option"
  bx_file :: "'f FileRegister option"
  bx_mem :: "'m MemRegister option"
  bx_pending_renames :: pending_renames
  bx_config :: BpfxConfig

section \<open>Construction\<close>

text \<open>
  The calls on \<open>aya\<close> and \<open>aya_log\<close> a construction makes: loading the object, the logger (whose
  failure is only logged), the kernel's BTF, taking the ring buffer map out of the object, opening
  the ring buffer.
\<close>

record ('b, 'r, 'x) loading =
  ld_load :: "'x + 'b"
  ld_logger :: "'b \<Rightarrow> 'x option \<times> 'b"
  ld_btf :: "'x option"
  ld_take_events :: "'b \<Rightarrow> 'b option"
  ld_ringbuf :: "'x + 'r"

definition Bpfx_new :: "('b, 'r, 'x) loading \<Rightarrow> 'x fault + ('b, 'r, 'n, 'p, 'f, 'm) Bpfx" where
  "Bpfx_new ld =
     (case ld_load ld of
        Inl e \<Rightarrow> Inl (Err (Load e))
      | Inr b \<Rightarrow>
          let b1 = snd (ld_logger ld b) in
          (case ld_btf ld of
             Some e \<Rightarrow> Inl (Err (Btf e))
           | None \<Rightarrow>
               (case ld_take_events ld b1 of
                  None \<Rightarrow> Inl (Err EventsMapAccess)
                | Some b2 \<Rightarrow>
                    (case ld_ringbuf ld of
                       Inl e \<Rightarrow> Inl (Err (MapError e))
                     | Inr r \<Rightarrow>
                         Inr \<lparr>bx_bpf = b2, bx_ringbuf = r, bx_network = None, bx_process = None, bx_file = None,
                           bx_mem = None, bx_pending_renames = [], bx_config = \<lparr>channel_capacity = 1024\<rparr>\<rparr>))))"

definition Bpfx_with_config ::
  "BpfxConfig \<Rightarrow> ('b, 'r, 'x) loading \<Rightarrow> 'x fault + ('b, 'r, 'n, 'p, 'f, 'm) Bpfx" where
  "Bpfx_with_config conf ld =
     (case ld_load ld of
        Inl e \<Rightarrow> Inl (Err (Load e))
      | Inr b \<Rightarrow>
          (case ld_btf ld of
             Some e \<Rightarrow> Inl (Err (Btf e))
           | None \<Rightarrow>
               (case ld_take_events ld b of
                  None \<Rightarrow> Inl (Err EventsMapAccess)
                | Some b1 \<Rightarrow>
                    (case ld_ringbuf ld of
                       Inl e \<Rightarrow> Inl (Err (MapError e))
                     | Inr r \<Rightarrow>
                         Inr \<lparr>bx_bpf = b1, bx_ringbuf = r, bx_network = None, bx_process = None, bx_file = None,
                           bx_mem = None, bx_pending_renames = [], bx_config = conf\<rparr>))))"

section \<open>Subscriptions\<close>

definition subscribe_network :: "('b, 'x) aya \<Rightarrow> ('n, 'p, 'f, 'm) tokio \<Rightarrow> NetworkFilter \<Rightarrow>
    ('b, 'r, 'n, 'p, 'f, 'm) Bpfx \<Rightarrow> ('x fault + 'n) \<times> ('b, 'r, 'n, 'p, 'f, 'm) Bpfx" where
  "subscribe_network ay tk filt bx =
     (case mk_channel (tk_network tk) (channel_capacity (bx_config bx)) of
        None \<Rightarrow> (Inl Panic, bx)
      | Some tx \<Rightarrow>
          (case attach_network_probe ay filt (bx_bpf bx) of
             (Inl e, b) \<Rightarrow> (Inl e, bx\<lparr>bx_bpf := b\<rparr>)
           | (Inr _, b) \<Rightarrow>
               (Inr tx, bx\<lparr>bx_bpf := b, bx_network := Some \<lparr>nr_filter = filt, nr_tx = tx\<rparr>\<rparr>)))"

definition subscribe_process :: "('b, 'x) aya \<Rightarrow> ('n, 'p, 'f, 'm) tokio \<Rightarrow> ProcessFilter \<Rightarrow>
    ('b, 'r, 'n, 'p, 'f, 'm) Bpfx \<Rightarrow> ('x fault + 'p) \<times> ('b, 'r, 'n, 'p, 'f, 'm) Bpfx" where
  "subscribe_process ay tk filt bx =
     (case mk_channel (tk_process tk) (channel_capacity (bx_config bx)) of
        None \<Rightarrow> (Inl Panic, bx)
      | Some tx \<Rightarrow>
          (case attach_process_probe ay filt (bx_bpf bx) of
             (Inl e, b) \<Rightarrow> (Inl e, bx\<lparr>bx_bpf := b\<rparr>)
           | (Inr _, b) \<Rightarrow>
               (Inr tx, bx\<lparr>bx_bpf := b, bx_process := Some \<lparr>pr_filter = filt, pr_tx = tx\<rparr>\<rparr>)))"

definition subscribe_file :: "('b, 'x) aya \<Rightarrow> ('n, 'p, 'f, 'm) tokio \<Rightarrow> FileFilter \<Rightarrow>
    ('b, 'r, 'n, 'p, 'f, 'm) Bpfx \<Rightarrow> ('x fault + 'f) \<times> ('b, 'r, 'n, 'p, 'f, 'm) Bpfx" where
  "subscribe_file ay tk filt bx =
     (case mk_channel (tk_file tk) (channel_capacity (bx_config bx)) of
        None \<Rightarrow> (Inl Panic, bx)
      | Some tx \<Rightarrow>
          (case attach_file_probe ay filt (bx_bpf bx) of
             (Inl e, b) \<Rightarrow> (Inl e, bx\<lparr>bx_bpf := b\<rparr>)
           | (Inr _, b) \<Rightarrow>
               (Inr tx, bx\<lparr>bx_bpf := b, bx_file := Some \<lparr>fr_filter = filt, fr_tx = tx\<rparr>\<rparr>)))"

definition subscribe_mem :: "('b, 'x) aya \<Rightarrow> ('n, 'p, 'f, 'm) tokio \<Rightarrow> MemoryFilter \<Rightarrow>
    ('b, 'r, 'n, 'p, 'f, 'm) Bpfx \<Rightarrow> ('x fault + 'm) \<times> ('b, 'r, 'n, 'p, 'f, 'm) Bpfx" where
  "subscribe_mem ay tk filt bx =
     (case mk_channel (tk_mem tk) (channel_capacity (bx_config bx)) of
        None \<Rightarrow> (Inl Panic, bx)
      | Some tx \<Rightarrow>
          (case attach_mem_probe ay filt (bx_bpf bx) of
             (Inl e, b) \<Rightarrow> (Inl e, bx\<lparr>bx_bpf := b\<rparr>)
           | (Inr _, b) \<Rightarrow>
               (Inr tx, bx\<lparr>bx_bpf := b, bx_mem := Some \<lparr>mr_filter = filt, mr_tx = tx\<rparr>\<rparr>)))"

definition has_subscribers :: "('n, 'p, 'f, 'm) tokio \<Rightarrow> ('b, 'r, 'n, 'p, 'f, 'm) Bpfx \<Rightarrow> bool" where
  "has_subscribers tk bx =
     ((case bx_network bx of None \<Rightarrow> False | Some r \<Rightarrow> \<not> is_closed (tk_network tk) (nr_tx r)) \<or>
      (case bx_process bx of None \<Rightarrow> False | Some r \<Rightarrow> \<not> is_closed (tk_process tk) (pr_tx r)) \<or>
      (case bx_file bx of None \<Rightarrow> False | Some r \<Rightarrow> \<not> is_closed (tk_file tk) (fr_tx r)) \<or>
      (case bx_mem bx of None \<Rightarrow> False | Some r \<Rightarrow> \<not> is_closed (tk_mem tk) (mr_tx r)))"

section \<open>The event loop\<close>

record ('n, 'p, 'f, 'm) receivers =
  rv_network :: "'n \<Rightarrow> 'n"
  rv_process :: "'p \<Rightarrow> 'p"
  rv_file :: "'f \<Rightarrow> 'f"
  rv_mem :: "'m \<Rightarrow> 'm"

definition apply_receivers ::
  "('n, 'p, 'f, 'm) receivers \<Rightarrow> ('b, 'r, 'n, 'p, 'f, 'm) Bpfx \<Rightarrow> ('b, 'r, 'n, 'p, 'f, 'm) Bpfx" where
  "apply_receivers rv bx =
     bx\<lparr>bx_network := map_option (\<lambda>r. r\<lparr>nr_tx := rv_network rv (nr_tx r)\<rparr>) (bx_network bx),
        bx_process := map_option (\<lambda>r. r\<lparr>pr_tx := rv_process rv (pr_tx r)\<rparr>) (bx_process bx),
        bx_file := map_option (\<lambda>r. r\<lparr>fr_tx := rv_file rv (fr_tx r)\<rparr>) (bx_file bx),
        bx_mem := map_option (\<lambda>r. r\<lparr>mr_tx := rv_mem rv (mr_tx r)\<rparr>) (bx_mem bx)\<rparr>"

type_synonym ('s, 'x) stage = "('x fault + unit) \<times> 's \<times> log_line list"

text \<open>The four stages of the loop's body on one item, each skipped without its subscription.\<close>

definition stage_network :: "('n, 'p, 'f, 'm) tokio \<Rightarrow> ring_item \<Rightarrow>
    ('b, 'r, 'n, 'p, 'f, 'm) Bpfx \<Rightarrow> (('b, 'r, 'n, 'p, 'f, 'm) Bpfx, 'x) stage" where
  "stage_network tk it bx =
     (case bx_network bx of
        None \<Rightarrow> (Inr (), bx, [])
      | Some r \<Rightarrow>
          (case convert_network_events (try_send (tk_network tk)) (nr_tx r) it of
             (res, tx, lg) \<Rightarrow> (res, bx\<lparr>bx_network := Some (r\<lparr>nr_tx := tx\<rparr>)\<rparr>, lg)))"

definition stage_process :: "('n, 'p, 'f, 'm) tokio \<Rightarrow> ring_item \<Rightarrow>
    ('b, 'r, 'n, 'p, 'f, 'm) Bpfx \<Rightarrow> (('b, 'r, 'n, 'p, 'f, 'm) Bpfx, 'x) stage" where
  "stage_process tk it bx =
     (case bx_process bx of
        None \<Rightarrow> (Inr (), bx, [])
      | Some r \<Rightarrow>
          (case convert_process_events (try_send (tk_process tk)) (pr_tx r) it of
             (res, tx, lg) \<Rightarrow> (res, bx\<lparr>bx_process := Some (r\<lparr>pr_tx := tx\<rparr>)\<rparr>, lg)))"

definition stage_file :: "('n, 'p, 'f, 'm) tokio \<Rightarrow> ring_item \<Rightarrow>
    ('b, 'r, 'n, 'p, 'f, 'm) Bpfx \<Rightarrow> (('b, 'r, 'n, 'p, 'f, 'm) Bpfx, 'x) stage" where
  "stage_file tk it bx =
     (case bx_file bx of
        None \<Rightarrow> (Inr (), bx, [])
      | Some r \<Rightarrow>
          (case convert_file_events (try_send (tk_file tk)) (fr_tx r) it (bx_pending_renames bx) of
             ((res, tx, lg), pending) \<Rightarrow>
               (res, bx\<lparr>bx_file := Some (r\<lparr>fr_tx := tx\<rparr>), bx_pending_renames := pending\<rparr>, lg)))"

definition stage_mem :: "('n, 'p, 'f, 'm) tokio \<Rightarrow> ring_item \<Rightarrow>
    ('b, 'r, 'n, 'p, 'f, 'm) Bpfx \<Rightarrow> (('b, 'r, 'n, 'p, 'f, 'm) Bpfx, 'x) stage" where
  "stage_mem tk it bx =
     (case bx_mem bx of
        None \<Rightarrow> (Inr (), bx, [])
      | Some r \<Rightarrow>
          (case convert_mem_events (try_send (tk_mem tk)) (mr_tx r) it of
             (res, tx, lg) \<Rightarrow> (res, bx\<lparr>bx_mem := Some (r\<lparr>mr_tx := tx\<rparr>)\<rparr>, lg)))"

fun run_stages :: "('s \<Rightarrow> ('s, 'x) stage) list \<Rightarrow> 's \<Rightarrow> ('s, 'x) stage" where
  "run_stages [] s = (Inr (), s, [])"
| "run_stages (g # gs) s =
     (case g s of
        (Inl e, s', lg) \<Rightarrow> (Inl e, s', lg)
      | (Inr _, s', lg) \<Rightarrow> (case run_stages gs s' of (res, s'', lg') \<Rightarrow> (res, s'', lg @ lg')))"

definition dispatch :: "('n, 'p, 'f, 'm) tokio \<Rightarrow> ring_item \<Rightarrow>
    ('b, 'r, 'n, 'p, 'f, 'm) Bpfx \<Rightarrow> (('b, 'r, 'n, 'p, 'f, 'm) Bpfx, 'x) stage" where
  "dispatch tk it = run_stages [stage_network tk it, stage_process tk it, stage_file tk it, stage_mem tk it]"

definition drain :: "('n, 'p, 'f, 'm) tokio \<Rightarrow> (('n, 'p, 'f, 'm) receivers \<times> ring_item) list \<Rightarrow>
    ('b, 'r, 'n, 'p, 'f, 'm) Bpfx \<Rightarrow> (('b, 'r, 'n, 'p, 'f, 'm) Bpfx, 'x) stage" where
  "drain tk items = run_stages (map (\<lambda>(rv, it) bx. dispatch tk it (apply_receivers rv bx)) items)"

datatype ('n, 'p, 'f, 'm, 'x) wake =
  Ready "('n, 'p, 'f, 'm) receivers" "(('n, 'p, 'f, 'm) receivers \<times> ring_item) list" | ReadError 'x

datatype 'x loop_end = Waiting | Finished "'x fault + unit"

fun event_loop_wakes :: "('n, 'p, 'f, 'm) tokio \<Rightarrow> ('n, 'p, 'f, 'm, 'x) wake list \<Rightarrow>
    ('b, 'r, 'n, 'p, 'f, 'm) Bpfx \<Rightarrow> 'x loop_end \<times> ('b, 'r, 'n, 'p, 'f, 'm) Bpfx \<times> log_line list" where
  "event_loop_wakes tk [] bx = (Waiting, bx, [])"
| "event_loop_wakes tk (ReadError e # ws) bx = (Finished (Inl (Err (Io e))), bx, [])"
| "event_loop_wakes tk (Ready rv items # ws) bx =
     (let bx1 = apply_receivers rv bx in
      if \<not> has_subscribers tk bx1 then
        (Finished (Inr ()), bx1, [Info ''all subscriptions dropped, shutting down event loop''])
      else
        (case drain tk items bx1 of
           (Inl e, bx2, lg) \<Rightarrow> (Finished (Inl e), bx2, lg)
         | (Inr _, bx2, lg) \<Rightarrow>
             (case event_loop_wakes tk ws bx2 of (res, bx3, lg') \<Rightarrow> (res, bx3, lg @ lg'))))"

text \<open>\<open>AsyncFd::new\<close> on the ring's descriptor may fail before the first wait.\<close>

definition event_loop :: "('n, 'p, 'f, 'm) tokio \<Rightarrow> 'x option \<Rightarrow> ('n, 'p, 'f, 'm, 'x) wake list \<Rightarrow>
    ('b, 'r, 'n, 'p, 'f, 'm) Bpfx \<Rightarrow> 'x loop_end \<times> ('b, 'r, 'n, 'p, 'f, 'm) Bpfx \<times> log_line list" where
  "event_loop tk async_fd wakes bx =
     (case async_fd of
        Some e \<Rightarrow> (Finished (Inl (Err (Io e))), bx, [Info ''event loop started''])
      | None \<Rightarrow>
          (case event_loop_wakes tk wakes bx of
             (res, bx', lg) \<Rightarrow> (res, bx', Info ''event loop started'' # lg)))"


section \<open>The loop on structures\<close>

text \<open>
  The abstract loop: it works on the structures of the kernel side instead of their bytes, hands
  each subscriber the view of its family and cannot fault. \<open>is_image\<close> relates an item of the ring
  to the structure it holds.
\<close>

definition feed :: "('tx, 'e) sender \<Rightarrow> string \<Rightarrow> 'e option \<Rightarrow> 'tx \<Rightarrow> 'tx \<times> log_line list" where
  "feed ts family v tx =
     (case v of
        None \<Rightarrow> (tx, [])
      | Some ev \<Rightarrow> snd (deliver ts family tx ev :: ('tx, unit) converted))"

definition spec_dispatch :: "('n, 'p, 'f, 'm) tokio \<Rightarrow> raw_event \<Rightarrow> ('b, 'r, 'n, 'p, 'f, 'm) Bpfx \<Rightarrow>
    ('b, 'r, 'n, 'p, 'f, 'm) Bpfx \<times> log_line list" where
  "spec_dispatch tk e bx =
     (let fn = (\<lambda>r. feed (try_send (tk_network tk)) ''network'' (net_view e) (nr_tx r));
          fp = (\<lambda>r. feed (try_send (tk_process tk)) ''process'' (process_view e) (pr_tx r));
          ff = (\<lambda>r. feed (try_send (tk_file tk)) ''file'' (file_view e (hm_get (bx_pending_renames bx))) (fr_tx r));
          fm = (\<lambda>r. feed (try_send (tk_mem tk)) ''memory'' (mem_view e) (mr_tx r));
          lf = (if file_view e (hm_get (bx_pending_renames bx)) = None
                then pending_log e (bx_pending_renames bx) else []) in
      (bx\<lparr>bx_network := map_option (\<lambda>r. r\<lparr>nr_tx := fst (fn r)\<rparr>) (bx_network bx),
          bx_process := map_option (\<lambda>r. r\<lparr>pr_tx := fst (fp r)\<rparr>) (bx_process bx),
          bx_file := map_option (\<lambda>r. r\<lparr>fr_tx := fst (ff r)\<rparr>) (bx_file bx),
          bx_mem := map_option (\<lambda>r. r\<lparr>mr_tx := fst (fm r)\<rparr>) (bx_mem bx),
          bx_pending_renames :=
            (if bx_file bx = None then bx_pending_renames bx else pending_after e (bx_pending_renames bx))\<rparr>,
       (case bx_network bx of None \<Rightarrow> [] | Some r \<Rightarrow> snd (fn r)) @
       (case bx_process bx of None \<Rightarrow> [] | Some r \<Rightarrow> snd (fp r)) @
       (case bx_file bx of None \<Rightarrow> [] | Some r \<Rightarrow> lf @ snd (ff r)) @
       (case bx_mem bx of None \<Rightarrow> [] | Some r \<Rightarrow> snd (fm r))))"

fun spec_drain :: "('n, 'p, 'f, 'm) tokio \<Rightarrow> (('n, 'p, 'f, 'm) receivers \<times> raw_event) list \<Rightarrow>
    ('b, 'r, 'n, 'p, 'f, 'm) Bpfx \<Rightarrow> ('b, 'r, 'n, 'p, 'f, 'm) Bpfx \<times> log_line list" where
  "spec_drain tk [] bx = (bx, [])"
| "spec_drain tk ((rv, e) # es) bx =
     (case spec_dispatch tk e (apply_receivers rv bx) of
        (bx1, lg) \<Rightarrow> (case spec_drain tk es bx1 of (bx2, lg') \<Rightarrow> (bx2, lg @ lg')))"

definition is_image :: "ring_item \<Rightarrow> raw_event \<Rightarrow> bool" where
  "is_image it e = (\<exists>p beyond. it = item_of (enc_raw p e) beyond)"

definition good_item :: "bool \<Rightarrow> 'rv \<times> ring_item \<Rightarrow> 'rv \<times> raw_event \<Rightarrow> bool" where
  "good_item only_net ri re =
     (fst ri = fst re \<and> is_image (snd ri) (snd re) \<and> wf_raw (snd re) \<and> tag_ok (snd re) \<and>
      (only_net \<longrightarrow> is_net (snd re)))"

lemma deliver_feed: "deliver ts family tx ev = (Inr (), feed ts family (Some ev) tx)"
  by (simp add: deliver_def feed_def split: prod.split send_result.split)

lemma feed_None [simp]: "feed ts family None tx = (tx, [])"
  by (simp add: feed_def)

lemma conv_feed:
  "(case v of None \<Rightarrow> (Inr (), tx, []) | Some ev \<Rightarrow> deliver ts family tx ev) = (Inr (), feed ts family v tx)"
  by (cases v) (simp_all add: deliver_feed)

lemma stage_network_spec:
  assumes "wf_raw e" "tag_ok e" "is_image it e" "bx_network bx \<noteq> None \<Longrightarrow> is_net e"
  shows "stage_network tk it bx =
    (Inr (), bx\<lparr>bx_network := map_option (\<lambda>r. r\<lparr>nr_tx :=
        fst (feed (try_send (tk_network tk)) ''network'' (net_view e) (nr_tx r))\<rparr>) (bx_network bx)\<rparr>,
     case bx_network bx of None \<Rightarrow> [] | Some r \<Rightarrow>
        snd (feed (try_send (tk_network tk)) ''network'' (net_view e) (nr_tx r)))"
  using assms
  by (auto simp: stage_network_def is_image_def network_conv.refines conv_feed split_beta
      split: option.split)

lemma stage_process_spec:
  assumes "wf_raw e" "tag_ok e" "is_image it e"
  shows "stage_process tk it bx =
    (Inr (), bx\<lparr>bx_process := map_option (\<lambda>r. r\<lparr>pr_tx :=
        fst (feed (try_send (tk_process tk)) ''process'' (process_view e) (pr_tx r))\<rparr>) (bx_process bx)\<rparr>,
     case bx_process bx of None \<Rightarrow> [] | Some r \<Rightarrow>
        snd (feed (try_send (tk_process tk)) ''process'' (process_view e) (pr_tx r)))"
  using assms
  by (auto simp: stage_process_def is_image_def process_conv.refines conv_feed split_beta
      split: option.split)

lemma stage_mem_spec:
  assumes "wf_raw e" "tag_ok e" "is_image it e"
  shows "stage_mem tk it bx =
    (Inr (), bx\<lparr>bx_mem := map_option (\<lambda>r. r\<lparr>mr_tx :=
        fst (feed (try_send (tk_mem tk)) ''memory'' (mem_view e) (mr_tx r))\<rparr>) (bx_mem bx)\<rparr>,
     case bx_mem bx of None \<Rightarrow> [] | Some r \<Rightarrow>
        snd (feed (try_send (tk_mem tk)) ''memory'' (mem_view e) (mr_tx r)))"
  using assms
  by (auto simp: stage_mem_def is_image_def mem_conv.refines conv_feed split_beta
      split: option.split)

lemma stage_file_spec:
  assumes "wf_raw e" "tag_ok e" "is_image it e"
  shows "stage_file tk it bx =
    (Inr (), bx\<lparr>bx_file := map_option (\<lambda>r. r\<lparr>fr_tx := fst (feed (try_send (tk_file tk)) ''file''
          (file_view e (hm_get (bx_pending_renames bx))) (fr_tx r))\<rparr>) (bx_file bx),
        bx_pending_renames :=
          (if bx_file bx = None then bx_pending_renames bx else pending_after e (bx_pending_renames bx))\<rparr>,
     case bx_file bx of None \<Rightarrow> [] | Some r \<Rightarrow>
       (if file_view e (hm_get (bx_pending_renames bx)) = None
        then pending_log e (bx_pending_renames bx) else []) @
       snd (feed (try_send (tk_file tk)) ''file'' (file_view e (hm_get (bx_pending_renames bx))) (fr_tx r)))"
  using assms
  by (auto simp: stage_file_def is_image_def convert_file_refines deliver_feed split_beta
      split: option.split)

lemma dispatch_refines:
  assumes "wf_raw e" "tag_ok e" "is_image it e" "bx_network bx \<noteq> None \<Longrightarrow> is_net e"
  shows "dispatch tk it bx = (Inr (), spec_dispatch tk e bx)"
  using assms
  by (simp add: dispatch_def stage_network_spec [OF assms] stage_process_spec [OF assms(1-3)]
      stage_file_spec [OF assms(1-3)] stage_mem_spec [OF assms(1-3)] spec_dispatch_def Let_def
      cong: option.case_cong)


lemma apply_receivers_None [simp]: "bx_network (apply_receivers rv bx) = None \<longleftrightarrow> bx_network bx = None"
  by (simp add: apply_receivers_def)

lemma spec_dispatch_None [simp]: "bx_network (fst (spec_dispatch tk e bx)) = None \<longleftrightarrow> bx_network bx = None"
  by (simp add: spec_dispatch_def Let_def)

lemma drain_spec:
  fixes tk :: "('n, 'p, 'f, 'm) tokio"
  assumes "list_all2 (good_item (bx_network bx \<noteq> None)) items es"
  shows "drain tk items bx = (Inr () :: 'x fault + unit, spec_drain tk es bx)"
  using assms
proof (induction items arbitrary: es bx)
  case Nil
  then show ?case by (simp add: drain_def)
next
  case (Cons ri items)
  then obtain re es' where es: "es = re # es'" by (cases es) auto
  obtain rv it e where [simp]: "ri = (rv, it)" "re = (rv, e)"
    using Cons.prems es by (cases ri; cases re) (auto simp: good_item_def)
  have g: "good_item (bx_network bx \<noteq> None) ri re"
    and rest: "list_all2 (good_item (bx_network bx \<noteq> None)) items es'"
    using Cons.prems es by simp_all
  have good: "wf_raw e" "tag_ok e" "is_image it e" "bx_network (apply_receivers rv bx) \<noteq> None \<Longrightarrow> is_net e"
    using g by (auto simp: good_item_def)
  obtain bx1 lg where s: "spec_dispatch tk e (apply_receivers rv bx) = (bx1, lg)" by force
  then have "bx_network bx1 = None \<longleftrightarrow> bx_network bx = None"
    using spec_dispatch_None [of tk e "apply_receivers rv bx"] by simp
  with rest have "list_all2 (good_item (bx_network bx1 \<noteq> None)) items es'" by simp
  note ih = Cons.IH [OF this, unfolded drain_def]
  have d: "dispatch tk it (apply_receivers rv bx) = (Inr () :: 'x fault + unit, bx1, lg)"
    using dispatch_refines [of e it "apply_receivers rv bx" tk, OF good] s by simp
  show ?case
    by (simp add: es s drain_def d ih split_beta)
qed

section \<open>The whole loop\<close>

text \<open>
  The abstract loop over its wake-ups, each with what the receivers did before it and the structures
  that the ring then holds; it says whether it has ended.
\<close>

fun spec_loop :: "('n, 'p, 'f, 'm) tokio \<Rightarrow>
    (('n, 'p, 'f, 'm) receivers \<times> (('n, 'p, 'f, 'm) receivers \<times> raw_event) list) list \<Rightarrow>
    ('b, 'r, 'n, 'p, 'f, 'm) Bpfx \<Rightarrow> bool \<times> ('b, 'r, 'n, 'p, 'f, 'm) Bpfx \<times> log_line list" where
  "spec_loop tk [] bx = (False, bx, [])"
| "spec_loop tk ((rv, es) # ws) bx =
     (let bx1 = apply_receivers rv bx in
      if \<not> has_subscribers tk bx1 then
        (True, bx1, [Info ''all subscriptions dropped, shutting down event loop''])
      else
        (case spec_drain tk es bx1 of
           (bx2, lg) \<Rightarrow> (case spec_loop tk ws bx2 of (over, bx3, lg') \<Rightarrow> (over, bx3, lg @ lg'))))"

fun good_wake :: "bool \<Rightarrow> ('n, 'p, 'f, 'm, 'x) wake \<Rightarrow>
    ('n, 'p, 'f, 'm) receivers \<times> (('n, 'p, 'f, 'm) receivers \<times> raw_event) list \<Rightarrow> bool" where
  "good_wake only_net (Ready rv items) re = (rv = fst re \<and> list_all2 (good_item only_net) items (snd re))"
| "good_wake only_net (ReadError e) re = False"

lemma spec_drain_None:
  "bx_network (fst (spec_drain tk es bx)) = None \<longleftrightarrow> bx_network bx = None"
proof (induction es arbitrary: bx)
  case (Cons re es)
  obtain rv e where re: "re = (rv, e)" by force
  from Cons [of "fst (spec_dispatch tk e (apply_receivers rv bx))"] show ?case
    by (simp add: re split_beta)
qed simp

lemma event_loop_wakes_spec:
  fixes ws :: "('n, 'p, 'f, 'm, 'x) wake list"
  assumes "list_all2 (good_wake (bx_network bx \<noteq> None)) ws ess"
  shows "event_loop_wakes tk ws bx =
    (case spec_loop tk ess bx of (over, bx', lg) \<Rightarrow> (if over then Finished (Inr ()) else Waiting, bx', lg))"
  using assms
proof (induction ws arbitrary: ess bx)
  case (Cons w ws)
  then obtain rv es ess' where ess: "ess = (rv, es) # ess'" by (cases ess) auto
  with Cons.prems obtain items where w: "w = Ready rv items"
    and items: "list_all2 (good_item (bx_network bx \<noteq> None)) items es"
    and rest: "list_all2 (good_wake (bx_network bx \<noteq> None)) ws ess'"
    by (cases w) auto
  let ?bx1 = "apply_receivers rv bx"
  have d: "drain tk items ?bx1 = (Inr () :: 'x fault + unit, spec_drain tk es ?bx1)"
    by (rule drain_spec) (use items in simp)
  obtain bx2 lg where s: "spec_drain tk es ?bx1 = (bx2, lg)" by force
  have "bx_network bx2 = None \<longleftrightarrow> bx_network bx = None"
    using spec_drain_None [of tk es ?bx1] s by simp
  with rest have "list_all2 (good_wake (bx_network bx2 \<noteq> None)) ws ess'" by simp
  from Cons.IH [OF this] show ?case by (simp add: w ess d s Let_def split: prod.split)
qed simp

lemma event_loop_wakes_append:
  assumes "event_loop_wakes tk ws bx = (Waiting, bx1, lg)"
  shows "event_loop_wakes tk (ws @ ws') bx =
    (case event_loop_wakes tk ws' bx1 of (res, bx2, lg') \<Rightarrow> (res, bx2, lg @ lg'))"
  using assms
proof (induction tk ws bx arbitrary: bx1 lg rule: event_loop_wakes.induct)
  case (3 tk rv items ws bx)
  then show ?case by (auto simp: Let_def split: if_splits sum.splits prod.splits)
qed auto

section \<open>What a lawful channel has accepted\<close>

text \<open>
  What is relied on of a channel: \<open>acc\<close>, the events it has ever accepted, grows by the event when
  \<open>try_send\<close> answers \<open>Ok\<close> and stays otherwise; receivers do not change the past.
\<close>

definition mpsc_law :: "('tx, 'e) mpsc \<Rightarrow> ('tx \<Rightarrow> 'e list) \<Rightarrow> bool" where
  "mpsc_law m acc =
     (\<forall>tx e. acc (snd (try_send m tx e)) = acc tx @ (if fst (try_send m tx e) = Sent then [e] else []))"

definition drop_line :: "string \<Rightarrow> log_line \<Rightarrow> bool" where
  "drop_line family l =
     (l = Warn (''dropping '' @ family @ '' event: channel is full'') \<or>
      l = Warn (''dropping '' @ family @ '' event: receiver has been closed''))"

definition views :: "(raw_event \<Rightarrow> 'e option) \<Rightarrow> ('rv \<times> raw_event) list \<Rightarrow> 'e list" where
  "views view es = List.map_filter (\<lambda>re. view (snd re)) es"

lemma feed_accepts:
  assumes "mpsc_law m acc"
  shows "\<exists>sent. acc (fst (feed (try_send m) family v tx)) = acc tx @ sent \<and>
    (case v of None \<Rightarrow> sent = [] \<and> snd (feed (try_send m) family v tx) = []
     | Some ev \<Rightarrow> (sent = [ev] \<and> snd (feed (try_send m) family v tx) = []) \<or>
         (sent = [] \<and> (\<exists>l. drop_line family l \<and> snd (feed (try_send m) family v tx) = [l])))"
proof (cases v)
  case None
  then show ?thesis by simp
next
  case (Some ev)
  obtain r tx' where r: "try_send m tx ev = (r, tx')" by force
  then have "acc tx' = acc tx @ (if r = Sent then [ev] else [])"
    using assms [unfolded mpsc_law_def, rule_format, of tx ev] by simp
  with r Some show ?thesis
    by (cases r) (simp_all add: feed_def deliver_def drop_line_def)
qed


text \<open>
  The views a subscriber is owed in the course of a run. For files they depend on the renames that
  are pending at each point.
\<close>

fun file_views :: "('rv \<times> raw_event) list \<Rightarrow> pending_renames \<Rightarrow> FileEvent list" where
  "file_views [] m = []"
| "file_views ((rv, e) # es) m =
     (case file_view e (hm_get m) of None \<Rightarrow> [] | Some ev \<Rightarrow> [ev]) @ file_views es (pending_after e m)"

fun run_views :: "('n, 'p, 'f, 'm) tokio \<Rightarrow> (('b, 'r, 'n, 'p, 'f, 'm) Bpfx \<Rightarrow> raw_event \<Rightarrow> 'e option) \<Rightarrow>
    (('n, 'p, 'f, 'm) receivers \<times> raw_event) list \<Rightarrow> ('b, 'r, 'n, 'p, 'f, 'm) Bpfx \<Rightarrow> 'e list" where
  "run_views tk V [] bx = []"
| "run_views tk V ((rv, e) # es) bx =
     (case V bx e of None \<Rightarrow> [] | Some ev \<Rightarrow> [ev]) @
     run_views tk V es (fst (spec_dispatch tk e (apply_receivers rv bx)))"

definition drops :: "string \<Rightarrow> log_line list \<Rightarrow> nat" where
  "drops family lg = length (filter (drop_line family) lg)"

definition accounted :: "'e option \<Rightarrow> 'e list \<Rightarrow> nat \<Rightarrow> bool" where
  "accounted v sent n =
     (case v of None \<Rightarrow> sent = [] \<and> n = 0 | Some ev \<Rightarrow> sent = [ev] \<and> n = 0 \<or> sent = [] \<and> n = 1)"

lemma drops_append [simp]: "drops F (xs @ ys) = drops F xs + drops F ys" "drops F [] = 0"
  by (simp_all add: drops_def)

lemma feed_log:
  "snd (feed ts F v tx) = [] \<or>
   snd (feed ts F v tx) = [Warn (''dropping '' @ F @ '' event: channel is full'')] \<or>
   snd (feed ts F v tx) = [Warn (''dropping '' @ F @ '' event: receiver has been closed'')]"
  by (auto simp: feed_def deliver_def split: option.split prod.split send_result.split)

lemma drops_feed_distinct:
  assumes "\<not> drop_line F (Warn (''dropping '' @ G @ '' event: channel is full''))"
    and "\<not> drop_line F (Warn (''dropping '' @ G @ '' event: receiver has been closed''))"
  shows "drops F (snd (feed ts G v tx)) = 0"
  using feed_log [of ts G v tx] assms by (elim disjE) (simp_all add: drops_def)

lemma drops_feed_other:
  "drops ''process'' (snd (feed ts ''network'' v tx)) = 0"
  "drops ''process'' (snd (feed ts ''file'' v tx)) = 0"
  "drops ''process'' (snd (feed ts ''memory'' v tx)) = 0"
  "drops ''file'' (snd (feed ts ''network'' v tx)) = 0"
  "drops ''file'' (snd (feed ts ''process'' v tx)) = 0"
  "drops ''file'' (snd (feed ts ''memory'' v tx)) = 0"
  "drops ''network'' (snd (feed ts ''process'' v tx)) = 0"
  "drops ''network'' (snd (feed ts ''file'' v tx)) = 0"
  "drops ''network'' (snd (feed ts ''memory'' v tx)) = 0"
  "drops ''memory'' (snd (feed ts ''network'' v tx)) = 0"
  "drops ''memory'' (snd (feed ts ''process'' v tx)) = 0"
  "drops ''memory'' (snd (feed ts ''file'' v tx)) = 0"
  by (rule drops_feed_distinct; simp add: drop_line_def)+

lemma drops_pending: "drops ''process'' (pending_log e m) = 0" "drops ''file'' (pending_log e m) = 0"
  "drops ''network'' (pending_log e m) = 0" "drops ''memory'' (pending_log e m) = 0"
  by (cases e; auto simp: drops_def drop_line_def Let_def split: prod.split option.split)+

lemma feed_accounted:
  assumes "mpsc_law m acc"
  shows "\<exists>sent. acc (fst (feed (try_send m) F v tx)) = acc tx @ sent \<and>
    accounted v sent (drops F (snd (feed (try_send m) F v tx)))"
  using feed_accepts [OF assms, of F v tx]
  by (auto simp: accounted_def drops_def split: option.splits)

lemma run_accounting:
  assumes step: "\<And>bx rv e. P bx \<Longrightarrow> (rv, e) \<in> set es \<Longrightarrow>
      P (fst (spec_dispatch tk e (apply_receivers rv bx))) \<and>
      (\<exists>sent. A (fst (spec_dispatch tk e (apply_receivers rv bx))) = A bx @ sent \<and>
        accounted (V bx e) sent (drops F (snd (spec_dispatch tk e (apply_receivers rv bx)))))"
    and "P bx"
  shows "P (fst (spec_drain tk es bx)) \<and>
    (\<exists>sent. A (fst (spec_drain tk es bx)) = A bx @ sent \<and> subseq sent (run_views tk V es bx) \<and>
      length (run_views tk V es bx) = length sent + drops F (snd (spec_drain tk es bx)))"
  using assms
proof (induction es arbitrary: bx)
  case Nil
  then show ?case by simp
next
  case (Cons re es)
  obtain rv e where re: "re = (rv, e)" by force
  obtain bx1 lg where s: "spec_dispatch tk e (apply_receivers rv bx) = (bx1, lg)" by force
  from Cons.prems(1) [of bx rv e] Cons.prems(2) re s obtain sent1 where
    s1: "P bx1" "A bx1 = A bx @ sent1" "accounted (V bx e) sent1 (drops F lg)" by auto
  from Cons.IH [of bx1] Cons.prems(1) s1(1) obtain sent2 where
    p: "P (fst (spec_drain tk es bx1))" and
    s2: "A (fst (spec_drain tk es bx1)) = A bx1 @ sent2" "subseq sent2 (run_views tk V es bx1)"
      "length (run_views tk V es bx1) = length sent2 + drops F (snd (spec_drain tk es bx1))"
    by auto
  have "A (fst (spec_drain tk (re # es) bx)) = A bx @ sent1 @ sent2 \<and>
      subseq (sent1 @ sent2) (run_views tk V (re # es) bx) \<and>
      length (run_views tk V (re # es) bx) = length (sent1 @ sent2) + drops F (snd (spec_drain tk (re # es) bx))"
    using s1 s2 by (auto simp: re s accounted_def split_beta split: option.splits)
  moreover have "P (fst (spec_drain tk (re # es) bx))" using p by (simp add: re s split_beta)
  ultimately show ?case by blast
qed

lemma dispatch_process:
  assumes "mpsc_law (tk_process tk) acc" "\<And>tx. acc (rv_process rv tx) = acc tx" "bx_process bx = Some r"
  shows "\<exists>r' sent. bx_process (fst (spec_dispatch tk e (apply_receivers rv bx))) = Some r' \<and>
    acc (pr_tx r') = acc (pr_tx r) @ sent \<and>
    accounted (process_view e) sent (drops ''process'' (snd (spec_dispatch tk e (apply_receivers rv bx))))"
  using feed_accounted [OF assms(1), of "''process''" "process_view e" "rv_process rv (pr_tx r)"] assms(2,3)
  by (auto simp: spec_dispatch_def Let_def apply_receivers_def drops_feed_other drops_pending
      split: option.split)

lemma run_views_process:
  "run_views tk (\<lambda>_. process_view) es bx = views process_view es"
  by (induction es arbitrary: bx) (auto simp: views_def List.map_filter_simps split: option.split)

lemma dispatch_file:
  assumes "mpsc_law (tk_file tk) acc" "\<And>tx. acc (rv_file rv tx) = acc tx" "bx_file bx = Some r"
  shows "\<exists>r' sent. bx_file (fst (spec_dispatch tk e (apply_receivers rv bx))) = Some r' \<and>
    acc (fr_tx r') = acc (fr_tx r) @ sent \<and>
    accounted (file_view e (hm_get (bx_pending_renames bx))) sent
      (drops ''file'' (snd (spec_dispatch tk e (apply_receivers rv bx))))"
  using feed_accounted [OF assms(1), of "''file''" "file_view e (hm_get (bx_pending_renames bx))"
      "rv_file rv (fr_tx r)"] assms(2,3)
  by (auto simp: spec_dispatch_def Let_def apply_receivers_def drops_feed_other drops_pending
      split: option.split)

lemma run_views_file:
  "bx_file bx \<noteq> None \<Longrightarrow>
   run_views tk (\<lambda>bx e. file_view e (hm_get (bx_pending_renames bx))) es bx = file_views es (bx_pending_renames bx)"
proof (induction es arbitrary: bx)
  case (Cons re es)
  obtain rv e where re: "re = (rv, e)" by force
  let ?bx1 = "fst (spec_dispatch tk e (apply_receivers rv bx))"
  have "bx_file ?bx1 \<noteq> None" "bx_pending_renames ?bx1 = pending_after e (bx_pending_renames bx)"
    using Cons.prems by (auto simp: spec_dispatch_def Let_def apply_receivers_def)
  with Cons.IH [of ?bx1] show ?case by (simp add: re)
qed simp


text \<open>The pending renames stay bounded through the loop, whatever the items hold.\<close>

lemma stage_pending:
  "bx_pending_renames (fst (snd (stage_network tk it bx))) = bx_pending_renames bx"
  "bx_pending_renames (fst (snd (stage_process tk it bx))) = bx_pending_renames bx"
  "bx_pending_renames (fst (snd (stage_mem tk it bx))) = bx_pending_renames bx"
  by (auto simp: stage_network_def stage_process_def stage_mem_def split: option.split prod.split)

lemma stage_file_pending:
  assumes "pending_inv (bx_pending_renames bx)"
  shows "pending_inv (bx_pending_renames (fst (snd (stage_file tk it bx))))"
  using assms pending_inv_convert [of "bx_pending_renames bx"]
  by (auto simp: stage_file_def split_beta split: option.split)

lemma run_stages_inv:
  assumes "\<And>g s. g \<in> set gs \<Longrightarrow> I s \<Longrightarrow> I (fst (snd (g s)))" and "I s"
  shows "I (fst (snd (run_stages gs s)))"
  using assms
proof (induction gs arbitrary: s)
  case (Cons g gs)
  obtain r s' lg where g: "g s = (r, s', lg)" by (cases "g s") auto
  with Cons.prems have "I s'" by (metis fst_conv list.set_intros(1) snd_conv)
  with Cons.IH [of s'] Cons.prems(1) g show ?case by (cases r) (auto simp: split_beta)
qed simp

lemma dispatch_pending:
  "pending_inv (bx_pending_renames bx) \<Longrightarrow> pending_inv (bx_pending_renames (fst (snd (dispatch tk it bx))))"
  unfolding dispatch_def
  by (rule run_stages_inv [where I = "\<lambda>bx. pending_inv (bx_pending_renames bx)"])
     (auto simp: stage_pending stage_file_pending)

lemma drain_pending:
  "pending_inv (bx_pending_renames bx) \<Longrightarrow> pending_inv (bx_pending_renames (fst (snd (drain tk items bx))))"
  unfolding drain_def
  by (rule run_stages_inv [where I = "\<lambda>bx. pending_inv (bx_pending_renames bx)"])
     (auto simp: dispatch_pending apply_receivers_def)

lemma event_loop_wakes_inv:
  fixes ws :: "('n, 'p, 'f, 'm, 'x) wake list"
  assumes "event_loop_wakes tk ws bx = (res, bx', lg)"
  shows "(res = Finished (Inr ()) \<longrightarrow> \<not> has_subscribers tk bx') \<and>
    (pending_inv (bx_pending_renames bx) \<longrightarrow> pending_inv (bx_pending_renames bx'))"
  using assms
proof (induction tk ws bx arbitrary: res bx' lg rule: event_loop_wakes.induct)
  case (3 tk rv items ws bx)
  obtain r :: "'x fault + unit" and bx2 lg2 where d: "drain tk items (apply_receivers rv bx) = (r, bx2, lg2)"
    by (cases "drain tk items (apply_receivers rv bx) :: (_, 'x) stage") auto
  have "pending_inv (bx_pending_renames (fst (snd (drain tk items (apply_receivers rv bx) :: (_, 'x) stage))))"
    if "pending_inv (bx_pending_renames bx)"
    by (rule drain_pending) (simp add: apply_receivers_def that)
  with d have p: "pending_inv (bx_pending_renames bx) \<Longrightarrow> pending_inv (bx_pending_renames bx2)" by simp
  show ?case
  proof (cases "has_subscribers tk (apply_receivers rv bx)")
    case False
    with "3.prems" show ?thesis by (auto simp: apply_receivers_def)
  next
    case sub: True
    show ?thesis
    proof (cases r)
      case (Inl e)
      with sub d p "3.prems" show ?thesis by (auto simp: Let_def)
    next
      case (Inr u)
      obtain res3 bx3 lg3 where e: "event_loop_wakes tk ws bx2 = (res3, bx3, lg3)"
        by (cases "event_loop_wakes tk ws bx2") auto
      with "3.IH" [OF refl _ d [symmetric] Inr refl e] sub Inr d p "3.prems" show ?thesis
        by (auto simp: Let_def)
    qed
  qed
qed auto

lemma process_run_accounted:
  assumes "list_all2 (good_item (bx_network bx \<noteq> None)) items es"
    and "mpsc_law (tk_process tk) acc" and "list_all (\<lambda>re. \<forall>tx. acc (rv_process (fst re) tx) = acc tx) es"
    and "bx_process bx = Some r" and "drain tk items bx = (res, bx', lg)"
  shows "res = Inr () \<and> (\<exists>r' sent. bx_process bx' = Some r' \<and> acc (pr_tx r') = acc (pr_tx r) @ sent \<and>
    subseq sent (views process_view es) \<and>
    length (views process_view es) = length sent + drops ''process'' lg)"
proof -
  let ?A = "\<lambda>bx. case bx_process bx of None \<Rightarrow> [] | Some r \<Rightarrow> acc (pr_tx r)"
  have res: "res = Inr ()" and s: "spec_drain tk es bx = (bx', lg)"
    using trans [OF assms(5) [symmetric] drain_spec [OF assms(1)]] by auto
  have step: "bx_process (fst (spec_dispatch tk e (apply_receivers rv bx))) \<noteq> None \<and>
      (\<exists>sent. ?A (fst (spec_dispatch tk e (apply_receivers rv bx))) = ?A bx @ sent \<and>
        accounted (process_view e) sent (drops ''process'' (snd (spec_dispatch tk e (apply_receivers rv bx)))))"
    if b: "bx_process bx \<noteq> None" and e: "(rv, e) \<in> set es" for bx rv e
  proof -
    from b obtain r0 where r0: "bx_process bx = Some r0" by blast
    from e assms(3) have "\<And>tx. acc (rv_process rv tx) = acc tx" by (auto simp: list_all_iff)
    from dispatch_process [OF assms(2) this r0, of e] r0 show ?thesis by auto
  qed
  from run_accounting [where P = "\<lambda>bx. bx_process bx \<noteq> None" and A = ?A and V = "\<lambda>_. process_view"
      and F = "''process''" and es = es and bx = bx, OF step] assms(4) s
  obtain sent where *: "bx_process bx' \<noteq> None" "?A bx' = acc (pr_tx r) @ sent"
    "subseq sent (views process_view es)"
    "length (views process_view es) = length sent + drops ''process'' lg"
    by (auto simp: run_views_process)
  with res show ?thesis by auto
qed

lemma file_run_accounted:
  assumes "list_all2 (good_item (bx_network bx \<noteq> None)) items es"
    and "mpsc_law (tk_file tk) acc" and "list_all (\<lambda>re. \<forall>tx. acc (rv_file (fst re) tx) = acc tx) es"
    and "bx_file bx = Some r" and "drain tk items bx = (res, bx', lg)"
  shows "res = Inr () \<and> (\<exists>r' sent. bx_file bx' = Some r' \<and> acc (fr_tx r') = acc (fr_tx r) @ sent \<and>
    subseq sent (file_views es (bx_pending_renames bx)) \<and>
    length (file_views es (bx_pending_renames bx)) = length sent + drops ''file'' lg)"
proof -
  let ?A = "\<lambda>bx. case bx_file bx of None \<Rightarrow> [] | Some r \<Rightarrow> acc (fr_tx r)"
  let ?V = "\<lambda>bx e. file_view e (hm_get (bx_pending_renames bx))"
  have res: "res = Inr ()" and s: "spec_drain tk es bx = (bx', lg)"
    using trans [OF assms(5) [symmetric] drain_spec [OF assms(1)]] by auto
  have step: "bx_file (fst (spec_dispatch tk e (apply_receivers rv bx))) \<noteq> None \<and>
      (\<exists>sent. ?A (fst (spec_dispatch tk e (apply_receivers rv bx))) = ?A bx @ sent \<and>
        accounted (?V bx e) sent (drops ''file'' (snd (spec_dispatch tk e (apply_receivers rv bx)))))"
    if b: "bx_file bx \<noteq> None" and e: "(rv, e) \<in> set es" for bx rv e
  proof -
    from b obtain r0 where r0: "bx_file bx = Some r0" by blast
    from e assms(3) have "\<And>tx. acc (rv_file rv tx) = acc tx" by (auto simp: list_all_iff)
    from dispatch_file [OF assms(2) this r0, of e] r0 show ?thesis by auto
  qed
  from run_accounting [where P = "\<lambda>bx. bx_file bx \<noteq> None" and A = ?A and V = ?V
      and F = "''file''" and es = es and bx = bx, OF step] assms(4) s
  obtain sent where *: "bx_file bx' \<noteq> None" "?A bx' = acc (fr_tx r) @ sent"
    "subseq sent (file_views es (bx_pending_renames bx))"
    "length (file_views es (bx_pending_renames bx)) = length sent + drops ''file'' lg"
    by (auto simp: run_views_file)
  with res show ?thesis by auto
qed

section \<open>A concrete set of channels\<close>

text \<open>The bounded queue with the list of all the events it has accepted.\<close>

type_synonym 'e demo_channel = "'e chan \<times> 'e list"

definition demo_mpsc :: "('e demo_channel, 'e) mpsc" where
  "demo_mpsc =
     \<lparr>mk_channel = (\<lambda>n. if n = 0 then None else Some (\<lparr>ch_queue = [], ch_cap = unat n, ch_open = True\<rparr>, [])),
      try_send = (\<lambda>c e. case chan_try_send (fst c) e of
         (Sent, c') \<Rightarrow> (Sent, (c', snd c @ [e])) | (r, c') \<Rightarrow> (r, (c', snd c))),
      is_closed = (\<lambda>c. \<not> ch_open (fst c))\<rparr>"

definition demo_tokio ::
  "(NetworkEvent demo_channel, ProcessEvent demo_channel, FileEvent demo_channel, MemoryEvent demo_channel) tokio" where
  "demo_tokio = \<lparr>tk_network = demo_mpsc, tk_process = demo_mpsc, tk_file = demo_mpsc, tk_mem = demo_mpsc\<rparr>"

definition idle ::
  "(NetworkEvent demo_channel, ProcessEvent demo_channel, FileEvent demo_channel, MemoryEvent demo_channel) receivers" where
  "idle = \<lparr>rv_network = (\<lambda>x. x), rv_process = (\<lambda>x. x), rv_file = (\<lambda>x. x), rv_mem = (\<lambda>x. x)\<rparr>"

lemma demo_mpsc_law: "mpsc_law demo_mpsc snd"
  by (auto simp: mpsc_law_def demo_mpsc_def split: prod.split send_result.split)


definition demo_items where
  "demo_items = [(idle, item_of (enc_raw (\<lambda>_. 0) (RE_exit demo_exit)) (\<lambda>_. 7)),
     (idle, item_of (enc_raw (\<lambda>_. 0) (RE_rename (demo_rename 97))) (\<lambda>_. 7)),
     (idle, item_of (enc_raw (\<lambda>_. 0) (RE_rtr demo_rtr)) (\<lambda>_. 7))]"

definition demo_events where
  "demo_events = [(idle, RE_exit demo_exit), (idle, RE_rename (demo_rename 97)), (idle, RE_rtr demo_rtr)]"

definition demo_bpfx ::
  "(unit, unit, NetworkEvent demo_channel, ProcessEvent demo_channel, FileEvent demo_channel, MemoryEvent demo_channel) Bpfx" where
  "demo_bpfx = \<lparr>bx_bpf = (), bx_ringbuf = (), bx_network = None,
     bx_process = Some \<lparr>pr_filter = ProcessFilter_ALL,
       pr_tx = (\<lparr>ch_queue = [], ch_cap = 4, ch_open = True\<rparr>, [])\<rparr>,
     bx_file = Some \<lparr>fr_filter = FileFilter_ALL,
       fr_tx = (\<lparr>ch_queue = [], ch_cap = 4, ch_open = True\<rparr>, [])\<rparr>,
     bx_mem = None, bx_pending_renames = [], bx_config = BpfxConfig_default\<rparr>"

lemma demo_good: "list_all2 (good_item (bx_network demo_bpfx \<noteq> None)) demo_items demo_events"
  using demo_ok
  by (auto simp: demo_items_def demo_events_def demo_bpfx_def good_item_def is_image_def
      simp del: enc_raw.simps wf_raw.simps tag_ok.simps)

lemma demo_idle: "list_all (\<lambda>re. \<forall>tx. snd (rv_process (fst re) tx) = snd tx) demo_events"
  "list_all (\<lambda>re. \<forall>tx. snd (rv_file (fst re) tx) = snd tx) demo_events"
  by (simp_all add: demo_events_def idle_def)

section \<open>Properties\<close>

text \<open>
  C15: the event loop refines the abstract loop. If at every wake-up each item is the memory image of
  a well-formed structure, and only network structures are in the ring while there is a network
  subscriber, the loop never faults: it waits, or has ended because no receiver was left, with
  exactly the channels, the pending renames and the log of the abstract loop, whatever the
  receivers do meanwhile.
\<close>

theorem event_loop_refines:
  assumes "list_all2 (good_wake (bx_network bx \<noteq> None)) ws ess"
  shows "event_loop tk None ws bx =
    (case spec_loop tk ess bx of (over, bx', lg) \<Rightarrow>
       (if over then Finished (Inr ()) else Waiting, bx', Info ''event loop started'' # lg))"
  using event_loop_wakes_spec [OF assms, of tk] by (simp add: event_loop_def split: prod.split)

theorem event_loop_refines_witness:
  "event_loop demo_tokio None [Ready idle demo_items] demo_bpfx =
     ((Waiting :: unit loop_end), fst (spec_drain demo_tokio demo_events demo_bpfx),
      Info ''event loop started'' # snd (spec_drain demo_tokio demo_events demo_bpfx))"
proof -
  have ws: "list_all2 (good_wake (bx_network demo_bpfx \<noteq> None)) [Ready idle demo_items :: (_, _, _, _, unit) wake]
      [(idle, demo_events)]"
    using demo_good by simp
  have "apply_receivers idle demo_bpfx = demo_bpfx" "has_subscribers demo_tokio demo_bpfx"
    by (simp_all add: apply_receivers_def idle_def demo_bpfx_def has_subscribers_def demo_tokio_def demo_mpsc_def)
  with event_loop_refines [OF ws, of demo_tokio] show ?thesis by (simp add: Let_def split_beta)
qed

text \<open>
  A file subscriber is handed the file events of the ring in their order, none twice and none
  that is not there, its renames completed from the renames pending at each point of the run; each
  event that does not reach the channel is accounted for by a line of the log: nothing is dropped
  silently.
\<close>

theorem file_events_in_order:
  assumes "list_all2 (good_item (bx_network bx \<noteq> None)) items es"
    and "mpsc_law (tk_file tk) acc" and "list_all (\<lambda>re. \<forall>tx. acc (rv_file (fst re) tx) = acc tx) es"
    and "bx_file bx = Some r" and "drain tk items bx = (res, bx', lg)"
  shows "res = Inr () \<and> (\<exists>r' sent. bx_file bx' = Some r' \<and> acc (fr_tx r') = acc (fr_tx r) @ sent \<and>
    subseq sent (file_views es (bx_pending_renames bx)) \<and>
    length (file_views es (bx_pending_renames bx)) = length sent + drops ''file'' lg)"
  using assms by (rule file_run_accounted)

theorem file_events_in_order_witness:
  "\<exists>bx' lg. drain demo_tokio demo_items demo_bpfx = (Inr () :: unit fault + unit, bx', lg) \<and>
     (\<exists>r' sent. bx_file bx' = Some r' \<and> snd (fr_tx r') = sent \<and>
       subseq sent [rename_view (demo_rename 97) 0] \<and> 1 = length sent + drops ''file'' lg)"
proof -
  obtain res :: "unit fault + unit" and bx' lg where d: "drain demo_tokio demo_items demo_bpfx = (res, bx', lg)"
    by (cases "drain demo_tokio demo_items demo_bpfx :: (_, unit) stage") auto
  have "file_views demo_events [] = [rename_view (demo_rename 97) 0]"
    by (simp add: demo_events_def MAX_PENDING_RENAMES_def hm_insert_def hm_get_def hm_len_def
        demo_rtr_def demo_rename_def demo_raw_header_def)
  with file_events_in_order [OF demo_good, of demo_tokio snd, OF _ demo_idle(2) _ d] d show ?thesis
    by (auto simp: demo_tokio_def demo_mpsc_law demo_bpfx_def)
qed


text \<open>
  C25: the event loop ends without an error only when no subscription is open, and whatever the ring
  hands out it keeps at most 1024 renames pending, each under the process and thread of its own
  header.
\<close>

theorem event_loop_safe:
  assumes "event_loop tk async_fd ws bx = (res, bx', lg)" and "pending_inv (bx_pending_renames bx)"
  shows "(res = Finished (Inr ()) \<longrightarrow> \<not> has_subscribers tk bx') \<and> pending_inv (bx_pending_renames bx')"
  using assms event_loop_wakes_inv [of tk ws bx]
  by (auto simp: event_loop_def split: option.splits prod.splits)

theorem event_loop_safe_witness:
  "\<exists>res bx' lg. event_loop demo_tokio None [Ready idle demo_items, Ready (idle\<lparr>rv_process := (\<lambda>c. ((fst c)\<lparr>ch_open := False\<rparr>, snd c)),
       rv_file := (\<lambda>c. ((fst c)\<lparr>ch_open := False\<rparr>, snd c))\<rparr>) []] demo_bpfx = (res :: unit loop_end, bx', lg) \<and>
     pending_inv (bx_pending_renames bx')"
proof -
  let ?ws = "[Ready idle demo_items, Ready (idle\<lparr>rv_process := (\<lambda>c. ((fst c)\<lparr>ch_open := False\<rparr>, snd c)),
       rv_file := (\<lambda>c. ((fst c)\<lparr>ch_open := False\<rparr>, snd c))\<rparr>) []] :: (_, _, _, _, unit) wake list"
  obtain res bx' lg where e: "event_loop demo_tokio None ?ws demo_bpfx = (res, bx', lg)"
    by (cases "event_loop demo_tokio None ?ws demo_bpfx") auto
  from event_loop_safe [OF e] have "pending_inv (bx_pending_renames bx')" by (simp add: demo_bpfx_def)
  with e show ?thesis by blast
qed

text \<open>
  A runtime made with the default configuration is the runtime that \<open>new\<close> makes, where the
  eBPF logger leaves the object as it is; a failing logger does not make \<open>new\<close> fail.
\<close>

theorem new_is_default_config:
  assumes "\<And>b. snd (ld_logger ld b) = b"
  shows "Bpfx_new ld = Bpfx_with_config BpfxConfig_default ld"
  by (simp add: Bpfx_new_def Bpfx_with_config_def BpfxConfig_default_def Let_def assms
      split: sum.split option.split)

definition demo_loading :: "(unit, unit, unit) loading" where
  "demo_loading = \<lparr>ld_load = Inr (), ld_logger = (\<lambda>b. (Some (), b)), ld_btf = None,
     ld_take_events = Some, ld_ringbuf = Inr ()\<rparr>"

theorem new_is_default_config_witness:
  "Bpfx_new demo_loading = (Bpfx_with_config BpfxConfig_default demo_loading
     :: unit fault + (unit, unit, unit, unit, unit, unit) Bpfx)"
  by (rule new_is_default_config) (simp add: demo_loading_def)

end
