(* ===== verification/Bpfx_Stream.thy ===== *)
theory Bpfx_Stream
  imports Bpfx_Runtime
begin

text \<open>
  The receiving side of a subscription: the streams \<open>PollFile\<close>, \<open>PollNetwork\<close>, \<open>PollProcess\<close> and
  \<open>PollMem\<close>, \<open>Bpfx::subscribe\<close> and \<open>Bpfx::run\<close> of \<open>src/core.rs\<close>, and the loop
  \<open>while let Some(event) = events.next().await\<close> of a consumer. A channel of \<open>tokio\<close> is one state
  that its two halves share; the record \<open>receiver\<close> has what the receiving half and the destructors
  do to it, \<open>receiver_law\<close> what is relied on: \<open>acc\<close> is what the channel has accepted, \<open>got\<close> what it
  has handed out and \<open>gone\<close> whether its senders are dropped. \<open>poll_recv\<close> may answer \<open>Pending\<close> for no
  reason, as its documentation says.
\<close>

section \<open>Streams\<close>

datatype 'a poll = Poll_Ready 'a | Poll_Pending

record ('tx, 'e) receiver =
  poll_recv :: "'tx \<Rightarrow> 'e option poll \<times> 'tx"
  drop_tx :: "'tx \<Rightarrow> 'tx"
  drop_rx :: "'tx \<Rightarrow> 'tx"

record ('n, 'p, 'f, 'm) streams =
  sm_network :: "('n, NetworkEvent) receiver"
  sm_process :: "('p, ProcessEvent) receiver"
  sm_file :: "('f, FileEvent) receiver"
  sm_mem :: "('m, MemoryEvent) receiver"

record 'n PollNetwork = pn_rx :: 'n
record 'p PollProcess = pp_rx :: 'p
record 'f PollFile = pf_rx :: 'f
record 'm PollMem = pm_rx :: 'm

definition PollNetwork_poll_next :: "('n, NetworkEvent) receiver \<Rightarrow> 'n PollNetwork \<Rightarrow>
    NetworkEvent option poll \<times> 'n PollNetwork" where
  "PollNetwork_poll_next rc pn = (case poll_recv rc (pn_rx pn) of (r, c) \<Rightarrow> (r, pn\<lparr>pn_rx := c\<rparr>))"

definition PollProcess_poll_next :: "('p, ProcessEvent) receiver \<Rightarrow> 'p PollProcess \<Rightarrow>
    ProcessEvent option poll \<times> 'p PollProcess" where
  "PollProcess_poll_next rc pn = (case poll_recv rc (pp_rx pn) of (r, c) \<Rightarrow> (r, pn\<lparr>pp_rx := c\<rparr>))"

definition PollFile_poll_next :: "('f, FileEvent) receiver \<Rightarrow> 'f PollFile \<Rightarrow>
    FileEvent option poll \<times> 'f PollFile" where
  "PollFile_poll_next rc pf = (case poll_recv rc (pf_rx pf) of (r, c) \<Rightarrow> (r, pf\<lparr>pf_rx := c\<rparr>))"

definition PollMem_poll_next :: "('m, MemoryEvent) receiver \<Rightarrow> 'm PollMem \<Rightarrow>
    MemoryEvent option poll \<times> 'm PollMem" where
  "PollMem_poll_next rc pm = (case poll_recv rc (pm_rx pm) of (r, c) \<Rightarrow> (r, pm\<lparr>pm_rx := c\<rparr>))"

section \<open>Consumers\<close>

text \<open>
  One turn of the task that runs \<open>while let Some(event) = stream.next().await { body }\<close>: it goes on
  until the stream has no event ready, where it is suspended, or is at its end, where the loop is
  left. The first component of the result says whether the loop was left.
\<close>

partial_function (option) consume ::
  "('s \<Rightarrow> 'e option poll \<times> 's) \<Rightarrow> ('e \<Rightarrow> 'o \<Rightarrow> 'o) \<Rightarrow> 's \<Rightarrow> 'o \<Rightarrow> (bool \<times> 's \<times> 'o) option" where
  "consume poll_next body s out =
     (case poll_next s of
        (Poll_Pending, s') \<Rightarrow> Some (False, s', out)
      | (Poll_Ready None, s') \<Rightarrow> Some (True, s', out)
      | (Poll_Ready (Some e), s') \<Rightarrow> consume poll_next body s' (body e out))"

fun polls :: "('s \<Rightarrow> 'e option poll \<times> 's) \<Rightarrow> nat \<Rightarrow> 's \<Rightarrow> 'e option poll list \<times> 's" where
  "polls poll_next 0 s = ([], s)"
| "polls poll_next (Suc n) s =
     (case poll_next s of (r, s') \<Rightarrow> (case polls poll_next n s' of (rs, s'') \<Rightarrow> (r # rs, s'')))"

section \<open>Subscribing and running\<close>

text \<open>\<open>Bpfx::subscribe\<close> calls the trait's \<open>subscribe\<close> of the filter's type, which is an argument.\<close>

definition Bpfx_subscribe :: "('s \<Rightarrow> 'bx \<Rightarrow> ('x fault + 'tx) \<times> 'bx) \<Rightarrow> 's \<Rightarrow> 'bx \<Rightarrow>
    ('x fault + 'tx) \<times> 'bx \<times> log_line list" where
  "Bpfx_subscribe subscribe filt bx =
     (case subscribe filt bx of (res, bx') \<Rightarrow> (res, bx', [Info ''registering subscription'']))"

text \<open>
  The task of \<open>Bpfx::run\<close> owns the runtime: when the loop is over the runtime is dropped, and the
  sender of each subscription with it. Outside of a \<open>tokio\<close> runtime \<open>tokio::spawn\<close> panics.
\<close>

definition drop_senders :: "('n, 'p, 'f, 'm) streams \<Rightarrow> ('n, 'p, 'f, 'm) receivers" where
  "drop_senders sm =
     \<lparr>rv_network = drop_tx (sm_network sm), rv_process = drop_tx (sm_process sm),
      rv_file = drop_tx (sm_file sm), rv_mem = drop_tx (sm_mem sm)\<rparr>"

definition Bpfx_run :: "('n, 'p, 'f, 'm) tokio \<Rightarrow> ('n, 'p, 'f, 'm) streams \<Rightarrow> bool \<Rightarrow> 'x option \<Rightarrow>
    ('n, 'p, 'f, 'm, 'x) wake list \<Rightarrow> ('b, 'r, 'n, 'p, 'f, 'm) Bpfx \<Rightarrow>
    'x loop_end \<times> ('b, 'r, 'n, 'p, 'f, 'm) Bpfx \<times> log_line list" where
  "Bpfx_run tk sm in_tokio async_fd wakes bx =
     (if \<not> in_tokio then (Finished (Inl Panic), apply_receivers (drop_senders sm) bx, [])
      else
        (case event_loop tk async_fd wakes bx of
           (Waiting, bx', lg) \<Rightarrow> (Waiting, bx', Info ''Bpfx runtime task started'' # lg)
         | (Finished res, bx', lg) \<Rightarrow>
             (Finished res, apply_receivers (drop_senders sm) bx',
              Info ''Bpfx runtime task started'' # lg @ [Info ''Bpfx event_loop() returned''])))"

section \<open>What is relied on of the receiving half\<close>

definition receiver_law ::
  "('tx, 'e) mpsc \<Rightarrow> ('tx, 'e) receiver \<Rightarrow> ('tx \<Rightarrow> 'e list) \<Rightarrow> ('tx \<Rightarrow> 'e list) \<Rightarrow> ('tx \<Rightarrow> bool) \<Rightarrow> bool" where
  "receiver_law m rc acc got gone =
     (mpsc_law m acc \<and>
      (\<forall>c. prefix (got c) (acc c)) \<and>
      (\<forall>c e. got (snd (try_send m c e)) = got c \<and> gone (snd (try_send m c e)) = gone c) \<and>
      (\<forall>n c. mk_channel m n = Some c \<longrightarrow> acc c = [] \<and> \<not> gone c) \<and>
      (\<forall>c r c'. poll_recv rc c = (r, c') \<longrightarrow> acc c' = acc c \<and> gone c' = gone c \<and>
         got c' = got c @ (case r of Poll_Ready (Some e) \<Rightarrow> [e] | _ \<Rightarrow> []) \<and>
         (r = Poll_Ready None \<longrightarrow> got c = acc c \<and> gone c)) \<and>
      (\<forall>c. acc (drop_tx rc c) = acc c \<and> got (drop_tx rc c) = got c \<and> gone (drop_tx rc c)) \<and>
      (\<forall>c. acc (drop_rx rc c) = acc c \<and> got (drop_rx rc c) = got c \<and> gone (drop_rx rc c) = gone c \<and>
           is_closed m (drop_rx rc c)))"

definition waiting :: "('tx \<Rightarrow> 'e list) \<Rightarrow> ('tx \<Rightarrow> 'e list) \<Rightarrow> 'tx \<Rightarrow> 'e list" where
  "waiting acc got c = drop (length (got c)) (acc c)"

lemma receiver_lawD:
  assumes "receiver_law m rc acc got gone"
  shows "mpsc_law m acc" and "prefix (got c) (acc c)"
    and "got (snd (try_send m c e)) = got c" and "gone (snd (try_send m c e)) = gone c"
    and "mk_channel m n = Some c \<Longrightarrow> acc c = []" and "mk_channel m n = Some c \<Longrightarrow> \<not> gone c"
    and "acc (drop_tx rc c) = acc c" and "got (drop_tx rc c) = got c" and "gone (drop_tx rc c)"
    and "acc (drop_rx rc c) = acc c" and "got (drop_rx rc c) = got c" and "is_closed m (drop_rx rc c)"
  using assms unfolding receiver_law_def by blast+

lemma poll_recvD:
  assumes "receiver_law m rc acc got gone" and "poll_recv rc c = (r, c')"
  shows "acc c' = acc c" and "gone c' = gone c"
    and "got c' = got c @ (case r of Poll_Ready (Some e) \<Rightarrow> [e] | _ \<Rightarrow> [])"
    and "r = Poll_Ready None \<Longrightarrow> got c = acc c" and "r = Poll_Ready None \<Longrightarrow> gone c"
  using assms unfolding receiver_law_def by blast+

lemma got_waiting: "receiver_law m rc acc got gone \<Longrightarrow> got c @ waiting acc got c = acc c"
  by (metis receiver_lawD(2) append_eq_conv_conj prefixE waiting_def)

lemma poll_waiting:
  assumes "receiver_law m rc acc got gone" and "poll_recv rc c = (Poll_Ready (Some e), c')"
  shows "waiting acc got c = e # waiting acc got c'"
proof -
  have "got c @ waiting acc got c = got c @ e # waiting acc got c'"
    using got_waiting [OF assms(1), of c] got_waiting [OF assms(1), of c'] poll_recvD(1,3) [OF assms]
    by simp
  then show ?thesis by simp
qed

lemma feed_receiver:
  assumes "receiver_law m rc acc got gone"
  shows "\<exists>sent. acc (fst (feed (try_send m) F v c)) = acc c @ sent \<and>
    got (fst (feed (try_send m) F v c)) = got c \<and> gone (fst (feed (try_send m) F v c)) = gone c \<and>
    accounted v sent (drops F (snd (feed (try_send m) F v c)))"
proof -
  have "fst (feed (try_send m) F v c) = c \<or> (\<exists>e. fst (feed (try_send m) F v c) = snd (try_send m c e))"
  proof (cases v)
    case (Some e)
    obtain r c' where "try_send m c e = (r, c')" by force
    with Some have "fst (feed (try_send m) F v c) = snd (try_send m c e)"
      by (cases r) (simp_all add: feed_def deliver_def)
    then show ?thesis by blast
  qed simp
  with receiver_lawD(3,4) [OF assms] have "got (fst (feed (try_send m) F v c)) = got c"
    "gone (fst (feed (try_send m) F v c)) = gone c" by auto
  with feed_accounted [OF receiver_lawD(1) [OF assms], of F v c] show ?thesis by blast
qed

section \<open>The contract of a stream\<close>

text \<open>
  A stream is a handle on the receiving half of a channel that delegates to it. On a lawful channel
  a consumer's turn ends, hands out the waiting events in their order, and its loop is left only
  when the senders are gone and nothing is left to hand out.
\<close>

locale event_stream =
  fixes poll_next :: "('tx, 'e) receiver \<Rightarrow> 's \<Rightarrow> 'e option poll \<times> 's"
    and rx :: "'s \<Rightarrow> 'tx"
    and put :: "'tx \<Rightarrow> 's \<Rightarrow> 's"
  assumes delegates: "poll_next rc s = (case poll_recv rc (rx s) of (r, c) \<Rightarrow> (r, put c s))"
    and rx_put: "rx (put c s) = c"
begin

lemma poll_nextE:
  assumes "poll_next rc s = (r, s')"
  obtains c where "poll_recv rc (rx s) = (r, c)" and "rx s' = c"
  using assms by (auto simp: delegates rx_put split: prod.splits)

lemma consume_total:
  assumes law: "receiver_law m rc acc got gone"
  shows "\<exists>b s' evs. consume (poll_next rc) body s out = Some (b, s', fold body evs out) \<and>
    got (rx s') = got (rx s) @ evs \<and> acc (rx s') = acc (rx s) \<and> gone (rx s') = gone (rx s) \<and>
    (b \<longrightarrow> got (rx s') = acc (rx s') \<and> gone (rx s'))"
proof (induction "length (waiting acc got (rx s))" arbitrary: s out rule: less_induct)
  case less
  obtain r s1 where p: "poll_next rc s = (r, s1)" by force
  then obtain c where c: "poll_recv rc (rx s) = (r, c)" "rx s1 = c" by (rule poll_nextE)
  note d = poll_recvD [OF law c(1)]
  show ?case
  proof (cases "\<exists>e. r = Poll_Ready (Some e)")
    case True
    then obtain e where r: "r = Poll_Ready (Some e)" ..
    with c have "length (waiting acc got (rx s1)) < length (waiting acc got (rx s))"
      using poll_waiting [OF law, of "rx s" e c] by simp
    from less [OF this, of "body e out"] obtain b s' evs where
      "consume (poll_next rc) body s1 (body e out) = Some (b, s', fold body evs (body e out))"
      "got (rx s') = got c @ evs" "acc (rx s') = acc c" "gone (rx s') = gone c"
      "b \<longrightarrow> got (rx s') = acc (rx s') \<and> gone (rx s')" using c(2) by auto
    with r p d show ?thesis
      by (intro exI [of _ b] exI [of _ s'] exI [of _ "e # evs"]) (simp add: consume.simps [of _ body s])
  next
    case False
    with p c(2) d show ?thesis
      by (intro exI [of _ "r = Poll_Ready None"] exI [of _ s1] exI [of _ "[]"])
         (auto simp: consume.simps [of _ body s] split: poll.split option.split)
  qed
qed

text \<open>As many polls that are not spurious as there are events waiting hand all of them out.\<close>

lemma polls_deliver:
  assumes law: "receiver_law m rc acc got gone" and "polls (poll_next rc) n s = (rs, s')"
    and "length (waiting acc got (rx s)) \<le> length (filter (\<lambda>r. r \<noteq> Poll_Pending) rs)"
  shows "got (rx s') = acc (rx s) \<and> acc (rx s') = acc (rx s) \<and> gone (rx s') = gone (rx s)"
  using assms(2,3)
proof (induction n arbitrary: s rs)
  case 0
  then show ?case using got_waiting [OF law, of "rx s"] by simp
next
  case (Suc n)
  obtain r s1 where p: "poll_next rc s = (r, s1)" by force
  obtain rs1 where q: "polls (poll_next rc) n s1 = (rs1, s')" and rs: "rs = r # rs1"
    using Suc.prems(1) p by (auto split: prod.splits)
  from p obtain c where c: "poll_recv rc (rx s) = (r, c)" "rx s1 = c" by (rule poll_nextE)
  note d = poll_recvD [OF law c(1)]
  have "length (waiting acc got c) \<le> length (filter (\<lambda>r. r \<noteq> Poll_Pending) rs1)"
  proof (cases "\<exists>e. r = Poll_Ready (Some e)")
    case True
    then show ?thesis using poll_waiting [OF law, of "rx s"] c(1) Suc.prems(2) rs by auto
  next
    case False
    with d have "waiting acc got c = waiting acc got (rx s)"
      by (auto simp: waiting_def split: poll.splits option.splits)
    moreover have "r = Poll_Ready None \<Longrightarrow> waiting acc got (rx s) = []"
      using d(4) by (simp add: waiting_def)
    moreover have "r = Poll_Pending \<or> r = Poll_Ready None"
      using False by (metis poll.exhaust option.exhaust)
    ultimately show ?thesis using Suc.prems(2) rs by auto
  qed
  with Suc.IH [OF q] c(2) d show ?case by simp
qed

lemma ends_only_when_gone:
  assumes "receiver_law m rc acc got gone" and "poll_next rc s = (Poll_Ready None, s')"
  shows "gone (rx s) \<and> got (rx s) = acc (rx s)"
  using assms(2) poll_recvD(4,5) [OF assms(1)] by (auto elim!: poll_nextE)

lemma end_is_reached:
  assumes "receiver_law m rc acc got gone" and "got (rx s) = acc (rx s)"
    and "poll_next rc s = (r, s')" and "r \<noteq> Poll_Pending"
  shows "r = Poll_Ready None"
proof (cases r)
  case (Poll_Ready v)
  from assms(3) obtain c where c: "poll_recv rc (rx s) = (r, c)" by (rule poll_nextE)
  show ?thesis
  proof (cases v)
    case (Some e)
    with Poll_Ready c have "waiting acc got (rx s) \<noteq> []" using poll_waiting [OF assms(1)] by fastforce
    with assms(2) show ?thesis by (simp add: waiting_def)
  qed (simp add: Poll_Ready)
qed (use assms(4) in simp)

lemma polls_end:
  assumes law: "receiver_law m rc acc got gone" and "polls (poll_next rc) n s = (rs, s')"
    and "length (waiting acc got (rx s)) < length (filter (\<lambda>r. r \<noteq> Poll_Pending) rs)"
  shows "Poll_Ready None \<in> set rs"
  using assms(2,3)
proof (induction n arbitrary: s rs)
  case (Suc n)
  obtain r s1 where p: "poll_next rc s = (r, s1)" by force
  obtain rs1 where q: "polls (poll_next rc) n s1 = (rs1, s')" and rs: "rs = r # rs1"
    using Suc.prems(1) p by (auto split: prod.splits)
  from p obtain c where c: "poll_recv rc (rx s) = (r, c)" "rx s1 = c" by (rule poll_nextE)
  consider "r = Poll_Ready None" | "r = Poll_Pending" | e where "r = Poll_Ready (Some e)"
    by (metis poll.exhaust option.exhaust)
  then show ?case
  proof cases
    case 2
    with poll_recvD(1,3) [OF law c(1)] have "waiting acc got c = waiting acc got (rx s)"
      by (simp add: waiting_def)
    with 2 Suc.IH [OF q] Suc.prems(2) rs c(2) show ?thesis by simp
  next
    case 3
    with poll_waiting [OF law, of "rx s"] c Suc.IH [OF q] Suc.prems(2) rs show ?thesis by simp
  qed (simp add: rs)
qed simp

lemma polls_keep:
  assumes law: "receiver_law m rc acc got gone" and "polls (poll_next rc) n s = (rs, s')" and "\<not> gone (rx s)"
  shows "Poll_Ready None \<notin> set rs"
  using assms(2,3)
proof (induction n arbitrary: s rs)
  case (Suc n)
  obtain r s1 where p: "poll_next rc s = (r, s1)" by force
  obtain rs1 where q: "polls (poll_next rc) n s1 = (rs1, s')" and rs: "rs = r # rs1"
    using Suc.prems(1) p by (auto split: prod.splits)
  from p obtain c where c: "poll_recv rc (rx s) = (r, c)" "rx s1 = c" by (rule poll_nextE)
  with poll_recvD(2,5) [OF law c(1)] Suc.IH [OF q] Suc.prems(2) rs show ?case by auto
qed simp

end

interpretation network_stream: event_stream PollNetwork_poll_next pn_rx "\<lambda>c s. s\<lparr>pn_rx := c\<rparr>"
  by unfold_locales (simp_all add: PollNetwork_poll_next_def)

interpretation process_stream: event_stream PollProcess_poll_next pp_rx "\<lambda>c s. s\<lparr>pp_rx := c\<rparr>"
  by unfold_locales (simp_all add: PollProcess_poll_next_def)

interpretation file_stream: event_stream PollFile_poll_next pf_rx "\<lambda>c s. s\<lparr>pf_rx := c\<rparr>"
  by unfold_locales (simp_all add: PollFile_poll_next_def)

interpretation mem_stream: event_stream PollMem_poll_next pm_rx "\<lambda>c s. s\<lparr>pm_rx := c\<rparr>"
  by unfold_locales (simp_all add: PollMem_poll_next_def)

section \<open>Dropping the streams\<close>

definition drop_receivers :: "('n, 'p, 'f, 'm) streams \<Rightarrow> ('n, 'p, 'f, 'm) receivers" where
  "drop_receivers sm =
     \<lparr>rv_network = drop_rx (sm_network sm), rv_process = drop_rx (sm_process sm),
      rv_file = drop_rx (sm_file sm), rv_mem = drop_rx (sm_mem sm)\<rparr>"

definition closing :: "('n, 'p, 'f, 'm) tokio \<Rightarrow> ('n, 'p, 'f, 'm) streams \<Rightarrow> bool" where
  "closing tk sm =
     ((\<forall>c. is_closed (tk_network tk) (drop_rx (sm_network sm) c)) \<and>
      (\<forall>c. is_closed (tk_process tk) (drop_rx (sm_process sm) c)) \<and>
      (\<forall>c. is_closed (tk_file tk) (drop_rx (sm_file sm) c)) \<and>
      (\<forall>c. is_closed (tk_mem tk) (drop_rx (sm_mem sm) c)))"

lemma no_subscribers_left: "closing tk sm \<Longrightarrow> \<not> has_subscribers tk (apply_receivers (drop_receivers sm) bx)"
  by (auto simp: closing_def has_subscribers_def apply_receivers_def drop_receivers_def split: option.split)

section \<open>A concrete channel with both halves\<close>

text \<open>The bounded queue with what it has handed out; it is closed when a half is dropped.\<close>

record 'e qchan =
  qc_got :: "'e list"
  qc_queue :: "'e list"
  qc_cap :: nat
  qc_rx_gone :: bool
  qc_tx_gone :: bool

definition q_acc :: "'e qchan \<Rightarrow> 'e list" where
  "q_acc c = qc_got c @ qc_queue c"

definition q_mpsc :: "('e qchan, 'e) mpsc" where
  "q_mpsc =
     \<lparr>mk_channel = (\<lambda>n. if n = 0 then None
        else Some \<lparr>qc_got = [], qc_queue = [], qc_cap = unat n, qc_rx_gone = False, qc_tx_gone = False\<rparr>),
      try_send = (\<lambda>c e. if qc_rx_gone c then (Closed, c)
        else if qc_cap c \<le> length (qc_queue c) then (Full, c)
        else (Sent, c\<lparr>qc_queue := qc_queue c @ [e]\<rparr>)),
      is_closed = qc_rx_gone\<rparr>"

definition q_receiver :: "('e qchan, 'e) receiver" where
  "q_receiver =
     \<lparr>poll_recv = (\<lambda>c. case qc_queue c of
         e # es \<Rightarrow> (Poll_Ready (Some e), c\<lparr>qc_got := qc_got c @ [e], qc_queue := es\<rparr>)
       | [] \<Rightarrow> (if qc_tx_gone c then Poll_Ready None else Poll_Pending, c)),
      drop_tx = (\<lambda>c. c\<lparr>qc_tx_gone := True\<rparr>),
      drop_rx = (\<lambda>c. c\<lparr>qc_rx_gone := True\<rparr>)\<rparr>"

lemma q_law: "receiver_law q_mpsc q_receiver q_acc qc_got qc_tx_gone"
  by (auto simp: receiver_law_def mpsc_law_def q_mpsc_def q_receiver_def q_acc_def
      split: list.splits if_splits)

definition q_tokio :: "(NetworkEvent qchan, ProcessEvent qchan, FileEvent qchan, MemoryEvent qchan) tokio" where
  "q_tokio = \<lparr>tk_network = q_mpsc, tk_process = q_mpsc, tk_file = q_mpsc, tk_mem = q_mpsc\<rparr>"

definition q_streams :: "(NetworkEvent qchan, ProcessEvent qchan, FileEvent qchan, MemoryEvent qchan) streams" where
  "q_streams = \<lparr>sm_network = q_receiver, sm_process = q_receiver, sm_file = q_receiver, sm_mem = q_receiver\<rparr>"

lemma q_closing: "closing q_tokio q_streams"
  by (simp add: closing_def q_tokio_def q_streams_def q_mpsc_def q_receiver_def)

definition q_bpfx :: "FileEvent list \<Rightarrow>
    (unit, unit, NetworkEvent qchan, ProcessEvent qchan, FileEvent qchan, MemoryEvent qchan) Bpfx" where
  "q_bpfx evs = \<lparr>bx_bpf = (), bx_ringbuf = (), bx_network = None, bx_process = None,
     bx_file = Some \<lparr>fr_filter = FileFilter_ALL, fr_tx = \<lparr>qc_got = [], qc_queue = evs, qc_cap = 4,
       qc_rx_gone = False, qc_tx_gone = False\<rparr>\<rparr>,
     bx_mem = None, bx_pending_renames = [], bx_config = BpfxConfig_default\<rparr>"

section \<open>Properties\<close>

text \<open>
  C19: a turn of a file consumer ends. Whatever the body of \<open>while let Some(event) = stream.next().await\<close>
  does with an event, on a lawful channel the task comes back: it has run the body once on each
  event it took, in the order in which the channel accepted them, and has left the loop only if the
  senders are gone and every accepted event was taken.
\<close>

theorem file_consumer_turn_ends:
  assumes "receiver_law m rc acc got gone"
  shows "\<exists>over s' evs. consume (PollFile_poll_next rc) body s out = Some (over, s', fold body evs out) \<and>
    got (pf_rx s') = got (pf_rx s) @ evs \<and> prefix (got (pf_rx s')) (acc (pf_rx s)) \<and>
    (over \<longrightarrow> gone (pf_rx s) \<and> got (pf_rx s') = acc (pf_rx s))"
proof -
  from file_stream.consume_total [OF assms, of body s out] obtain over s' evs where
    "consume (PollFile_poll_next rc) body s out = Some (over, s', fold body evs out)"
    "got (pf_rx s') = got (pf_rx s) @ evs" "acc (pf_rx s') = acc (pf_rx s)" "gone (pf_rx s') = gone (pf_rx s)"
    "over \<longrightarrow> got (pf_rx s') = acc (pf_rx s') \<and> gone (pf_rx s')"
    by blast
  with receiver_lawD(2) [OF assms, of "pf_rx s'"] show ?thesis
    by (intro exI [of _ over] exI [of _ s'] exI [of _ evs]) auto
qed

theorem file_consumer_turn_ends_witness:
  "\<exists>over s' evs. consume (PollFile_poll_next q_receiver) (\<lambda>e n. Suc n)
       \<lparr>pf_rx = fr_tx (the (bx_file (q_bpfx [rename_view (demo_rename 97) 0])))\<rparr> 0
     = Some (over, s', fold (\<lambda>e n. Suc n) evs (0 :: nat)) \<and> qc_got (pf_rx s') = evs"
proof -
  let ?s = "\<lparr>pf_rx = fr_tx (the (bx_file (q_bpfx [rename_view (demo_rename 97) 0])))\<rparr>"
  have "qc_got (pf_rx ?s) = []" by (simp add: q_bpfx_def)
  with file_consumer_turn_ends [OF q_law, of "\<lambda>e n. Suc n" ?s 0] show ?thesis by auto
qed



text \<open>
  C16: the loop stops. Once every stream has been dropped, the loop that was waiting ends without an
  error at its next wake-up, whatever wakes it, and converts none of the items that are there.
\<close>

theorem loop_stops_when_streams_dropped:
  assumes "closing tk sm" and "event_loop tk None ws bx = (Waiting, bx1, lg)"
  shows "event_loop tk None (ws @ Ready (drop_receivers sm) items # ws') bx =
    (Finished (Inr ()), apply_receivers (drop_receivers sm) bx1,
     lg @ [Info ''all subscriptions dropped, shutting down event loop''])"
proof -
  from assms(2) obtain lg0 where w: "event_loop_wakes tk ws bx = (Waiting, bx1, lg0)"
    and lg: "lg = Info ''event loop started'' # lg0"
    by (auto simp: event_loop_def split: prod.splits)
  show ?thesis
    using no_subscribers_left [OF assms(1), of bx1]
    by (simp add: event_loop_def event_loop_wakes_append [OF w] lg Let_def)
qed

theorem loop_stops_when_streams_dropped_witness:
  "fst (event_loop q_tokio None [Ready (drop_receivers q_streams) []] (q_bpfx [])) = (Finished (Inr ()) :: unit loop_end)"
proof -
  have "event_loop q_tokio None [] (q_bpfx []) = (Waiting :: unit loop_end, q_bpfx [], [Info ''event loop started''])"
    by (simp add: event_loop_def)
  from loop_stops_when_streams_dropped [OF q_closing this, of "[]" "[]"] show ?thesis by simp
qed



end
