(* ===== verification/Ebpf_Props.thy ===== *)
theory Ebpf_Props
  imports Ebpf_Probes
begin

text \<open>
  What the eBPF object guarantees. The locale \<open>probe_contract\<close> is what the rest of the system relies
  on in any program attached to the kernel: it returns 0, it never writes the maps user space
  configures it with, it submits at most one event per invocation, and that event is tagged with
  the type of its structure, carries the context of the task that ran the hook and passes the
  filters. The contract is discharged for every program of the object; \<open>kernel_run\<close> is the
  relation between the map states of a machine on which a set of programs is attached, user space
  reads the ring buffer and writes the filter maps, in any interleaving.
\<close>

section \<open>What an event is allowed to be\<close>

fun event_owner :: "raw_event \<Rightarrow> FilterOwner" where
  "event_owner (RE_net _) = OwnerNetwork"
| "event_owner (RE_start _) = OwnerProcess"
| "event_owner (RE_exit _) = OwnerProcess"
| "event_owner (RE_fork _) = OwnerProcess"
| "event_owner (RE_mmap _) = OwnerMemory"
| "event_owner (RE_munmap _) = OwnerMemory"
| "event_owner _ = OwnerFile"

text \<open>The two structures whose programs do not consult the process filter.\<close>

fun unfiltered :: "raw_event \<Rightarrow> bool" where
  "unfiltered (RE_rtr _) = True"
| "unfiltered (RE_munmap _) = True"
| "unfiltered _ = False"

fun event_mode :: "raw_event \<Rightarrow> u16 option" where
  "event_mode (RE_open e) = Some (mode (ro_file_mode e))"
| "event_mode (RE_close e) = Some (mode (rc_file_mode e))"
| "event_mode (RE_read e) = Some (mode (rr_file_mode e))"
| "event_mode (RE_write e) = Some (mode (rw_file_mode e))"
| "event_mode (RE_delete e) = Some (mode (rd_file_mode e))"
| "event_mode (RE_rename e) = Some (mode (rn_file_mode e))"
| "event_mode _ = None"

fun event_path :: "raw_event \<Rightarrow> u8 list option" where
  "event_path (RE_open e) = Some (ro_file_path e)"
| "event_path (RE_close e) = Some (rc_file_path e)"
| "event_path (RE_read e) = Some (rr_file_path e)"
| "event_path (RE_write e) = Some (rw_file_path e)"
| "event_path _ = None"

definition passes :: "kstate \<Rightarrow> raw_event \<Rightarrow> bool" where
  "passes s e =
     (case FILTER s (filter_owner_u32 (event_owner e)) of
        None \<Rightarrow> True
      | Some key \<Rightarrow> key_matches key (raw_header e))"

definition type_selected :: "kstate \<Rightarrow> raw_event \<Rightarrow> bool" where
  "type_selected s e =
     (case event_mode e of
        None \<Rightarrow> True
      | Some m \<Rightarrow> (case CONFIG s 0 of None \<Rightarrow> False | Some c \<Rightarrow> mode c AND m \<noteq> 0))"

definition emit_ok :: "kenv \<Rightarrow> kstate \<Rightarrow> raw_event \<Rightarrow> bool" where
  "emit_ok env s e =
     (tag_ok e \<and> raw_header e = build_event_header env (rh_event_type (raw_header e)) \<and>
      (unfiltered e \<or> passes s e) \<and> type_selected s e)"

definition ring_inv :: "kstate \<Rightarrow> bool" where
  "ring_inv s = (wf_kstate s \<and> (\<forall>e\<in>set (EVENTS s). wf_raw e \<and> tag_ok e))"

section \<open>The contract of a program\<close>

locale probe_contract =
  fixes run :: "kenv \<Rightarrow> kstate \<Rightarrow> kres \<times> kstate"
  assumes returns_ok: "fst (run env s) = KOk 0"
    and keeps_filter: "FILTER (snd (run env s)) = FILTER s"
    and keeps_config: "CONFIG (snd (run env s)) = CONFIG s"
    and emits: "EVENTS (snd (run env s)) = EVENTS s \<or>
          (\<exists>e. EVENTS (snd (run env s)) = EVENTS s @ [e] \<and> emit_ok env s e)"
    and keeps_wf: "wf_env env \<Longrightarrow> wf_kstate s \<Longrightarrow> wf_kstate (snd (run env s))"
    and emits_wf: "wf_env env \<Longrightarrow> wf_kstate s \<Longrightarrow>
          EVENTS (snd (run env s)) = EVENTS s @ [e] \<Longrightarrow> wf_raw e"
begin

lemma run_cases:
  obtains (silent) "EVENTS (snd (run env s)) = EVENTS s"
  | (event) e where "EVENTS (snd (run env s)) = EVENTS s @ [e]" and "emit_ok env s e"
  using emits [of env s] by blast

lemma keeps_ring_inv:
  assumes "wf_env env" and "ring_inv s"
  shows "ring_inv (snd (run env s))"
proof (cases rule: run_cases [of env s])
  case silent
  with assms show ?thesis by (auto simp: ring_inv_def keeps_wf)
next
  case (event e)
  moreover have "wf_raw e" using emits_wf [OF assms(1) _ event(1)] assms(2) by (simp add: ring_inv_def)
  ultimately show ?thesis
    using assms by (auto simp: ring_inv_def keeps_wf emit_ok_def)
qed

lemma emitted_filtered:
  assumes "EVENTS (snd (run env s)) = EVENTS s @ es" and "e \<in> set es"
  shows "es = [e] \<and> emit_ok env s e"
  using assms emits [of env s] by auto

lemma appends: "\<exists>es. EVENTS (snd (run env s)) = EVENTS s @ es \<and> length es \<le> 1"
proof (cases rule: run_cases [of env s])
  case silent
  then show ?thesis by simp
next
  case (event e)
  then show ?thesis by (intro exI [of _ "[e]"]) simp
qed

end

section \<open>The programs satisfy it\<close>

lemma passes_filter:
  "filter_owner_u32 (event_owner e) = filter_owner_u32 owner \<Longrightarrow> raw_header e = h \<Longrightarrow>
   passes s e \<longleftrightarrow> \<not> filter_events s owner h"
  by (auto simp: passes_def filter_events_iff split: option.splits)

lemma capture_inode_cases:
  "fst (capture_inode env s i) \<longleftrightarrow>
     (\<exists>c. CONFIG s 0 = Some c \<and> mode c AND mode (snd (capture_inode env s i)) \<noteq> 0)"
  by (auto simp: capture_inode_def Let_def split: option.splits)

lemma wf_kstate_simps [simp]:
  "wf_kstate (submit e s) = wf_kstate s"
  by (simp add: wf_kstate_def)

lemmas probe_splits = if_splits option.splits prod.splits

text \<open>
  The outcome of an invocation: the state changes at most in the maps the object keeps for itself
  (\<open>frame\<close>), and one good event may be submitted.
\<close>

definition frame :: "kenv \<Rightarrow> kstate \<Rightarrow> kstate \<Rightarrow> bool" where
  "frame env s t =
     (EVENTS t = EVENTS s \<and> FILTER t = FILTER s \<and> CONFIG t = CONFIG s \<and>
      (wf_env env \<longrightarrow> wf_kstate s \<longrightarrow> wf_kstate t))"

definition outcome :: "kenv \<Rightarrow> kstate \<Rightarrow> kres \<times> kstate \<Rightarrow> bool" where
  "outcome env s r =
     (\<exists>t. frame env s t \<and>
        (r = (KOk 0, t) \<or>
         (\<exists>e. r = (KOk 0, submit e t) \<and> emit_ok env s e \<and>
              (wf_env env \<longrightarrow> wf_kstate s \<longrightarrow> wf_raw e))))"

lemma frame_refl [simp]: "frame env s s"
  by (simp add: frame_def)

lemma outcome_silent [simp]: "outcome env s (KOk 0, s)"
  unfolding outcome_def by (rule exI [of _ s]) simp

lemma outcome_frame: "frame env s t \<Longrightarrow> outcome env s (KOk 0, t)"
  unfolding outcome_def by (rule exI [of _ t]) simp

lemma outcome_submit_frame:
  "frame env s t \<Longrightarrow> emit_ok env s e \<Longrightarrow> (wf_env env \<Longrightarrow> wf_kstate s \<Longrightarrow> wf_raw e) \<Longrightarrow>
   outcome env s (KOk 0, submit e t)"
  unfolding outcome_def by (rule exI [of _ t]) blast

lemma outcome_submit:
  "emit_ok env s e \<Longrightarrow> (wf_env env \<Longrightarrow> wf_kstate s \<Longrightarrow> wf_raw e) \<Longrightarrow>
   outcome env s (KOk 0, submit e s)"
  by (rule outcome_submit_frame) simp_all

lemma outcome_exit_code [simp]: "outcome env s r \<Longrightarrow> outcome env s (exit_code r)"
  and outcome_then_ok [simp]: "outcome env s r \<Longrightarrow> outcome env s (then_ok r)"
  by (auto simp: outcome_def exit_code_def then_ok_def)

text \<open>A submitted event is good when its parts are.\<close>

lemma emit_ok_I:
  assumes "raw_header e = build_event_header env et" and "tag_ok e"
    and "unfiltered e \<or> \<not> filter_events s (event_owner e) (build_event_header env et)"
    and "type_selected s e"
  shows "emit_ok env s e"
  using assms by (auto simp: emit_ok_def passes_filter)

lemma wf_env_lengths:
  assumes "wf_env env"
  shows "length (k_read_str env p b) = length b" "length (snd (k_d_path env p b)) = length b"
    "k_skc_v6_daddr env q = Some a \<Longrightarrow> length a = 16"
    "k_skc_v6_rcv_saddr env q = Some a \<Longrightarrow> length a = 16"
  using assms by (auto simp: wf_env_def)

lemma wf_path_map: "wf_kstate s \<Longrightarrow> FILE_PATH_MAP s f = Some v \<Longrightarrow> length (filepath v) = 256"
  by (auto simp: wf_kstate_def)

lemma type_selected_capture:
  "event_mode e = Some (mode (snd (capture_inode env s i))) \<Longrightarrow> fst (capture_inode env s i) \<Longrightarrow>
   type_selected s e"
  by (auto simp: type_selected_def capture_inode_cases)

lemma type_selected_other: "event_mode e = None \<Longrightarrow> type_selected s e"
  by (simp add: type_selected_def)

lemma emit_v4_outcome:
  assumes "protocol \<in> {1, 2}" and "et \<in> {Connect, Accept, Close, Bind, Listen}"
    and "rv \<noteq> None \<longleftrightarrow> et \<in> {Connect, Bind, Listen}"
  shows "outcome env s (emit_v4 env sk rv protocol et s)"
  using assms
  by (auto simp: emit_v4_def Let_def protocol_try_from_def wf_net_def wf_build_event_header
      intro!: outcome_submit emit_ok_I type_selected_other)

lemma emit_v6_outcome:
  assumes "protocol \<in> {1, 2}" and "et \<in> {Connect, Accept, Close, Bind, Listen}"
    and "rv \<noteq> None \<longleftrightarrow> et \<in> {Connect, Bind, Listen}"
  shows "outcome env s (emit_v6 env sk rv protocol et s)"
  using assms
  by (auto simp: emit_v6_def Let_def protocol_try_from_def wf_net_def wf_build_event_header
      read_v6_addr_def wf_env_lengths split: option.splits
      intro!: outcome_submit emit_ok_I type_selected_other)

lemmas emit_outcomes = emit_v4_outcome emit_v6_outcome

lemma emit_by_family_outcome:
  assumes "protocol \<in> {1, 2}" and "et \<in> {Connect, Accept, Close, Bind, Listen}"
    and "rv \<noteq> None \<longleftrightarrow> et \<in> {Connect, Bind, Listen}"
  shows "outcome env s (emit_by_family env sk rv protocol et s)"
  using emit_outcomes [OF assms] by (auto simp: emit_by_family_def split: option.splits)

lemma net_outcome:
  "outcome env s (try_tcp_v4_connect env s)" "outcome env s (try_inet_csk_accept_impl env s)"
  "outcome env s (try_tcp_close env s)" "outcome env s (try_udp_destroy_sock env s)"
  "outcome env s (try_tcp_v6_connect env s)" "outcome env s (try_udp_connect env s)"
  "outcome env s (try_udpv6_connect env s)" "outcome env s (try_inet_bind env s)"
  "outcome env s (try_inet_listen env s)"
  by (simp_all add: try_defs Let_def emit_outcomes emit_by_family_outcome split: option.split)

lemma process_outcome:
  "outcome env s (try_sched_process_exec env s)" "outcome env s (try_do_group_exit env s)"
  "outcome env s (try_sched_process_fork env s)"
  by (auto simp: try_defs Let_def wf_build_event_header wf_env_lengths wf_start_def wf_exit_def
      wf_fork_def TASK_COMM_LEN_def split: option.split
      intro!: outcome_submit emit_ok_I type_selected_other)

lemma memory_outcome:
  "outcome env s (try_vm_mmap_pgoff env s)" "outcome env s (try_vm_munmap env s)"
  by (auto simp: try_defs Let_def wf_build_event_header wf_mmap_def wf_munmap_def
      intro!: outcome_submit emit_ok_I type_selected_other)

lemma file_outcome:
  "outcome env s (try_vfs_open env s)" "outcome env s (try_flip_close env s)"
  "outcome env s (try_vfs_read env s)" "outcome env s (try_vfs_write env s)"
  "outcome env s (try_vfs_unlink env s)" "outcome env s (try_vfs_rename_retval env s)"
  by (auto simp: try_defs Let_def wf_build_event_header wf_open_def wf_close_def wf_read_def
      wf_write_def wf_delete_def wf_rtr_def wf_env_lengths wf_path_map capture_file_inode
      split: option.split
      intro!: outcome_submit emit_ok_I intro: type_selected_other type_selected_capture)

lemma wf_d_path: "wf_env env \<Longrightarrow> k_d_path env p b = (r, b') \<Longrightarrow> length b' = length b"
  by (metis snd_conv wf_env_lengths(2))

lemma path_outcome:
  "outcome env s (try_file_open env s)" "outcome env s (try_fput env s)"
  by (auto simp: try_defs Let_def frame_def wf_kstate_def wf_d_path
      split: option.split prod.split intro!: outcome_frame)

lemma rename_outcome: "outcome env s (try_vfs_rename env s)"
proof (cases "k_reserve env 576")
  case True
  then show ?thesis
    by (auto simp: try_vfs_rename_def Let_def frame_def wf_kstate_def wf_rename_def
        wf_build_event_header wf_env_lengths split: option.split
        intro!: outcome_submit_frame emit_ok_I intro: type_selected_capture)
next
  case False
  then show ?thesis
    by (auto simp: try_vfs_rename_def Let_def frame_def wf_kstate_def wf_env_lengths
        split: option.split intro!: outcome_frame)
qed

lemmas try_outcomes = net_outcome process_outcome memory_outcome file_outcome path_outcome
  rename_outcome

lemma run_program_outcome: "outcome env s (run_program p env s)"
  by (cases p) (simp_all add: try_outcomes)

interpretation prog: probe_contract "run_program p" for p
proof unfold_locales
  fix env s
  obtain t where t: "frame env s t"
    and r: "run_program p env s = (KOk 0, t) \<or>
      (\<exists>e. run_program p env s = (KOk 0, submit e t) \<and> emit_ok env s e \<and>
           (wf_env env \<longrightarrow> wf_kstate s \<longrightarrow> wf_raw e))"
    using run_program_outcome [of env s p] unfolding outcome_def by blast
  show "fst (run_program p env s) = KOk 0"
    and "FILTER (snd (run_program p env s)) = FILTER s"
    and "CONFIG (snd (run_program p env s)) = CONFIG s"
    and "EVENTS (snd (run_program p env s)) = EVENTS s \<or>
      (\<exists>e. EVENTS (snd (run_program p env s)) = EVENTS s @ [e] \<and> emit_ok env s e)"
    and "wf_env env \<Longrightarrow> wf_kstate s \<Longrightarrow> wf_kstate (snd (run_program p env s))"
    using t r by (auto simp: frame_def)
  show "wf_raw e" if "wf_env env" "wf_kstate s"
    "EVENTS (snd (run_program p env s)) = EVENTS s @ [e]" for e
    using that t r by (auto simp: frame_def)
qed

section \<open>Runs\<close>

text \<open>
  A step of the machine: a program of the attached set runs; user space takes the oldest event;
  user space writes an entry of \<open>FILTER\<close> or of \<open>CONFIG\<close>.
\<close>

inductive kernel_step :: "program set \<Rightarrow> kstate \<Rightarrow> kstate \<Rightarrow> bool" for A where
  step_prog: "p \<in> A \<Longrightarrow> wf_env env \<Longrightarrow> run_program p env s = (r, t) \<Longrightarrow> kernel_step A s t"
| step_take: "EVENTS s = e # es \<Longrightarrow> kernel_step A s (s\<lparr>EVENTS := es\<rparr>)"
| step_filter: "kernel_step A s (s\<lparr>FILTER := (FILTER s)(k \<mapsto> key)\<rparr>)"
| step_config: "kernel_step A s (s\<lparr>CONFIG := (CONFIG s)(k \<mapsto> m)\<rparr>)"

inductive kernel_run :: "program set \<Rightarrow> kstate \<Rightarrow> kstate \<Rightarrow> bool" for A where
  run_refl: "kernel_run A s s"
| run_step: "kernel_run A s t \<Longrightarrow> kernel_step A t u \<Longrightarrow> kernel_run A s u"

inductive_cases kernel_stepE: "kernel_step A s t"

text \<open>
  The maps when the object has just been loaded: hash maps empty, per-CPU arrays zeroed (the
  header that the zero bytes of \<open>TEMP\<close> would be read as is left open: it is never read).
\<close>

definition boot :: "RawEventHeader \<Rightarrow> kstate" where
  "boot h0 =
     \<lparr>EVENTS = [], CONFIG = (\<lambda>_. None),
      TEMP = (\<lambda>_. Some \<lparr>rn_header = h0, rn_old_filename = replicate 256 0,
        rn_new_filename = replicate 256 0, rn_file_mode = \<lparr>mode = 0\<rparr>, rn_flags = 0\<rparr>),
      FILTER = (\<lambda>_. None), FILE_PATH_MAP = (\<lambda>_. None),
      PATH_BUF = (\<lambda>_. Some (replicate 256 0))\<rparr>"

lemma boot_ring_inv [simp]: "ring_inv (boot h0)"
  by (simp add: ring_inv_def wf_kstate_def boot_def)

lemma kernel_step_ring_inv: "kernel_step A s t \<Longrightarrow> ring_inv s \<Longrightarrow> ring_inv t"
proof (induction rule: kernel_step.induct)
  case (step_prog p env s r t)
  then show ?case by (metis prog.keeps_ring_inv snd_conv)
qed (auto simp: ring_inv_def wf_kstate_def)

lemma kernel_run_ring_inv: "kernel_run A s t \<Longrightarrow> ring_inv s \<Longrightarrow> ring_inv t"
  by (induction rule: kernel_run.induct) (auto intro: kernel_step_ring_inv)

text \<open>The flags of a rename: only \<open>TEMP\<close> and the ring hold them, and nothing writes them.\<close>

definition flags_zero :: "kstate \<Rightarrow> bool" where
  "flags_zero s =
     ((\<forall>c t. TEMP s c = Some t \<longrightarrow> rn_flags t = 0) \<and>
      (\<forall>e. RE_rename e \<in> set (EVENTS s) \<longrightarrow> rn_flags e = 0))"

lemma flags_zero_submit:
  "flags_zero (submit e s) \<longleftrightarrow> flags_zero s \<and> (\<forall>x. e = RE_rename x \<longrightarrow> rn_flags x = 0)"
  by (auto simp: flags_zero_def)

lemma flags_zero_net:
  "flags_zero s \<Longrightarrow> flags_zero (snd (emit_v4 env sk rv pr et s))"
  "flags_zero s \<Longrightarrow> flags_zero (snd (emit_v6 env sk rv pr et s))"
  by (auto simp: emit_v4_def emit_v6_def Let_def flags_zero_submit split: option.split sum.split)

lemma snd_exit_code [simp]: "snd (exit_code r) = snd r"
  by (cases r) (auto simp: exit_code_def split: kres.split)

lemma snd_then_ok [simp]: "snd (then_ok r) = snd r"
  by (cases r) (auto simp: then_ok_def split: kres.split)

lemma flags_zero_family: "flags_zero s \<Longrightarrow> flags_zero (snd (emit_by_family env sk rv pr et s))"
  by (auto simp: emit_by_family_def flags_zero_net split: option.split)

lemma flags_zero_program: "flags_zero s \<Longrightarrow> flags_zero (snd (run_program p env s))"
proof (cases p)
  case P_vfs_rename
  then show "flags_zero s \<Longrightarrow> ?thesis"
    by (auto simp: try_vfs_rename_def Let_def flags_zero_submit split: option.split)
       (auto simp: flags_zero_def)
next
  case P_file_open
  then show "flags_zero s \<Longrightarrow> ?thesis"
    by (auto simp: try_file_open_def Let_def flags_zero_def split: option.split prod.split)
next
  case P_fput
  then show "flags_zero s \<Longrightarrow> ?thesis"
    by (auto simp: try_fput_def Let_def flags_zero_def)
qed (auto simp: try_defs Let_def flags_zero_net flags_zero_family flags_zero_submit
       split: option.split)


lemma kernel_step_flags_zero: "kernel_step A s t \<Longrightarrow> flags_zero s \<Longrightarrow> flags_zero t"
proof (induction rule: kernel_step.induct)
  case (step_prog p env s r t)
  then show ?case by (metis flags_zero_program snd_conv)
qed (auto simp: flags_zero_def)

lemma kernel_run_flags_zero: "kernel_run A s t \<Longrightarrow> flags_zero s \<Longrightarrow> flags_zero t"
  by (induction rule: kernel_run.induct) (auto intro: kernel_step_flags_zero)

lemma boot_flags_zero [simp]: "flags_zero (boot h0)"
  by (simp add: flags_zero_def boot_def)

section \<open>Paths\<close>

text \<open>
  \<open>run_trace\<close> runs a sequence of invocations. The path of a file event comes from the entry that
  \<open>file_open\<close> recorded for the same \<open>struct file\<close>.
\<close>

fun run_trace :: "(program \<times> kenv) list \<Rightarrow> kstate \<Rightarrow> kstate" where
  "run_trace [] s = s"
| "run_trace ((p, env) # tr) s = run_trace tr (snd (run_program p env s))"

definition path_touched :: "u64 \<Rightarrow> program \<times> kenv \<Rightarrow> bool" where
  "path_touched f pe = (fst pe \<in> {P_file_open, P_fput} \<and> k_arg (snd pe) 0 = f)"

definition file_arg :: "program \<Rightarrow> kenv \<Rightarrow> u64" where
  "file_arg p env = k_arg env (if p = P_vfs_open then 1 else 0)"

lemma path_map_emit:
  "FILE_PATH_MAP (snd (emit_v4 env sk rv pr et s)) = FILE_PATH_MAP s"
  "FILE_PATH_MAP (snd (emit_v6 env sk rv pr et s)) = FILE_PATH_MAP s"
  by (auto simp: emit_v4_def emit_v6_def Let_def split: option.split sum.split)

lemma path_map_family: "FILE_PATH_MAP (snd (emit_by_family env sk rv pr et s)) = FILE_PATH_MAP s"
  by (auto simp: emit_by_family_def path_map_emit split: option.split)

lemma path_map_untouched:
  "\<not> path_touched f (p, env) \<Longrightarrow> FILE_PATH_MAP (snd (run_program p env s)) f = FILE_PATH_MAP s f"
  by (cases p)
    (auto simp: path_touched_def try_defs Let_def path_map_emit path_map_family
      split: option.split prod.split)

lemma path_map_trace:
  "list_all (\<lambda>pe. \<not> path_touched f pe) tr \<Longrightarrow> FILE_PATH_MAP (run_trace tr s) f = FILE_PATH_MAP s f"
  by (induction tr s rule: run_trace.induct) (auto simp: path_map_untouched)

lemma no_path_emit:
  "EVENTS (snd (emit_v4 env sk rv pr et s)) = EVENTS s @ [e] \<Longrightarrow> event_path e = None"
  "EVENTS (snd (emit_v6 env sk rv pr et s)) = EVENTS s @ [e] \<Longrightarrow> event_path e = None"
  by (auto simp: emit_v4_def emit_v6_def Let_def split: option.splits sum.splits if_splits)

lemma no_path_family:
  "EVENTS (snd (emit_by_family env sk rv pr et s)) = EVENTS s @ [e] \<Longrightarrow> event_path e = None"
  by (auto simp: emit_by_family_def no_path_emit split: option.splits if_splits)

lemma event_path_recorded:
  assumes "EVENTS (snd (run_program p env s)) = EVENTS s @ [e]" and "event_path e = Some q"
  shows "FILE_PATH_MAP s (file_arg p env) = Some \<lparr>filepath = q\<rparr>"
  using assms
  by (cases p)
    (auto simp: try_defs Let_def file_arg_def dest!: no_path_emit no_path_family
      split: option.splits prod.splits if_splits)

lemma file_open_records:
  assumes "k_arg env 0 \<noteq> 0" "PATH_BUF s (k_cpu env) = Some b"
    and "k_d_path env (k_f_path env (k_arg env 0)) b = (ret, path)" "0 \<le> sint ret" "k_map_insert env"
  shows "FILE_PATH_MAP (snd (run_program P_file_open env s)) (k_arg env 0) = Some \<lparr>filepath = path\<rparr>"
  using assms by (simp add: try_file_open_def Let_def)

lemma trace_keeps_maps: "FILTER (run_trace tr s) = FILTER s \<and> CONFIG (run_trace tr s) = CONFIG s"
  by (induction tr s rule: run_trace.induct) (simp_all add: prog.keeps_filter prog.keeps_config)

text \<open>
  What an operation on an open file is to be reported as, with the size of the structure: the
  specification of the four programs on \<open>vfs_open\<close>, \<open>vfs_read\<close>, \<open>vfs_write\<close> and \<open>filp_close\<close>.
\<close>

fun file_report :: "program \<Rightarrow> kenv \<Rightarrow> u8 list \<Rightarrow> (nat \<times> raw_event) option" where
  "file_report P_vfs_open env path = Some (336, RE_open \<lparr>ro_header = build_event_header env FileOpen,
     ro_file_path = path, ro_file_mode = \<lparr>mode = format_bit (k_i_mode env (k_f_inode env (k_arg env 1)))\<rparr>,
     ro_inode = k_i_ino env (k_f_inode env (k_arg env 1)), ro_retval = ucast (k_arg env 2),
     ro_flags = k_f_flags env (k_arg env 1)\<rparr>)"
| "file_report P_vfs_read env path = Some (344, RE_read \<lparr>rr_header = build_event_header env FileRead,
     rr_file_path = path, rr_file_mode = \<lparr>mode = format_bit (k_i_mode env (k_f_inode env (k_arg env 0)))\<rparr>,
     rr_inode = k_i_ino env (k_f_inode env (k_arg env 0)), rr_retval = k_arg env 4,
     rr_flags = k_f_flags env (k_arg env 0)\<rparr>)"
| "file_report P_vfs_write env path = Some (344, RE_write \<lparr>rw_header = build_event_header env FileWrite,
     rw_file_path = path, rw_file_mode = \<lparr>mode = format_bit (k_i_mode env (k_f_inode env (k_arg env 0)))\<rparr>,
     rw_inode = k_i_ino env (k_f_inode env (k_arg env 0)), rw_flags = k_f_flags env (k_arg env 0),
     rw_retval = k_arg env 4\<rparr>)"
| "file_report P_filp_close env path = Some (336, RE_close \<lparr>rc_header = build_event_header env FileClose,
     rc_file_path = path, rc_file_mode = \<lparr>mode = format_bit (k_i_mode env (k_f_inode env (k_arg env 0)))\<rparr>,
     rc_inode = k_i_ino env (k_f_inode env (k_arg env 0)), rc_retval = ucast (k_arg env 2),
     rc_flags = k_f_flags env (k_arg env 0)\<rparr>)"
| "file_report _ _ _ = None"

lemma file_report_submitted:
  assumes "file_report p env path = Some (n, e)" and "file_arg p env \<noteq> 0"
    and "FILE_PATH_MAP s (file_arg p env) = Some \<lparr>filepath = path\<rparr>"
  shows "EVENTS (snd (run_program p env s)) = EVENTS s @
    (if k_reserve env n \<and> (\<forall>key. FILTER s 3 = Some key \<longrightarrow> key_matches key (raw_header e)) \<and>
        (\<exists>c. CONFIG s 0 = Some c \<and> mode c AND format_bit (k_i_mode env (k_f_inode env (file_arg p env))) \<noteq> 0)
     then [e] else [])"
  using assms
  by (cases p)
     (auto simp: file_arg_def try_vfs_open_def try_vfs_read_def try_vfs_write_def try_flip_close_def Let_def
       filter_events_iff capture_file_inode capture_inode_format)

section \<open>Names\<close>

text \<open>
  What \<open>bpf_probe_read_kernel_str\<close> does on a readable address: it copies the string \<open>str p\<close> with
  its NUL, cut to the size of the buffer, and leaves the rest of the buffer.
\<close>

definition str_reads :: "kenv \<Rightarrow> (u64 \<Rightarrow> u8 list) \<Rightarrow> bool" where
  "str_reads env str =
     (\<forall>p b. 0 \<notin> set (str p) \<and>
        k_read_str env p b =
          (if b = [] then []
           else let c = take (length b - 1) (str p) in c @ 0 # drop (Suc (length c)) b))"

lemma str_reads_until_nul:
  assumes "str_reads env str" and "length b = 256"
  shows "until_nul (k_read_str env p b) = take 255 (str p)"
proof -
  have "0 \<notin> set (take 255 (str p))" using assms(1) by (auto simp: str_reads_def dest: in_set_takeD)
  with assms show ?thesis by (auto simp: str_reads_def Let_def until_nul_append_nul)
qed


section \<open>A concrete environment\<close>

text \<open>
  Process 42, thread 43, user 1000, group 100: every helper succeeds, every file is a regular file
  whose path and name are \<open>/a\<close> and \<open>a\<close>, and every argument of a hook is 4096.
\<close>

definition demo_env :: kenv where
  "demo_env =
     \<lparr>k_cpu = 0, k_pid_tgid = 0x2A0000002B, k_ktime = 1500000001, k_uid_gid = 0x64000003E8,
      k_real_parent = Some 8192, k_tgid_of = (\<lambda>_. Some 1),
      k_comm = Some ([115, 104] @ replicate 14 0), k_reserve = (\<lambda>_. True), k_map_insert = True,
      k_arg = (\<lambda>_. 4096), k_ret = Some 4096, k_read_at = (\<lambda>_. Some 40), k_ctx_ptr = 65536,
      k_skc_daddr = (\<lambda>_. Some 0x0100007F), k_skc_rcv_saddr = (\<lambda>_. Some 0x0100007F),
      k_skc_dport = (\<lambda>_. Some 0x5000), k_skc_num = (\<lambda>_. Some 4000),
      k_skc_family = (\<lambda>_. Some 2), k_skc_v6_daddr = (\<lambda>_. Some (replicate 16 0)),
      k_skc_v6_rcv_saddr = (\<lambda>_. Some (replicate 16 0)), k_socket_sk = (\<lambda>p. p),
      k_f_inode = (\<lambda>p. p), k_f_flags = (\<lambda>_. 0x8042), k_f_path = (\<lambda>p. p),
      k_i_mode = (\<lambda>_. 0x81A4), k_i_ino = (\<lambda>_. 77), k_d_inode = (\<lambda>p. p), k_d_name = (\<lambda>p. p),
      k_old_dentry = (\<lambda>p. p), k_new_dentry = (\<lambda>p. p + 8),
      k_read_str = (\<lambda>p b. if b = [] then []
        else let c = take (length b - 1) [97] in c @ 0 # drop (Suc (length c)) b),
      k_d_path = (\<lambda>_ b. (3, take (length b) (47 # 97 # 0 # drop 3 b)))\<rparr>"

definition demo_header :: RawEventHeader where
  "demo_header = build_event_header demo_env Test"

definition demo_state :: kstate where
  "demo_state = (boot demo_header)\<lparr>CONFIG := (\<lambda>_. None)(0 \<mapsto> \<lparr>mode = 0x7F\<rparr>)\<rparr>"

lemma wf_demo_env: "wf_env demo_env"
  by (auto simp: wf_env_def demo_env_def Let_def) (case_tac b; auto simp: min_def)

lemma demo_str_reads: "str_reads demo_env (\<lambda>_. [97])"
  by (simp add: str_reads_def demo_env_def Let_def)

lemma demo_run:
  assumes "kernel_run UNIV s0 s"
  shows "kernel_run UNIV s0 (snd (run_program p demo_env s))"
  by (rule run_step [OF assms step_prog [OF UNIV_I wf_demo_env prod.collapse [symmetric]]])

lemma demo_state_run: "kernel_run UNIV (boot demo_header) demo_state"
  using run_step [OF run_refl step_config, of UNIV "boot demo_header" 0 "\<lparr>mode = 0x7F\<rparr>"]
  by (simp add: demo_state_def boot_def)

section \<open>Properties\<close>

text \<open>
  C13: every program of the object returns 0 in every environment and state: the LSM hook never
  denies an open, the probes never report a failure to the kernel, and the \<open>unwrap\<close>s of the
  emission helpers never panic.
\<close>

theorem programs_return_zero: "\<exists>t. run_program p env s = (KOk 0, t)"
  using prog.returns_ok [of p env s] by (cases "run_program p env s") simp

text \<open>
  C12: one invocation of a program appends at most one event to the ring buffer, tagged with the
  type of its structure and carrying the task context of that invocation. Apart from the return
  value of a rename and from an unmapping, the event satisfies the process filter that user space
  set for its family, and a file event is of a type the configuration selects. The filter maps
  stay as they are.
\<close>

theorem events_pass_filters:
  "\<exists>es. EVENTS (snd (run_program p env s)) = EVENTS s @ es \<and> length es \<le> 1 \<and>
     list_all (\<lambda>e. tag_ok e \<and> raw_header e = build_event_header env (rh_event_type (raw_header e)) \<and>
       (unfiltered e \<or> passes s e) \<and> type_selected s e) es \<and>
     FILTER (snd (run_program p env s)) = FILTER s \<and> CONFIG (snd (run_program p env s)) = CONFIG s"
proof (cases rule: prog.run_cases [of p env s])
  case silent
  then show ?thesis by (simp add: prog.keeps_filter prog.keeps_config)
next
  case (event e)
  then show ?thesis
    by (intro exI [of _ "[e]"]) (simp add: prog.keeps_filter prog.keeps_config emit_ok_def)
qed

text \<open>
  C14: on a machine started from the freshly loaded maps, whatever programs run in whatever order
  while user space reads the ring and rewrites the filters, every event in the ring is well formed
  and its type tag is that of its structure; a network event has a return value exactly when it is
  a connect, a bind or a listen.
\<close>

theorem ring_buffer_invariant:
  assumes "kernel_run A (boot h0) s" and "e \<in> set (EVENTS s)"
  shows "wf_raw e \<and> tag_ok e"
  using kernel_run_ring_inv [OF assms(1) boot_ring_inv] assms(2) by (simp add: ring_inv_def)

theorem ring_buffer_invariant_witness:
  "\<exists>e. e \<in> set (EVENTS (snd (run_program P_vm_munmap demo_env (boot demo_header)))) \<and> wf_raw e \<and> tag_ok e"
proof -
  let ?e = "RE_munmap \<lparr>ru_header = build_event_header demo_env MemoryUnMap,
      ru_requested_address = 4096, ru_length = 4096, ru_mapped_address = 4096\<rparr>"
  have "?e \<in> set (EVENTS (snd (run_program P_vm_munmap demo_env (boot demo_header))))"
    by (simp add: try_vm_munmap_def demo_env_def)
  with ring_buffer_invariant [OF demo_run [OF run_refl] this] show ?thesis by blast
qed

text \<open>
  C35: the memory filter does not reach the unmapping probe: with a filter that the current task
  fails, a mapping is dropped and an unmapping is reported all the same.
\<close>

theorem munmap_ignores_filter:
  assumes "k_reserve env 80" and "FILTER s (filter_owner_u32 OwnerMemory) = Some key"
    and "\<not> key_matches key (build_event_header env MemoryUnMap)"
    and "\<not> key_matches key (build_event_header env MemoryMap)"
  shows "EVENTS (snd (run_program P_vm_mmap_pgoff env s)) = EVENTS s \<and>
    (\<exists>e. EVENTS (snd (run_program P_vm_munmap env s)) = EVENTS s @ [RE_munmap e] \<and>
         \<not> passes s (RE_munmap e))"
  using assms
  by (simp add: try_vm_mmap_pgoff_def try_vm_munmap_def Let_def filter_events_iff passes_def)

theorem munmap_ignores_filter_witness:
  "\<exists>e. EVENTS (snd (run_program P_vm_munmap demo_env ((boot demo_header)\<lparr>FILTER := (\<lambda>_. Some (Pid 7))\<rparr>)))
     = [RE_munmap e]"
  using munmap_ignores_filter [of demo_env "(boot demo_header)\<lparr>FILTER := (\<lambda>_. Some (Pid 7))\<rparr>" "Pid 7"]
  by (auto simp: demo_env_def boot_def)

text \<open>
  C36: the \<open>flags\<close> of a rename event are always 0: no program ever writes that field of the per-CPU
  scratch event, so the flags of \<open>renameat2\<close> do not reach user space.
\<close>

theorem rename_flags_always_zero:
  assumes "kernel_run A (boot h0) s" and "RE_rename e \<in> set (EVENTS s)"
  shows "rn_flags e = 0"
  using kernel_run_flags_zero [OF assms(1) boot_flags_zero] assms(2) by (auto simp: flags_zero_def)

theorem rename_flags_always_zero_witness:
  "\<exists>e. EVENTS (snd (run_program P_vfs_rename demo_env demo_state)) = [RE_rename e] \<and> rn_flags e = 0"
proof -
  have run: "kernel_run UNIV (boot demo_header) (snd (run_program P_vfs_rename demo_env demo_state))"
    by (rule demo_run [OF demo_state_run])
  obtain e where e: "EVENTS (snd (run_program P_vfs_rename demo_env demo_state)) = [RE_rename e]"
    by (simp add: try_vfs_rename_def Let_def demo_env_def demo_state_def boot_def
        filter_events_def capture_inode_def type_of_mode_def file_mode_consts file_bits)
  with rename_flags_always_zero [OF run, of e] show ?thesis by simp
qed




text \<open>
  C24: once the last reference of a file has been put, no program reports an event with a path for
  that \<open>struct file\<close> until \<open>file_open\<close> runs for it again: a recycled address never shows the path
  of the previous file.
\<close>

theorem no_stale_path_after_fput:
  assumes "k_arg env0 0 = f" and "list_all (\<lambda>pe. \<not> path_touched f pe) tr"
    and "s1 = run_trace ((P_fput, env0) # tr) s" and "file_arg p env = f"
    and "EVENTS (snd (run_program p env s1)) = EVENTS s1 @ [e]"
  shows "event_path e = None"
proof (rule ccontr)
  assume "event_path e \<noteq> None"
  then obtain q where "event_path e = Some q" by blast
  from event_path_recorded [OF assms(5) this] assms(4)
  have "FILE_PATH_MAP s1 f = Some \<lparr>filepath = q\<rparr>" by simp
  moreover have "FILE_PATH_MAP s1 f = None"
    using assms(1-3) by (simp add: path_map_trace try_fput_def Let_def)
  ultimately show False by simp
qed

theorem no_stale_path_after_fput_witness:
  "let s0 = run_trace [(P_file_open, demo_env)] demo_state; s1 = run_trace [(P_fput, demo_env)] s0 in
   (\<exists>e. EVENTS (snd (run_program P_vfs_read demo_env s0)) = EVENTS s0 @ [e] \<and> event_path e = Some (47 # 97 # replicate 254 0)) \<and>
   (\<nexists>e. EVENTS (snd (run_program P_vfs_read demo_env s1)) = EVENTS s1 @ [e] \<and> event_path e \<noteq> None) \<and>
   (\<exists>e. EVENTS (snd (run_program P_vfs_unlink demo_env s1)) = EVENTS s1 @ [e])"
proof -
  let ?s0 = "run_trace [(P_file_open, demo_env)] demo_state"
  let ?s1 = "run_trace [(P_fput, demo_env)] ?s0"
  have "\<exists>e. EVENTS (snd (run_program P_vfs_read demo_env ?s0)) = EVENTS ?s0 @ [e] \<and> event_path e = Some (47 # 97 # replicate 254 0)"
    by (simp add: try_vfs_read_def try_file_open_def exit_code_def Let_def demo_env_def demo_state_def boot_def
        filter_events_def capture_file_def type_of_mode_def file_mode_consts file_bits flip: replicate_Suc)
  moreover have "event_path e = None" if "EVENTS (snd (run_program P_vfs_read demo_env ?s1)) = EVENTS ?s1 @ [e]" for e
    using no_stale_path_after_fput [of demo_env 4096 "[]" ?s1 ?s0 P_vfs_read demo_env e] that
    by (simp add: demo_env_def file_arg_def)
  moreover have "\<exists>e. EVENTS (snd (run_program P_vfs_unlink demo_env ?s1)) = EVENTS ?s1 @ [e]"
    by (simp add: try_vfs_unlink_def try_fput_def try_file_open_def exit_code_def Let_def demo_env_def
        demo_state_def boot_def filter_events_def capture_inode_def type_of_mode_def file_mode_consts
        file_bits)
  ultimately show ?thesis by (simp add: Let_def; blast)
qed

text \<open>
  C30: both names of a rename event, read up to their first NUL, are the names of the two directory
  entries cut to 255 bytes, although the scratch event is reused from rename to rename and never
  cleared.
\<close>

theorem rename_names_exact:
  assumes "str_reads env str" and "wf_kstate s"
    and "EVENTS (snd (run_program P_vfs_rename env s)) = EVENTS s @ [RE_rename e]"
  shows "until_nul (rn_old_filename e) = take 255 (str (k_d_name env (k_old_dentry env (k_arg env 0)))) \<and>
    until_nul (rn_new_filename e) = take 255 (str (k_d_name env (k_new_dentry env (k_arg env 0))))"
proof -
  obtain ev where ev: "TEMP s (k_cpu env) = Some ev" and e:
    "rn_old_filename e = k_read_str env (k_d_name env (k_old_dentry env (k_arg env 0))) (rn_old_filename ev)"
    "rn_new_filename e = k_read_str env (k_d_name env (k_new_dentry env (k_arg env 0))) (rn_new_filename ev)"
    using assms(3) by (auto simp: try_vfs_rename_def Let_def split: option.splits if_splits)
  from ev assms(2) have "length (rn_old_filename ev) = 256" "length (rn_new_filename ev) = 256"
    by (auto simp: wf_kstate_def)
  with e str_reads_until_nul [OF assms(1)] show ?thesis by simp
qed

theorem rename_names_exact_witness:
  "\<exists>e. EVENTS (snd (run_program P_vfs_rename demo_env demo_state)) = [RE_rename e] \<and>
     until_nul (rn_old_filename e) = [97]"
proof -
  have wf: "wf_kstate demo_state"
    by (simp add: wf_kstate_def demo_state_def boot_def)
  have Nil: "EVENTS demo_state = []" by (simp add: demo_state_def boot_def)
  obtain e where e: "EVENTS (snd (run_program P_vfs_rename demo_env demo_state)) = [RE_rename e]"
    by (simp add: try_vfs_rename_def Let_def demo_env_def demo_state_def boot_def
        filter_events_def capture_inode_def type_of_mode_def file_mode_consts file_bits)
  with rename_names_exact [OF demo_str_reads wf, of e] Nil show ?thesis by simp
qed

text \<open>
  The four identifiers of a header are the two halves of the two values the helpers return,
  nothing lost: the high half of the first is the process and its low half the thread, the low
  half of the second is the user and its high half the group.
\<close>

theorem header_ids_lossless:
  "push_bit 32 (ucast (rh_pid (build_event_header env et))) OR ucast (rh_tid (build_event_header env et))
     = k_pid_tgid env \<and>
   push_bit 32 (ucast (rh_gid (build_event_header env et))) OR ucast (rh_uid (build_event_header env et))
     = k_uid_gid env"
proof -
  have halves: "push_bit 32 (ucast (ucast (drop_bit 32 w) :: u32)) OR ucast (ucast w :: u32) = w" for w :: u64
    by (rule bit_eqI) (auto simp: bit_simps)
  show ?thesis by (simp add: halves)
qed

text \<open>
  C31: nothing that was selected is lost. Once \<open>file_open\<close> has recorded the path of a \<open>struct file\<close>,
  and whatever other programs ran since, as long as \<open>file_open\<close> and \<open>__fput\<close> did not run again for
  it, an open, read, write or close of that file adds exactly one event to the ring if the ring has
  room, the filter key of the file family matches the task and the configured types include the
  format of the inode, and adds nothing otherwise. The event is the one of the operation, with
  that path, the type, number and flags of the file and the value the function returned.
\<close>

theorem file_operations_reported_exactly:
  assumes "k_arg env0 0 = f" "f \<noteq> 0" "PATH_BUF s (k_cpu env0) = Some b"
    and "k_d_path env0 (k_f_path env0 f) b = (ret, path)" "0 \<le> sint ret" "k_map_insert env0"
    and "list_all (\<lambda>pe. \<not> path_touched f pe) tr"
    and "s1 = run_trace ((P_file_open, env0) # tr) s" "file_arg p env = f"
    and "file_report p env path = Some (n, e)"
  shows "EVENTS (snd (run_program p env s1)) = EVENTS s1 @
    (if k_reserve env n \<and> (\<forall>key. FILTER s 3 = Some key \<longrightarrow> key_matches key (raw_header e)) \<and>
        (\<exists>c. CONFIG s 0 = Some c \<and> mode c AND format_bit (k_i_mode env (k_f_inode env f)) \<noteq> 0)
     then [e] else [])"
proof -
  have "FILE_PATH_MAP s1 f = Some \<lparr>filepath = path\<rparr>"
    using assms(1-8) file_open_records [of env0 s b ret path] by (simp add: path_map_trace)
  then show ?thesis
    using file_report_submitted [OF assms(10), of s1] assms(2,8,9) trace_keeps_maps [of "(P_file_open, env0) # tr" s]
    by simp
qed

theorem file_operations_reported_exactly_witness:
  "let s1 = run_trace [(P_file_open, demo_env), (P_vm_munmap, demo_env)] demo_state in
   \<exists>e. file_report P_vfs_write demo_env (47 # 97 # replicate 254 0) = Some (344, e) \<and>
     EVENTS (snd (run_program P_vfs_write demo_env s1)) = EVENTS s1 @ [e]"
proof -
  obtain e where e: "file_report P_vfs_write demo_env (47 # 97 # replicate 254 0) = Some (344, e)" by simp
  have sel: "k_reserve demo_env 344" "FILTER demo_state 3 = None" "CONFIG demo_state 0 = Some \<lparr>mode = 0x7F\<rparr>"
    "format_bit (k_i_mode demo_env (k_f_inode demo_env 4096)) = 1"
    by (simp_all add: demo_env_def demo_state_def boot_def format_bit_def)
  note exact = file_operations_reported_exactly [where f = 4096 and tr = "[(P_vm_munmap, demo_env)]" and ret = 3
      and s = demo_state and b = "replicate 256 0" and env0 = demo_env and path = "47 # 97 # replicate 254 0",
      OF _ _ _ _ _ _ _ refl _ e]
  have "EVENTS (snd (run_program P_vfs_write demo_env (run_trace [(P_file_open, demo_env), (P_vm_munmap, demo_env)] demo_state))) =
      EVENTS (run_trace [(P_file_open, demo_env), (P_vm_munmap, demo_env)] demo_state) @ [e]"
    by (subst exact)
       (simp_all add: sel path_touched_def file_arg_def, simp_all add: demo_env_def demo_state_def boot_def flip: replicate_Suc)
  with e show ?thesis by (simp add: Let_def)
qed

end
