(* ===== verification/Bpfx_Examples.thy ===== *)
theory Bpfx_Examples
  imports Bpfx_Stream Ebpf_Props
begin

text \<open>
  The four programs of \<open>examples/\<close>: each makes a runtime, subscribes to one family, starts the
  loop and prints what its stream yields. A started example is a system of three parts that take
  turns in any order: the kernel runs the attached programs, the task of \<open>Bpfx::run\<close> takes items
  from the ring and converts them, the main task polls its stream. \<open>sys_step\<close> is the step relation
  of such a system, \<open>sys_run\<close> its runs; what is in the ring is read as the memory images of the
  structures submitted. The loop of an example has no step that leaves it for want of a subscriber:
  the stream of an example lives until \<open>main\<close> returns. A conversion that fails is recorded in the end
  of the loop, undefined behaviour among them, so that its absence can be stated; the properties
  show that no run of an example records one. The locale \<open>subscriber\<close> is what the system relies on
  in a family; it is discharged for the four of them.
\<close>

section \<open>What the examples print\<close>

fun process_example_lines :: "ProcessEvent \<Rightarrow> string list" where
  "process_example_lines (ProcessEvent_Start s) = [fmt_ProcessStartEvent s]"
| "process_example_lines (ProcessEvent_Exit s) = [fmt_ProcessExitEvent s]"
| "process_example_lines (ProcessEvent_Fork s) = [fmt_ProcessForkEvent s]"

fun network_example_lines :: "NetworkEvent \<Rightarrow> string list" where
  "network_example_lines (NetworkEvent_Connect e) = [fmt_ConnectEvent e]"
| "network_example_lines (NetworkEvent_Accept e) = [fmt_AcceptEvent e]"
| "network_example_lines (NetworkEvent_Bind e) = [fmt_BindEvent e]"
| "network_example_lines (NetworkEvent_Listen e) = [fmt_ListenEvent e]"
| "network_example_lines (NetworkEvent_Close e) = [fmt_CloseEvent e]"

definition memory_example_lines :: "MemoryEvent \<Rightarrow> string list" where
  "memory_example_lines event =
     (if memory_is_kernel_thread event then []
      else (case event of
              MemoryEvent_MemoryMap mmap \<Rightarrow> [fmt_MemoryMapEvent mmap]
            | MemoryEvent_MemoryUnMap unmap \<Rightarrow> [fmt_MemoryUnmapEvent unmap]))"

text \<open>\<open>str::contains\<close> with a string as its pattern.\<close>

definition contains_str :: "string \<Rightarrow> string \<Rightarrow> bool" where
  "contains_str s pat = sublist pat s"

definition file_example_lines :: "FileEvent \<Rightarrow> string list" where
  "file_example_lines event =
     (if file_failed event then []
      else (case event of
              FileEvent_Open e \<Rightarrow>
                (if contains_str (FileOpenEvent_file_name e) ''passwd'' \<or> contains_str (fo_file_path e) ''passwd''
                 then [fmt_FileOpenEvent e] else [])
            | FileEvent_Rename e \<Rightarrow> [fmt_FileRenameEvent e]
            | _ \<Rightarrow> []))"

section \<open>Starting an example\<close>

text \<open>
  \<open>main\<close> up to its loop: an error of \<open>new\<close> or \<open>subscribe\<close> is returned, otherwise the runtime is
  handed to \<open>run\<close> and the first line is printed.
\<close>

definition start_example :: "('s \<Rightarrow> ('b, 'r, 'n, 'p, 'f, 'm) Bpfx \<Rightarrow> ('x fault + 'tx) \<times> ('b, 'r, 'n, 'p, 'f, 'm) Bpfx) \<Rightarrow>
    's \<Rightarrow> string \<Rightarrow> ('b, 'r, 'x) loading \<Rightarrow> 'x fault + ('b, 'r, 'n, 'p, 'f, 'm) Bpfx \<times> string list" where
  "start_example subscribe filt banner ld =
     (case Bpfx_new ld of
        Inl e \<Rightarrow> Inl e
      | Inr bpfx \<Rightarrow>
          (case Bpfx_subscribe subscribe filt bpfx of
             (Inl e, _, _) \<Rightarrow> Inl e
           | (Inr _, bpfx', _) \<Rightarrow> Inr (bpfx', [banner])))"

definition process_example :: "('b, 'x) aya \<Rightarrow> ('n, 'p, 'f, 'm) tokio \<Rightarrow> ('b, 'r, 'x) loading \<Rightarrow>
    'x fault + ('b, 'r, 'n, 'p, 'f, 'm) Bpfx \<times> string list" where
  "process_example ay tk =
     start_example (subscribe_process ay tk) ProcessFilter_ALL ''Watching process activity (Ctrl+C to exit)...''"

definition network_example :: "('b, 'x) aya \<Rightarrow> ('n, 'p, 'f, 'm) tokio \<Rightarrow> ('b, 'r, 'x) loading \<Rightarrow>
    'x fault + ('b, 'r, 'n, 'p, 'f, 'm) Bpfx \<times> string list" where
  "network_example ay tk =
     start_example (subscribe_network ay tk) NetworkFilter_ALL ''Watching network activity (Ctrl+C to exit)...''"

definition memory_example :: "('b, 'x) aya \<Rightarrow> ('n, 'p, 'f, 'm) tokio \<Rightarrow> ('b, 'r, 'x) loading \<Rightarrow>
    'x fault + ('b, 'r, 'n, 'p, 'f, 'm) Bpfx \<times> string list" where
  "memory_example ay tk =
     start_example (subscribe_mem ay tk) MemoryFilter_ALL ''Watching virtual memory mappings (Ctrl+C to exit)...''"

definition file_example :: "('b, 'x) aya \<Rightarrow> ('n, 'p, 'f, 'm) tokio \<Rightarrow> ('b, 'r, 'x) loading \<Rightarrow>
    'x fault + ('b, 'r, 'n, 'p, 'f, 'm) Bpfx \<times> string list" where
  "file_example ay tk =
     start_example (subscribe_file ay tk) FileFilter_ALL ''Watching file events (Ctrl+C to exit)...''"

section \<open>A running example\<close>

text \<open>
  A port is the subscription of a family in the runtime, seen as the stream on its channel.
  \<open>sy_read\<close> records the structures whose items the loop has converted, \<open>sy_end\<close> the result of the
  loop once it is over, \<open>sy_left\<close> whether the main task has left its loop and returned.
\<close>

record ('bx, 's) port =
  pt_get :: "'bx \<Rightarrow> 's option"
  pt_put :: "'s \<Rightarrow> 'bx \<Rightarrow> 'bx"

definition network_port :: "(('b, 'r, 'n, 'p, 'f, 'm) Bpfx, 'n PollNetwork) port" where
  "network_port =
     \<lparr>pt_get = (\<lambda>bx. map_option (\<lambda>r. \<lparr>pn_rx = nr_tx r\<rparr>) (bx_network bx)),
      pt_put = (\<lambda>s bx. bx\<lparr>bx_network := map_option (\<lambda>r. r\<lparr>nr_tx := pn_rx s\<rparr>) (bx_network bx)\<rparr>)\<rparr>"

definition process_port :: "(('b, 'r, 'n, 'p, 'f, 'm) Bpfx, 'p PollProcess) port" where
  "process_port =
     \<lparr>pt_get = (\<lambda>bx. map_option (\<lambda>r. \<lparr>pp_rx = pr_tx r\<rparr>) (bx_process bx)),
      pt_put = (\<lambda>s bx. bx\<lparr>bx_process := map_option (\<lambda>r. r\<lparr>pr_tx := pp_rx s\<rparr>) (bx_process bx)\<rparr>)\<rparr>"

definition file_port :: "(('b, 'r, 'n, 'p, 'f, 'm) Bpfx, 'f PollFile) port" where
  "file_port =
     \<lparr>pt_get = (\<lambda>bx. map_option (\<lambda>r. \<lparr>pf_rx = fr_tx r\<rparr>) (bx_file bx)),
      pt_put = (\<lambda>s bx. bx\<lparr>bx_file := map_option (\<lambda>r. r\<lparr>fr_tx := pf_rx s\<rparr>) (bx_file bx)\<rparr>)\<rparr>"

definition mem_port :: "(('b, 'r, 'n, 'p, 'f, 'm) Bpfx, 'm PollMem) port" where
  "mem_port =
     \<lparr>pt_get = (\<lambda>bx. map_option (\<lambda>r. \<lparr>pm_rx = mr_tx r\<rparr>) (bx_mem bx)),
      pt_put = (\<lambda>s bx. bx\<lparr>bx_mem := map_option (\<lambda>r. r\<lparr>mr_tx := pm_rx s\<rparr>) (bx_mem bx)\<rparr>)\<rparr>"

record ('bx, 'x) system =
  sy_kernel :: kstate
  sy_read :: "raw_event list"
  sy_bx :: 'bx
  sy_out :: "string list"
  sy_log :: "log_line list"
  sy_end :: "('x fault + unit) option"
  sy_left :: bool

definition sys_start :: "kstate \<Rightarrow> 'bx \<times> string list \<Rightarrow> ('bx, 'x) system" where
  "sys_start k started =
     \<lparr>sy_kernel = k, sy_read = [], sy_bx = fst started, sy_out = snd started, sy_log = [], sy_end = None,
      sy_left = False\<rparr>"

definition loop_over :: "('n, 'p, 'f, 'm) streams \<Rightarrow> 'x fault + unit \<Rightarrow>
    (('b, 'r, 'n, 'p, 'f, 'm) Bpfx, 'x) system \<Rightarrow> (('b, 'r, 'n, 'p, 'f, 'm) Bpfx, 'x) system" where
  "loop_over sm res s = s\<lparr>sy_bx := apply_receivers (drop_senders sm) (sy_bx s), sy_end := Some res\<rparr>"

definition take_item :: "raw_event \<Rightarrow> raw_event list \<Rightarrow> 'bx \<Rightarrow> log_line list \<Rightarrow> ('bx, 'x) system \<Rightarrow> ('bx, 'x) system" where
  "take_item e es bx lg s =
     s\<lparr>sy_kernel := (sy_kernel s)\<lparr>EVENTS := es\<rparr>, sy_read := sy_read s @ [e], sy_bx := bx, sy_log := sy_log s @ lg\<rparr>"

inductive sys_step :: "program set \<Rightarrow> ('n, 'p, 'f, 'm) tokio \<Rightarrow> ('n, 'p, 'f, 'm) streams \<Rightarrow>
    (('b, 'r, 'n, 'p, 'f, 'm) Bpfx, 's) port \<Rightarrow> ('s \<Rightarrow> 'e option poll \<times> 's) \<Rightarrow> ('e \<Rightarrow> string list) \<Rightarrow>
    (('b, 'r, 'n, 'p, 'f, 'm) Bpfx, 'x) system \<Rightarrow> (('b, 'r, 'n, 'p, 'f, 'm) Bpfx, 'x) system \<Rightarrow> bool"
  for A :: "program set" and tk :: "('n, 'p, 'f, 'm) tokio" and sm :: "('n, 'p, 'f, 'm) streams"
    and pt :: "(('b, 'r, 'n, 'p, 'f, 'm) Bpfx, 's) port" and poll_next :: "'s \<Rightarrow> 'e option poll \<times> 's"
    and lines :: "'e \<Rightarrow> string list" where
  sys_prog: "p \<in> A \<Longrightarrow> wf_env env \<Longrightarrow> run_program p env (sy_kernel s) = (r, k) \<Longrightarrow>
    sys_step A tk sm pt poll_next lines s (s\<lparr>sy_kernel := k\<rparr>)"
| sys_item: "sy_end s = None \<Longrightarrow> EVENTS (sy_kernel s) = e # es \<Longrightarrow> is_image it e \<Longrightarrow>
    dispatch tk it (sy_bx s) = (Inr () :: 'x fault + unit, bx, lg) \<Longrightarrow>
    sys_step A tk sm pt poll_next lines s (take_item e es bx lg s)"
| sys_fault: "sy_end s = None \<Longrightarrow> EVENTS (sy_kernel s) = e # es \<Longrightarrow> is_image it e \<Longrightarrow>
    dispatch tk it (sy_bx s) = (Inl f :: 'x fault + unit, bx, lg) \<Longrightarrow>
    sys_step A tk sm pt poll_next lines s (loop_over sm (Inl f) (take_item e es bx lg s))"
| sys_io: "sy_end s = None \<Longrightarrow> sys_step A tk sm pt poll_next lines s (loop_over sm (Inl (Err (Io x))) s)"
| sys_poll: "\<not> sy_left s \<Longrightarrow> pt_get pt (sy_bx s) = Some st \<Longrightarrow> poll_next st = (r, st') \<Longrightarrow>
    sys_step A tk sm pt poll_next lines s
      (s\<lparr>sy_bx := pt_put pt st' (sy_bx s),
         sy_out := sy_out s @ (case r of Poll_Ready (Some e) \<Rightarrow> lines e | _ \<Rightarrow> []),
         sy_left := (r = Poll_Ready None)\<rparr>)"

inductive sys_run :: "program set \<Rightarrow> ('n, 'p, 'f, 'm) tokio \<Rightarrow> ('n, 'p, 'f, 'm) streams \<Rightarrow>
    (('b, 'r, 'n, 'p, 'f, 'm) Bpfx, 's) port \<Rightarrow> ('s \<Rightarrow> 'e option poll \<times> 's) \<Rightarrow> ('e \<Rightarrow> string list) \<Rightarrow>
    (('b, 'r, 'n, 'p, 'f, 'm) Bpfx, 'x) system \<Rightarrow> (('b, 'r, 'n, 'p, 'f, 'm) Bpfx, 'x) system \<Rightarrow> bool"
  for A :: "program set" and tk :: "('n, 'p, 'f, 'm) tokio" and sm :: "('n, 'p, 'f, 'm) streams"
    and pt :: "(('b, 'r, 'n, 'p, 'f, 'm) Bpfx, 's) port" and poll_next :: "'s \<Rightarrow> 'e option poll \<times> 's"
    and lines :: "'e \<Rightarrow> string list" where
  sys_refl: "sys_run A tk sm pt poll_next lines s s"
| sys_next: "sys_run A tk sm pt poll_next lines s t \<Longrightarrow> sys_step A tk sm pt poll_next lines t u \<Longrightarrow>
    sys_run A tk sm pt poll_next lines s u"

section \<open>The contract of a family\<close>

text \<open>
  The accounting of a running example: everything in the ring is well formed and acceptable (\<open>ok\<close>),
  the loop is over only for an error of its wait, and with the stream \<open>st\<close> of the subscription: the
  lines printed are those of the events that were handed out, the channel has accepted a subsequence
  of the events \<open>W\<close> that the structures read stand for, each missing one has a line in the log, and
  the main task has returned only after the loop was over and all was handed out.
\<close>

definition emits_only :: "program set \<Rightarrow> (raw_event \<Rightarrow> bool) \<Rightarrow> bool" where
  "emits_only A ok =
     (\<forall>p\<in>A. \<forall>env s. list_all ok (EVENTS s) \<longrightarrow> list_all ok (EVENTS (snd (run_program p env s))))"

definition stream_inv :: "('tx \<Rightarrow> 'e list) \<Rightarrow> ('tx \<Rightarrow> 'e list) \<Rightarrow> ('tx \<Rightarrow> bool) \<Rightarrow> ('e \<Rightarrow> string list) \<Rightarrow>
    string list \<Rightarrow> 'e list \<Rightarrow> string \<Rightarrow> 'tx \<Rightarrow> ('bx, 'x) system \<Rightarrow> bool" where
  "stream_inv acc got gone lines out0 evs F c s =
     (sy_out s = out0 @ concat (map lines (got c)) \<and> subseq (acc c) evs \<and>
      length evs = length (acc c) + drops F (sy_log s) \<and>
      (sy_left s \<longrightarrow> got c = acc c \<and> gone c) \<and> (gone c \<longrightarrow> sy_end s \<noteq> None) \<and>
      (\<forall>res. sy_end s = Some res \<longrightarrow> (\<exists>x. res = Inl (Err (Io x)))))"

lemma accounted_append:
  assumes "accounted v sent n" and "subseq xs evs"
  shows "subseq (xs @ sent) (evs @ (case v of None \<Rightarrow> [] | Some ev \<Rightarrow> [ev]))"
    and "length (evs @ (case v of None \<Rightarrow> [] | Some ev \<Rightarrow> [ev])) = length evs + (length sent + n)"
  using assms by (auto simp: accounted_def list_emb_append_mono intro: list_emb_append2 split: option.splits)

locale subscriber = event_stream poll_next rx put
  for poll_next :: "('tx, 'e) receiver \<Rightarrow> 's \<Rightarrow> 'e option poll \<times> 's"
    and rx :: "'s \<Rightarrow> 'tx" and put :: "'tx \<Rightarrow> 's \<Rightarrow> 's" +
  fixes chan :: "('n, 'p, 'f, 'm) tokio \<Rightarrow> ('tx, 'e) mpsc"
    and recv :: "('n, 'p, 'f, 'm) streams \<Rightarrow> ('tx, 'e) receiver"
    and pt :: "(('b, 'r, 'n, 'p, 'f, 'm) Bpfx, 's) port"
    and F :: string
    and W :: "raw_event list \<Rightarrow> 'e list"
    and R :: "raw_event list \<Rightarrow> ('b, 'r, 'n, 'p, 'f, 'm) Bpfx \<Rightarrow> bool"
    and ok :: "raw_event \<Rightarrow> bool"
  assumes get_put: "pt_get pt bx = Some st \<Longrightarrow> pt_get pt (pt_put pt st' bx) = Some st'"
    and put_R: "R evs bx \<Longrightarrow> R evs (pt_put pt st bx)"
    and drop_R: "R evs bx \<Longrightarrow> R evs (apply_receivers rv bx)"
    and drop_get: "pt_get pt bx = Some st \<Longrightarrow>
      \<exists>st'. pt_get pt (apply_receivers (drop_senders sm) bx) = Some st' \<and> rx st' = drop_tx (recv sm) (rx st)"
    and R_net: "R evs bx \<Longrightarrow> ok e \<Longrightarrow> bx_network bx \<noteq> None \<Longrightarrow> is_net e"
    and R_dispatch: "R evs bx \<Longrightarrow> ok e \<Longrightarrow> R (evs @ [e]) (fst (spec_dispatch tk e bx))"
    and dispatched: "receiver_law (chan tk) rc acc got gone \<Longrightarrow> R evs bx \<Longrightarrow> pt_get pt bx = Some st \<Longrightarrow>
      \<exists>st' sent v. pt_get pt (fst (spec_dispatch tk e bx)) = Some st' \<and>
        acc (rx st') = acc (rx st) @ sent \<and> got (rx st') = got (rx st) \<and> gone (rx st') = gone (rx st) \<and>
        W (evs @ [e]) = W evs @ (case v of None \<Rightarrow> [] | Some ev \<Rightarrow> [ev]) \<and>
        accounted v sent (drops F (snd (spec_dispatch tk e bx)))"
begin

lemma item_refined:
  assumes "ring_inv k" and "list_all ok (EVENTS k)" and "EVENTS k = e # es" and "is_image it e" and "R evs bx"
  shows "dispatch tk it bx = (Inr (), spec_dispatch tk e bx)"
  using assms R_net [of evs bx e] by (intro dispatch_refines) (auto simp: ring_inv_def)

lemma item_inv:
  assumes law: "receiver_law (chan tk) rc acc got gone"
    and "R (sy_read s) (sy_bx s)" and g: "pt_get pt (sy_bx s) = Some st"
    and i: "stream_inv acc got gone lines out0 (W (sy_read s)) F (rx st) s"
    and d: "spec_dispatch tk e (sy_bx s) = (bx, lg)" and "sy_end s = None"
  shows "\<exists>st'. pt_get pt bx = Some st' \<and>
    stream_inv acc got gone lines out0 (W (sy_read s @ [e])) F (rx st') (take_item e es bx lg s)"
proof -
  from dispatched [OF law assms(2) g, of e] d obtain st' sent v where
    a: "pt_get pt bx = Some st'" "acc (rx st') = acc (rx st) @ sent" "got (rx st') = got (rx st)"
    "gone (rx st') = gone (rx st)" "W (sy_read s @ [e]) = W (sy_read s) @ (case v of None \<Rightarrow> [] | Some ev \<Rightarrow> [ev])"
    "accounted v sent (drops F lg)" by auto
  have "\<not> sy_left s" using i assms(6) by (auto simp: stream_inv_def)
  then show ?thesis
    using a i accounted_append [OF a(6), of "acc (rx st)" "W (sy_read s)"]
    by (auto simp: stream_inv_def take_item_def)
qed

lemma poll_inv:
  assumes law: "receiver_law (chan tk) (recv sm) acc got gone"
    and i: "stream_inv acc got gone lines out0 evs F (rx st) s"
    and p: "poll_next (recv sm) st = (r, st')" and "\<not> sy_left s"
  shows "stream_inv acc got gone lines out0 evs F (rx st')
    (s\<lparr>sy_bx := bx, sy_out := sy_out s @ (case r of Poll_Ready (Some e) \<Rightarrow> lines e | _ \<Rightarrow> []),
       sy_left := (r = Poll_Ready None)\<rparr>)"
proof -
  from p obtain c where c: "poll_recv (recv sm) (rx st) = (r, c)" "rx st' = c" by (rule poll_nextE)
  from i poll_recvD [OF law c(1)] c(2) show ?thesis
    by (auto simp: stream_inv_def split: poll.splits option.splits)
qed

lemma over_inv:
  assumes law: "receiver_law (chan tk) (recv sm) acc got gone"
    and i: "stream_inv acc got gone lines out0 evs F (rx st) s" and g: "pt_get pt (sy_bx s) = Some st"
  shows "\<exists>st'. pt_get pt (sy_bx (loop_over sm (Inl (Err (Io x))) s)) = Some st' \<and>
    stream_inv acc got gone lines out0 evs F (rx st') (loop_over sm (Inl (Err (Io x))) s)"
proof -
  from drop_get [OF g, of sm] obtain st' where
    st': "pt_get pt (apply_receivers (drop_senders sm) (sy_bx s)) = Some st'" "rx st' = drop_tx (recv sm) (rx st)"
    by blast
  with i receiver_lawD(7-9) [OF law, of "rx st"] show ?thesis
    by (auto simp: stream_inv_def loop_over_def)
qed

lemma step_inv:
  fixes s t :: "(('b, 'r, 'n, 'p, 'f, 'm) Bpfx, 'x) system"
  assumes law: "receiver_law (chan tk) (recv sm) acc got gone" and A: "emits_only A ok"
    and step: "sys_step A tk sm pt (poll_next (recv sm)) lines s t"
    and k: "ring_inv (sy_kernel s)" "list_all ok (EVENTS (sy_kernel s))" and rr: "R (sy_read s) (sy_bx s)"
    and g: "pt_get pt (sy_bx s) = Some st"
    and i: "stream_inv acc got gone lines out0 (W (sy_read s)) F (rx st) s"
  shows "ring_inv (sy_kernel t) \<and> list_all ok (EVENTS (sy_kernel t)) \<and> R (sy_read t) (sy_bx t) \<and>
    (\<exists>st'. pt_get pt (sy_bx t) = Some st' \<and> stream_inv acc got gone lines out0 (W (sy_read t)) F (rx st') t)"
  using step
proof (cases rule: sys_step.cases)
  case (sys_prog p env r k')
  have "ring_inv k'" using prog.keeps_ring_inv [of env "sy_kernel s" p] sys_prog(3,4) k(1) by simp
  moreover have "list_all ok (EVENTS k')"
    using A sys_prog(2,4) k(2) unfolding emits_only_def by (metis snd_conv)
  ultimately show ?thesis using sys_prog rr g i by (auto simp: stream_inv_def)
next
  case (sys_item e es it bx lg)
  have "dispatch tk it (sy_bx s) = (Inr () :: 'x fault + unit, spec_dispatch tk e (sy_bx s))"
    by (rule item_refined [OF k sys_item(3,4) rr])
  then have d: "spec_dispatch tk e (sy_bx s) = (bx, lg)" and "ok e" "list_all ok es"
    using sys_item(3,5) k(2) by auto
  from item_inv [OF law rr g i d sys_item(2)] obtain st' where st': "pt_get pt bx = Some st'"
    "stream_inv acc got gone lines out0 (W (sy_read s @ [e])) F (rx st') t" using sys_item(1) by blast
  moreover have "ring_inv (sy_kernel t)"
    using k(1) sys_item(1,3) by (simp add: take_item_def ring_inv_def wf_kstate_def)
  moreover have "R (sy_read s @ [e]) bx" using R_dispatch [OF rr \<open>ok e\<close>, of tk] d by simp
  ultimately show ?thesis using sys_item(1) \<open>list_all ok es\<close> by (simp add: take_item_def)
next
  case (sys_fault e es it f bx lg)
  have "dispatch tk it (sy_bx s) = (Inr () :: 'x fault + unit, spec_dispatch tk e (sy_bx s))"
    by (rule item_refined [OF k sys_fault(3,4) rr])
  with sys_fault(5) show ?thesis by simp
next
  case (sys_io x)
  with over_inv [OF law i g, of x] drop_R [OF rr] k show ?thesis by (simp add: loop_over_def)
next
  case (sys_poll st0 r st')
  then show ?thesis
    using poll_inv [OF law i, of r st' "pt_put pt st' (sy_bx s)"] g k put_R [OF rr, of st'] get_put [OF g, of st']
    by auto
qed

lemma run_inv:
  assumes run: "sys_run A tk sm pt (poll_next (recv sm)) lines s t"
    and law: "receiver_law (chan tk) (recv sm) acc got gone" and A: "emits_only A ok"
    and k: "ring_inv (sy_kernel s)" "EVENTS (sy_kernel s) = []"
    and s: "sy_read s = []" "sy_log s = []" "sy_end s = None" "\<not> sy_left s" "R [] (sy_bx s)" "W [] = []"
    and g: "pt_get pt (sy_bx s) = Some st" "acc (rx st) = []" "\<not> gone (rx st)"
  shows "\<exists>st'. pt_get pt (sy_bx t) = Some st' \<and>
    stream_inv acc got gone lines (sy_out s) (W (sy_read t)) F (rx st') t"
proof -
  have "got (rx st) = []" using receiver_lawD(2) [OF law, of "rx st"] g(2) by simp
  then have start: "stream_inv acc got gone lines (sy_out s) (W (sy_read s)) F (rx st) s"
    using s g by (simp add: stream_inv_def)
  from run have "ring_inv (sy_kernel t) \<and> list_all ok (EVENTS (sy_kernel t)) \<and> R (sy_read t) (sy_bx t) \<and>
    (\<exists>st'. pt_get pt (sy_bx t) = Some st' \<and> stream_inv acc got gone lines (sy_out s) (W (sy_read t)) F (rx st') t)"
    using k s(1,5) g(1) start
  proof (induction rule: sys_run.induct)
    case (sys_next s t u)
    then show ?case using step_inv [OF law A sys_next.hyps(2)] by blast
  qed auto
  then show ?thesis by blast
qed

end

section \<open>The four families\<close>

text \<open>The events that the structures read stand for; for files they depend on the pending renames.\<close>

definition file_view_list :: "raw_event list \<Rightarrow> FileEvent list" where
  "file_view_list evs = file_views (map (Pair ()) evs) []"

lemma file_view_list_Nil [simp]: "file_view_list [] = []"
  by (simp add: file_view_list_def)

lemma file_views_append:
  "file_views (xs @ [(u, e)]) m = file_views xs m @
     (case file_view e (hm_get (fold pending_after (map snd xs) m)) of None \<Rightarrow> [] | Some ev \<Rightarrow> [ev])"
  by (induction xs m rule: file_views.induct) simp_all

lemma file_view_list_append:
  "file_view_list (evs @ [e]) = file_view_list evs @
     (case file_view e (hm_get (fold pending_after evs [])) of None \<Rightarrow> [] | Some ev \<Rightarrow> [ev])"
  by (simp add: file_view_list_def file_views_append comp_def)

lemma map_filter_append1:
  "List.map_filter f (xs @ [x]) = List.map_filter f xs @ (case f x of None \<Rightarrow> [] | Some y \<Rightarrow> [y])"
  by (simp add: List.map_filter_def split: option.split)

lemmas dispatch_log = spec_dispatch_def Let_def drops_feed_other drops_pending

interpretation process_sub: subscriber PollProcess_poll_next pp_rx "\<lambda>c s. s\<lparr>pp_rx := c\<rparr>"
  tk_process sm_process process_port "''process''" "List.map_filter process_view"
  "\<lambda>_ bx. bx_network bx = None" "\<lambda>_. True"
proof unfold_locales
  fix tk :: "('tn, 'tp, 'tf, 'tm) tokio" and rc acc got gone st e
    and bx :: "('tb, 'tr, 'tn, 'tp, 'tf, 'tm) Bpfx" and evs :: "raw_event list"
  assume law: "receiver_law (tk_process tk) rc acc got gone" and g: "pt_get process_port bx = Some st"
  from g obtain r where r: "bx_process bx = Some r" "st = \<lparr>pp_rx = pr_tx r\<rparr>" by (auto simp: process_port_def)
  from feed_receiver [OF law, of "''process''" "process_view e" "pr_tx r"]
  show "\<exists>st' sent v. pt_get process_port (fst (spec_dispatch tk e bx)) = Some st' \<and>
      acc (pp_rx st') = acc (pp_rx st) @ sent \<and> got (pp_rx st') = got (pp_rx st) \<and> gone (pp_rx st') = gone (pp_rx st) \<and>
      List.map_filter process_view (evs @ [e]) =
        List.map_filter process_view evs @ (case v of None \<Rightarrow> [] | Some ev \<Rightarrow> [ev]) \<and>
      accounted v sent (drops ''process'' (snd (spec_dispatch tk e bx)))"
    by (auto simp: r process_port_def dispatch_log map_filter_append1 split: option.split
        intro!: exI [of _ "process_view e"])
qed (auto simp: process_port_def apply_receivers_def drop_senders_def spec_dispatch_def Let_def)

interpretation network_sub: subscriber PollNetwork_poll_next pn_rx "\<lambda>c s. s\<lparr>pn_rx := c\<rparr>"
  tk_network sm_network network_port "''network''" "List.map_filter net_view"
  "\<lambda>_ _. True" is_net
proof unfold_locales
  fix tk :: "('tn, 'tp, 'tf, 'tm) tokio" and rc acc got gone st e
    and bx :: "('tb, 'tr, 'tn, 'tp, 'tf, 'tm) Bpfx" and evs :: "raw_event list"
  assume law: "receiver_law (tk_network tk) rc acc got gone" and g: "pt_get network_port bx = Some st"
  from g obtain r where r: "bx_network bx = Some r" "st = \<lparr>pn_rx = nr_tx r\<rparr>" by (auto simp: network_port_def)
  from feed_receiver [OF law, of "''network''" "net_view e" "nr_tx r"]
  show "\<exists>st' sent v. pt_get network_port (fst (spec_dispatch tk e bx)) = Some st' \<and>
      acc (pn_rx st') = acc (pn_rx st) @ sent \<and> got (pn_rx st') = got (pn_rx st) \<and> gone (pn_rx st') = gone (pn_rx st) \<and>
      List.map_filter net_view (evs @ [e]) =
        List.map_filter net_view evs @ (case v of None \<Rightarrow> [] | Some ev \<Rightarrow> [ev]) \<and>
      accounted v sent (drops ''network'' (snd (spec_dispatch tk e bx)))"
    by (auto simp: r network_port_def dispatch_log map_filter_append1 split: option.split
        intro!: exI [of _ "net_view e"])
qed (auto simp: network_port_def apply_receivers_def drop_senders_def spec_dispatch_def Let_def)

interpretation file_sub: subscriber PollFile_poll_next pf_rx "\<lambda>c s. s\<lparr>pf_rx := c\<rparr>"
  tk_file sm_file file_port "''file''" file_view_list
  "\<lambda>evs bx. bx_network bx = None \<and> bx_file bx \<noteq> None \<and> bx_pending_renames bx = fold pending_after evs []" "\<lambda>_. True"
proof unfold_locales
  fix tk :: "('tn, 'tp, 'tf, 'tm) tokio" and rc acc got gone st e
    and bx :: "('tb, 'tr, 'tn, 'tp, 'tf, 'tm) Bpfx" and evs :: "raw_event list"
  assume law: "receiver_law (tk_file tk) rc acc got gone" and g: "pt_get file_port bx = Some st"
    and pend: "bx_network bx = None \<and> bx_file bx \<noteq> None \<and> bx_pending_renames bx = fold pending_after evs []"
  from g obtain r where r: "bx_file bx = Some r" "st = \<lparr>pf_rx = fr_tx r\<rparr>" by (auto simp: file_port_def)
  from feed_receiver [OF law, of "''file''" "file_view e (hm_get (fold pending_after evs []))" "fr_tx r"]
  show "\<exists>st' sent v. pt_get file_port (fst (spec_dispatch tk e bx)) = Some st' \<and>
      acc (pf_rx st') = acc (pf_rx st) @ sent \<and> got (pf_rx st') = got (pf_rx st) \<and> gone (pf_rx st') = gone (pf_rx st) \<and>
      file_view_list (evs @ [e]) =
        file_view_list evs @ (case v of None \<Rightarrow> [] | Some ev \<Rightarrow> [ev]) \<and>
      accounted v sent (drops ''file'' (snd (spec_dispatch tk e bx)))"
    by (auto simp: r file_port_def dispatch_log file_view_list_append pend [THEN conjunct2, THEN conjunct2] split: option.split
        intro!: exI [of _ "file_view e (hm_get (fold pending_after evs []))"])
qed (auto simp: file_port_def apply_receivers_def drop_senders_def spec_dispatch_def Let_def)

interpretation mem_sub: subscriber PollMem_poll_next pm_rx "\<lambda>c s. s\<lparr>pm_rx := c\<rparr>"
  tk_mem sm_mem mem_port "''memory''" "List.map_filter mem_view"
  "\<lambda>_ bx. bx_network bx = None" "\<lambda>_. True"
proof unfold_locales
  fix tk :: "('tn, 'tp, 'tf, 'tm) tokio" and rc acc got gone st e
    and bx :: "('tb, 'tr, 'tn, 'tp, 'tf, 'tm) Bpfx" and evs :: "raw_event list"
  assume law: "receiver_law (tk_mem tk) rc acc got gone" and g: "pt_get mem_port bx = Some st"
  from g obtain r where r: "bx_mem bx = Some r" "st = \<lparr>pm_rx = mr_tx r\<rparr>" by (auto simp: mem_port_def)
  from feed_receiver [OF law, of "''memory''" "mem_view e" "mr_tx r"]
  show "\<exists>st' sent v. pt_get mem_port (fst (spec_dispatch tk e bx)) = Some st' \<and>
      acc (pm_rx st') = acc (pm_rx st) @ sent \<and> got (pm_rx st') = got (pm_rx st) \<and> gone (pm_rx st') = gone (pm_rx st) \<and>
      List.map_filter mem_view (evs @ [e]) =
        List.map_filter mem_view evs @ (case v of None \<Rightarrow> [] | Some ev \<Rightarrow> [ev]) \<and>
      accounted v sent (drops ''memory'' (snd (spec_dispatch tk e bx)))"
    by (auto simp: r mem_port_def dispatch_log map_filter_append1 split: option.split
        intro!: exI [of _ "mem_view e"])
qed (auto simp: mem_port_def apply_receivers_def drop_senders_def spec_dispatch_def Let_def)

section \<open>From the start of an example\<close>

lemma quiet_start:
  assumes "kernel_run {} (boot h0) k"
  shows "ring_inv k \<and> EVENTS k = []"
proof -
  have "EVENTS t = []" if "kernel_run {} s t" "EVENTS s = []" for s t
    using that by (induction rule: kernel_run.induct) (auto elim!: kernel_stepE)
  with assms kernel_run_ring_inv [OF assms boot_ring_inv] show ?thesis by (simp add: boot_def)
qed

lemma emits_any: "emits_only A (\<lambda>_. True)"
  by (simp add: emits_only_def list_all_iff)

lemma Bpfx_new_registers:
  assumes "Bpfx_new ld = Inr bx"
  shows "bx_network bx = None" "bx_process bx = None" "bx_file bx = None" "bx_mem bx = None"
    "bx_pending_renames bx = []"
  using assms by (auto simp: Bpfx_new_def Let_def split: sum.splits option.splits)

lemma start_exampleE:
  assumes "start_example subscribe filt banner ld = Inr started"
  obtains bx bx' tx where "Bpfx_new ld = Inr bx" "subscribe filt bx = (Inr tx, bx')" "started = (bx', [banner])"
  using assms by (auto simp: start_example_def Bpfx_subscribe_def split: sum.splits prod.splits)

lemma process_example_start:
  assumes "process_example ay tk ld = Inr started" and "receiver_law (tk_process tk) rc acc got gone"
  shows "bx_network (fst started) = None \<and> snd started = [''Watching process activity (Ctrl+C to exit)...''] \<and>
    (\<exists>st. pt_get process_port (fst started) = Some st \<and> acc (pp_rx st) = [] \<and> \<not> gone (pp_rx st))"
  using assms(1) unfolding process_example_def
  by (elim start_exampleE) (auto simp: subscribe_process_def process_port_def Bpfx_new_registers
      receiver_lawD(5,6) [OF assms(2)] split: option.splits prod.splits sum.splits)

lemma network_example_start:
  assumes "network_example ay tk ld = Inr started" and "receiver_law (tk_network tk) rc acc got gone"
  shows "snd started = [''Watching network activity (Ctrl+C to exit)...''] \<and>
    (\<exists>st. pt_get network_port (fst started) = Some st \<and> acc (pn_rx st) = [] \<and> \<not> gone (pn_rx st))"
  using assms(1) unfolding network_example_def
  by (elim start_exampleE) (auto simp: subscribe_network_def network_port_def Bpfx_new_registers
      receiver_lawD(5,6) [OF assms(2)] split: option.splits prod.splits sum.splits)

lemma memory_example_start:
  assumes "memory_example ay tk ld = Inr started" and "receiver_law (tk_mem tk) rc acc got gone"
  shows "bx_network (fst started) = None \<and> snd started = [''Watching virtual memory mappings (Ctrl+C to exit)...''] \<and>
    (\<exists>st. pt_get mem_port (fst started) = Some st \<and> acc (pm_rx st) = [] \<and> \<not> gone (pm_rx st))"
  using assms(1) unfolding memory_example_def
  by (elim start_exampleE) (auto simp: subscribe_mem_def mem_port_def Bpfx_new_registers
      receiver_lawD(5,6) [OF assms(2)] split: option.splits prod.splits sum.splits)

lemma file_example_start:
  assumes "file_example ay tk ld = Inr started" and "receiver_law (tk_file tk) rc acc got gone"
  shows "bx_network (fst started) = None \<and> bx_file (fst started) \<noteq> None \<and> bx_pending_renames (fst started) = [] \<and>
    snd started = [''Watching file events (Ctrl+C to exit)...''] \<and>
    (\<exists>st. pt_get file_port (fst started) = Some st \<and> acc (pf_rx st) = [] \<and> \<not> gone (pf_rx st))"
  using assms(1) unfolding file_example_def
  by (elim start_exampleE) (auto simp: subscribe_file_def file_port_def Bpfx_new_registers
      receiver_lawD(5,6) [OF assms(2)] split: option.splits prod.splits sum.splits)

lemma sys_start_simps [simp]:
  "sy_kernel (sys_start k started) = k" "sy_read (sys_start k started) = []" "sy_bx (sys_start k started) = fst started"
  "sy_out (sys_start k started) = snd started" "sy_log (sys_start k started) = []" "sy_end (sys_start k started) = None"
  "\<not> sy_left (sys_start k started)"
  by (simp_all add: sys_start_def)

text \<open>The name of a file is a part of its path.\<close>

lemma split_on_parts:
  "split_on c xs \<noteq> [] \<and> prefix (hd (split_on c xs)) xs \<and> (\<forall>w\<in>set (split_on c xs). sublist w xs)"
proof (induction xs)
  case (Cons x xs)
  then obtain w ws where w: "split_on c xs = w # ws" by (cases "split_on c xs") auto
  with Cons show ?case
    by (auto intro: sublist_Cons_right[THEN iffD2] simp: sublist_Cons_right prefix_imp_sublist)
qed simp

lemma event_file_name_part: "sublist (event_file_name path) path"
proof (cases "path_file_name path")
  case (Some n)
  then have "n \<in> set (split_on (CHR ''/'') path)"
    by (auto simp: path_file_name_def Let_def split: if_splits dest!: last_in_set)
  with split_on_parts [of "CHR ''/''" path] Some show ?thesis by (simp add: event_file_name_def)
qed (simp add: event_file_name_def)

context subscriber
begin

text \<open>One program runs, the loop takes the item, the main task polls.\<close>

lemma one_event_run:
  fixes started :: "('b, 'r, 'n, 'p, 'f, 'm) Bpfx \<times> string list"
  assumes "p \<in> A" "wf_env env" and k: "ring_inv k" "EVENTS k = []"
    and e: "EVENTS (snd (run_program p env k)) = [e]" "ok e" and "R [] (fst started)"
  shows "\<exists>s :: (('b, 'r, 'n, 'p, 'f, 'm) Bpfx, 'x) system.
    sys_run A tk sm pt (poll_next (recv sm)) lines (sys_start k started) s \<and> sy_read s = [e]"
proof -
  let ?k = "snd (run_program p env k)" and ?s = "sys_start k started :: (('b, 'r, 'n, 'p, 'f, 'm) Bpfx, 'x) system"
  let ?it = "item_of (enc_raw (\<lambda>_. 0) e) (\<lambda>_. 0)"
  have one: "sys_step A tk sm pt (poll_next (recv sm)) lines ?s (?s\<lparr>sy_kernel := ?k\<rparr>)"
    by (rule sys_prog [OF assms(1,2)]) (simp add: prod_eq_iff)
  have img: "is_image ?it e" unfolding is_image_def by blast
  have inv: "ring_inv ?k" by (rule prog.keeps_ring_inv [OF assms(2) k(1)])
  obtain bx lg where d: "spec_dispatch tk e (fst started) = (bx, lg)" by force
  have "dispatch tk ?it (fst started) = (Inr () :: 'x fault + unit, bx, lg)"
    using item_refined [OF inv _ e(1) img assms(7), of tk] e d by simp
  then have "sys_step A tk sm pt (poll_next (recv sm)) lines (?s\<lparr>sy_kernel := ?k\<rparr>)
      (take_item e [] bx lg (?s\<lparr>sy_kernel := ?k\<rparr>))"
    by (intro sys_item [OF _ _ img]) (simp_all add: e(1))
  note run = sys_next [OF sys_next [OF sys_refl one] this]
  show ?thesis
    by (rule exI, rule conjI, rule run) (simp add: take_item_def)
qed

end

lemma sys_run_only:
  assumes "sys_run A tk sm pt poll_next lines s t" and "emits_only A ok" and "list_all ok (sy_read s @ EVENTS (sy_kernel s))"
  shows "list_all ok (sy_read t @ EVENTS (sy_kernel t))"
  using assms
proof (induction rule: sys_run.induct)
  case (sys_next s t u)
  from sys_next.hyps(2) sys_next.IH sys_next.prems show ?case
  proof (cases rule: sys_step.cases)
    case (sys_prog p env r k)
    have "list_all ok (EVENTS (snd (run_program p env (sy_kernel t))))"
      using sys_next.IH sys_next.prems sys_prog(2) by (simp add: emits_only_def)
    with sys_prog sys_next.IH sys_next.prems show ?thesis by simp
  qed (auto simp: take_item_def loop_over_def)
qed simp

section \<open>A concrete start\<close>

definition demo_ld :: "(effect list \<times> string list, unit, unit) loading" where
  "demo_ld = \<lparr>ld_load = Inr ([], []), ld_logger = (\<lambda>b. (None, b)), ld_btf = None, ld_take_events = Some, ld_ringbuf = Inr ()\<rparr>"

lemmas demo_attach = attach_process_probe_def attach_mem_probe_def attach_file_probe_def attach_network_probe_def
  write_to_fiter_map_def write_to_map_def attach_lsm_probe_def attach_fexit_def attach_fentry_def attach_kprobe_def
  attach_tracepoint_def load_attach_def obj_aya_def Let_def program_of_name_def all_programs_def when_steps_def

lemma obj_steps:
  "fst (write_to_fiter_map obj_aya ft owner b) = Inr ()" "fst (write_to_map obj_aya ff b) = Inr ()"
  "map_option program_kind (program_of_name n) = Some FExit \<Longrightarrow> fst (attach_fexit obj_aya n g b) = Inr ()"
  "map_option program_kind (program_of_name n) = Some KProbe \<Longrightarrow> fst (attach_kprobe obj_aya n g b) = Inr ()"
  "map_option program_kind (program_of_name n) = Some FEntry \<Longrightarrow> fst (attach_fentry obj_aya n g b) = Inr ()"
  "map_option program_kind (program_of_name n) = Some TracePoint \<Longrightarrow> fst (attach_tracepoint obj_aya n c g b) = Inr ()"
  "map_option program_kind (program_of_name ''file_open'') = Some Lsm \<Longrightarrow> fst (attach_lsm_probe obj_aya b) = Inr ()"
  by (auto simp: write_to_fiter_map_def write_to_map_def attach_fexit_def attach_kprobe_def attach_fentry_def
      attach_tracepoint_def attach_lsm_probe_def load_attach_def obj_aya_def)

lemma demo_attached:
  "\<exists>b'. attach_process_probe obj_aya fp b = (Inr (), b')"
  "\<exists>b'. attach_file_probe obj_aya ff b = (Inr (), b')"
  "\<exists>b'. attach_mem_probe obj_aya fm b = (Inr (), b')"
  "\<exists>b'. attach_network_probe obj_aya fn b = (Inr (), b')"
proof -
  have "fst (attach_process_probe obj_aya fp b) = Inr ()"
    unfolding attach_process_probe_def Let_def
    by (rule run_steps_ok) (simp add: when_steps_def obj_steps program_of_name_def all_programs_def)
  then show "\<exists>b'. attach_process_probe obj_aya fp b = (Inr (), b')" by (cases "attach_process_probe obj_aya fp b") simp
  have "fst (attach_file_probe obj_aya ff b) = Inr ()"
    unfolding attach_file_probe_def Let_def
    by (rule run_steps_ok) (simp add: when_steps_def obj_steps program_of_name_def all_programs_def)
  then show "\<exists>b'. attach_file_probe obj_aya ff b = (Inr (), b')" by (cases "attach_file_probe obj_aya ff b") simp
  have "fst (attach_mem_probe obj_aya fm b) = Inr ()"
    unfolding attach_mem_probe_def Let_def
    by (rule run_steps_ok) (simp add: when_steps_def obj_steps program_of_name_def all_programs_def)
  then show "\<exists>b'. attach_mem_probe obj_aya fm b = (Inr (), b')" by (cases "attach_mem_probe obj_aya fm b") simp
  have "fst (attach_network_probe obj_aya fn b) = Inr ()"
    unfolding attach_network_probe_def Let_def
    by (rule run_steps_ok) (simp add: when_steps_def obj_steps program_of_name_def all_programs_def
        TCP_CONNECT_def TCP_ACCEPT_def TCP_CLOSE_def UDP_CONNECT_def UDP_CLOSE_def)
  then show "\<exists>b'. attach_network_probe obj_aya fn b = (Inr (), b')" by (cases "attach_network_probe obj_aya fn b") simp
qed

lemma demo_started:
  "\<exists>started. process_example obj_aya q_tokio demo_ld = Inr started"
  "\<exists>started. memory_example obj_aya q_tokio demo_ld = Inr started"
  "\<exists>started. file_example obj_aya q_tokio demo_ld = Inr started"
  "\<exists>started. network_example obj_aya q_tokio demo_ld = Inr started"
proof -
  obtain p f m n where a: "attach_process_probe obj_aya ProcessFilter_ALL ([], []) = (Inr (), p)"
    "attach_file_probe obj_aya FileFilter_ALL ([], []) = (Inr (), f)"
    "attach_mem_probe obj_aya MemoryFilter_ALL ([], []) = (Inr (), m)"
    "attach_network_probe obj_aya NetworkFilter_ALL ([], []) = (Inr (), n)"
    using demo_attached by metis
  note start = start_example_def Bpfx_new_def demo_ld_def Bpfx_subscribe_def q_tokio_def q_mpsc_def
  show "\<exists>started. process_example obj_aya q_tokio demo_ld = Inr started"
    by (simp add: process_example_def subscribe_process_def start a)
  show "\<exists>started. memory_example obj_aya q_tokio demo_ld = Inr started"
    by (simp add: memory_example_def subscribe_mem_def start a)
  show "\<exists>started. file_example obj_aya q_tokio demo_ld = Inr started"
    by (simp add: file_example_def subscribe_file_def start a)
  show "\<exists>started. network_example obj_aya q_tokio demo_ld = Inr started"
    by (simp add: network_example_def subscribe_network_def start a)
qed

lemma demo_one_event:
  "\<exists>e. EVENTS (snd (run_program P_do_group_exit demo_env (boot demo_header))) = [e]"
  "\<exists>e. EVENTS (snd (run_program P_vm_munmap demo_env (boot demo_header))) = [e]"
  "\<exists>e. EVENTS (snd (run_program P_vfs_unlink demo_env demo_state)) = [e]"
  by (simp_all add: try_do_group_exit_def try_vm_munmap_def try_vfs_unlink_def Let_def filter_events_def boot_def
      demo_state_def demo_env_def capture_inode_def type_of_mode_def file_mode_consts file_bits)

lemma demo_state_quiet: "kernel_run {} (boot demo_header) demo_state"
  using run_step [OF run_refl step_config, of "{}" "boot demo_header" 0 "\<lparr>mode = 0x7F\<rparr>"]
  by (simp add: demo_state_def boot_def)

lemma process_lines: "concat (map process_example_lines evs) = map fmt_ProcessEvent evs"
proof (induction evs)
  case (Cons e evs)
  then show ?case by (cases e) simp_all
qed simp

lemma memory_lines:
  "concat (map memory_example_lines evs) = map fmt_MemoryEvent (filter (\<lambda>e. eh_pid (memory_header e) \<noteq> 0) evs)"
proof (induction evs)
  case (Cons e evs)
  then show ?case
    by (cases e) (simp_all add: memory_example_lines_def memory_is_kernel_thread_def header_is_kernel_thread_def)
qed simp

section \<open>Properties\<close>

text \<open>
  C1: the process example, with the kernel, the event loop and the main task taking turns in any order,
  and whatever programs are attached. The loop never faults; after the first line exactly one line
  is printed for each event handed out, in the order in which the kernel side submitted them and
  none twice; each event read from the ring is printed, or waiting in the channel, or has a line in
  the log; and the program returns only after the loop is over and everything was printed.
\<close>

theorem process_example_reports:
  assumes "process_example ay tk ld = Inr started"
    and "receiver_law (tk_process tk) (sm_process sm) acc got gone" and "kernel_run {} (boot h0) k"
    and "sys_run A tk sm process_port (PollProcess_poll_next (sm_process sm)) process_example_lines (sys_start k started) s"
  shows "(\<forall>res. sy_end s = Some res \<longrightarrow> (\<exists>x. res = Inl (Err (Io x)))) \<and>
    (\<exists>st. pt_get process_port (sy_bx s) = Some st \<and> prefix (got (pp_rx st)) (acc (pp_rx st)) \<and>
      sy_out s = ''Watching process activity (Ctrl+C to exit)...'' # map fmt_ProcessEvent (got (pp_rx st)) \<and>
      subseq (acc (pp_rx st)) (List.map_filter process_view (sy_read s)) \<and>
      length (List.map_filter process_view (sy_read s)) = length (acc (pp_rx st)) + drops ''process'' (sy_log s) \<and>
      (sy_left s \<longrightarrow> got (pp_rx st) = acc (pp_rx st) \<and> sy_end s \<noteq> None))"
proof -
  note start = process_example_start [OF assms(1,2)] and k = quiet_start [OF assms(3)]
  then obtain st where st: "pt_get process_port (fst started) = Some st" "acc (pp_rx st) = []" "\<not> gone (pp_rx st)"
    by blast
  from process_sub.run_inv [OF assms(4,2) emits_any, of st] start k st
  obtain st' where st': "pt_get process_port (sy_bx s) = Some st'"
    "stream_inv acc got gone process_example_lines [''Watching process activity (Ctrl+C to exit)...''] (List.map_filter process_view (sy_read s)) ''process'' (pp_rx st') s"
    by (auto)
  with receiver_lawD(2) [OF assms(2), of "pp_rx st'"] show ?thesis
    by (auto simp: stream_inv_def process_lines)
qed

theorem process_example_reports_witness:
  "\<exists>started (s :: (_, unit) system). process_example obj_aya q_tokio demo_ld = Inr started \<and>
    sys_run UNIV q_tokio q_streams process_port (PollProcess_poll_next (sm_process q_streams)) process_example_lines (sys_start (boot demo_header) started) s \<and> length (sy_read s) = 1 \<and>
    (\<exists>st. pt_get process_port (sy_bx s) = Some st \<and>
      length (List.map_filter process_view (sy_read s)) = length (q_acc (pp_rx st)) + drops ''process'' (sy_log s))"
proof -
  obtain started where start: "process_example obj_aya q_tokio demo_ld = (Inr started :: unit fault + _)"
    using demo_started by blast
  have law: "receiver_law (tk_process q_tokio) (sm_process q_streams) q_acc qc_got qc_tx_gone"
    using q_law by (simp add: q_tokio_def q_streams_def)
  have kr: "kernel_run {} (boot demo_header) (boot demo_header)" by (rule run_refl)
  obtain e where e: "EVENTS (snd (run_program P_do_group_exit demo_env (boot demo_header))) = [e]"
    using demo_one_event by blast
  have "\<exists>s :: (_, unit) system. sys_run UNIV q_tokio q_streams process_port (PollProcess_poll_next (sm_process q_streams)) process_example_lines (sys_start (boot demo_header) started) s \<and> sy_read s = [e]"
    by (rule process_sub.one_event_run [OF UNIV_I wf_demo_env conjunct1 [OF quiet_start [OF kr]] conjunct2 [OF quiet_start [OF kr]] e])
      (use process_example_start [OF start law] in simp_all)
  then obtain s :: "(_, unit) system" where run: "sys_run UNIV q_tokio q_streams process_port (PollProcess_poll_next (sm_process q_streams)) process_example_lines (sys_start (boot demo_header) started) s" and read: "sy_read s = [e]"
    by blast
  from process_example_reports [OF start law kr run] obtain st where "pt_get process_port (sy_bx s) = Some st" "length (List.map_filter process_view (sy_read s)) = length (q_acc (pp_rx st)) + drops ''process'' (sy_log s)" by blast
  with start run read show ?thesis by fastforce
qed

text \<open>
  C3: the file example in the same setting: the events handed out are those that the structures read
  from the ring stand for, the renames completed from both halves, in order and none twice; what is
  printed are the lines of these events, and each missing event is accounted for.
\<close>

theorem file_example_reports:
  assumes "file_example ay tk ld = Inr started"
    and "receiver_law (tk_file tk) (sm_file sm) acc got gone" and "kernel_run {} (boot h0) k"
    and "sys_run A tk sm file_port (PollFile_poll_next (sm_file sm)) file_example_lines (sys_start k started) s"
  shows "(\<forall>res. sy_end s = Some res \<longrightarrow> (\<exists>x. res = Inl (Err (Io x)))) \<and>
    (\<exists>st. pt_get file_port (sy_bx s) = Some st \<and> prefix (got (pf_rx st)) (acc (pf_rx st)) \<and>
      sy_out s = ''Watching file events (Ctrl+C to exit)...'' # concat (map file_example_lines (got (pf_rx st))) \<and>
      subseq (acc (pf_rx st)) (file_view_list (sy_read s)) \<and>
      length (file_view_list (sy_read s)) = length (acc (pf_rx st)) + drops ''file'' (sy_log s) \<and>
      (sy_left s \<longrightarrow> got (pf_rx st) = acc (pf_rx st) \<and> sy_end s \<noteq> None))"
proof -
  note start = file_example_start [OF assms(1,2)] and k = quiet_start [OF assms(3)]
  then obtain st where st: "pt_get file_port (fst started) = Some st" "acc (pf_rx st) = []" "\<not> gone (pf_rx st)"
    by blast
  from file_sub.run_inv [OF assms(4,2) emits_any, of st] start k st
  obtain st' where st': "pt_get file_port (sy_bx s) = Some st'"
    "stream_inv acc got gone file_example_lines [''Watching file events (Ctrl+C to exit)...''] (file_view_list (sy_read s)) ''file'' (pf_rx st') s"
    by (auto)
  with receiver_lawD(2) [OF assms(2), of "pf_rx st'"] show ?thesis
    by (auto simp: stream_inv_def)
qed

theorem file_example_reports_witness:
  "\<exists>started (s :: (_, unit) system). file_example obj_aya q_tokio demo_ld = Inr started \<and>
    sys_run UNIV q_tokio q_streams file_port (PollFile_poll_next (sm_file q_streams)) file_example_lines (sys_start demo_state started) s \<and> length (sy_read s) = 1 \<and>
    (\<exists>st. pt_get file_port (sy_bx s) = Some st \<and>
      length (file_view_list (sy_read s)) = length (q_acc (pf_rx st)) + drops ''file'' (sy_log s))"
proof -
  obtain started where start: "file_example obj_aya q_tokio demo_ld = (Inr started :: unit fault + _)"
    using demo_started by blast
  have law: "receiver_law (tk_file q_tokio) (sm_file q_streams) q_acc qc_got qc_tx_gone"
    using q_law by (simp add: q_tokio_def q_streams_def)
  have kr: "kernel_run {} (boot demo_header) demo_state" by (rule demo_state_quiet)
  obtain e where e: "EVENTS (snd (run_program P_vfs_unlink demo_env demo_state)) = [e]"
    using demo_one_event by blast
  have "\<exists>s :: (_, unit) system. sys_run UNIV q_tokio q_streams file_port (PollFile_poll_next (sm_file q_streams)) file_example_lines (sys_start demo_state started) s \<and> sy_read s = [e]"
    by (rule file_sub.one_event_run [OF UNIV_I wf_demo_env conjunct1 [OF quiet_start [OF kr]] conjunct2 [OF quiet_start [OF kr]] e])
      (use file_example_start [OF start law] in simp_all)
  then obtain s :: "(_, unit) system" where run: "sys_run UNIV q_tokio q_streams file_port (PollFile_poll_next (sm_file q_streams)) file_example_lines (sys_start demo_state started) s" and read: "sy_read s = [e]"
    by blast
  from file_example_reports [OF start law kr run] obtain st where "pt_get file_port (sy_bx s) = Some st" "length (file_view_list (sy_read s)) = length (q_acc (pf_rx st)) + drops ''file'' (sy_log s)" by blast
  with start run read show ?thesis by fastforce
qed

text \<open>
  C4: the memory example in the same setting: mappings and unmappings are handed out in order, none
  twice, and each missing event is accounted for; what is printed is exactly one line, its
  \<open>Display\<close> text, for each event handed out whose process id is not 0, the test for a kernel thread.
\<close>

theorem memory_example_reports:
  assumes "memory_example ay tk ld = Inr started"
    and "receiver_law (tk_mem tk) (sm_mem sm) acc got gone" and "kernel_run {} (boot h0) k"
    and "sys_run A tk sm mem_port (PollMem_poll_next (sm_mem sm)) memory_example_lines (sys_start k started) s"
  shows "(\<forall>res. sy_end s = Some res \<longrightarrow> (\<exists>x. res = Inl (Err (Io x)))) \<and>
    (\<exists>st. pt_get mem_port (sy_bx s) = Some st \<and> prefix (got (pm_rx st)) (acc (pm_rx st)) \<and>
      sy_out s = ''Watching virtual memory mappings (Ctrl+C to exit)...'' #
        map fmt_MemoryEvent (filter (\<lambda>e. eh_pid (memory_header e) \<noteq> 0) (got (pm_rx st))) \<and>
      subseq (acc (pm_rx st)) (List.map_filter mem_view (sy_read s)) \<and>
      length (List.map_filter mem_view (sy_read s)) = length (acc (pm_rx st)) + drops ''memory'' (sy_log s) \<and>
      (sy_left s \<longrightarrow> got (pm_rx st) = acc (pm_rx st) \<and> sy_end s \<noteq> None))"
proof -
  note start = memory_example_start [OF assms(1,2)] and k = quiet_start [OF assms(3)]
  then obtain st where st: "pt_get mem_port (fst started) = Some st" "acc (pm_rx st) = []" "\<not> gone (pm_rx st)"
    by blast
  from mem_sub.run_inv [OF assms(4,2) emits_any, of st] start k st
  obtain st' where st': "pt_get mem_port (sy_bx s) = Some st'"
    "stream_inv acc got gone memory_example_lines [''Watching virtual memory mappings (Ctrl+C to exit)...''] (List.map_filter mem_view (sy_read s)) ''memory'' (pm_rx st') s"
    by (auto)
  with receiver_lawD(2) [OF assms(2), of "pm_rx st'"] show ?thesis
    by (auto simp: stream_inv_def memory_lines)
qed

theorem memory_example_reports_witness:
  "\<exists>started (s :: (_, unit) system). memory_example obj_aya q_tokio demo_ld = Inr started \<and>
    sys_run UNIV q_tokio q_streams mem_port (PollMem_poll_next (sm_mem q_streams)) memory_example_lines (sys_start (boot demo_header) started) s \<and> length (sy_read s) = 1 \<and>
    (\<exists>st. pt_get mem_port (sy_bx s) = Some st \<and>
      sy_out s = ''Watching virtual memory mappings (Ctrl+C to exit)...'' #
        map fmt_MemoryEvent (filter (\<lambda>e. eh_pid (memory_header e) \<noteq> 0) (qc_got (pm_rx st))) \<and>
      length (List.map_filter mem_view (sy_read s)) = length (q_acc (pm_rx st)) + drops ''memory'' (sy_log s))"
proof -
  obtain started where start: "memory_example obj_aya q_tokio demo_ld = (Inr started :: unit fault + _)"
    using demo_started by blast
  have law: "receiver_law (tk_mem q_tokio) (sm_mem q_streams) q_acc qc_got qc_tx_gone"
    using q_law by (simp add: q_tokio_def q_streams_def)
  have kr: "kernel_run {} (boot demo_header) (boot demo_header)" by (rule run_refl)
  obtain e where e: "EVENTS (snd (run_program P_vm_munmap demo_env (boot demo_header))) = [e]"
    using demo_one_event by blast
  have "\<exists>s :: (_, unit) system. sys_run UNIV q_tokio q_streams mem_port (PollMem_poll_next (sm_mem q_streams)) memory_example_lines (sys_start (boot demo_header) started) s \<and> sy_read s = [e]"
    by (rule mem_sub.one_event_run [OF UNIV_I wf_demo_env conjunct1 [OF quiet_start [OF kr]] conjunct2 [OF quiet_start [OF kr]] e])
      (use memory_example_start [OF start law] in simp_all)
  then obtain s :: "(_, unit) system" where run: "sys_run UNIV q_tokio q_streams mem_port (PollMem_poll_next (sm_mem q_streams)) memory_example_lines (sys_start (boot demo_header) started) s" and read: "sy_read s = [e]"
    by blast
  from memory_example_reports [OF start law kr run] obtain st where "pt_get mem_port (sy_bx s) = Some st"
    "sy_out s = ''Watching virtual memory mappings (Ctrl+C to exit)...'' #
        map fmt_MemoryEvent (filter (\<lambda>e. eh_pid (memory_header e) \<noteq> 0) (qc_got (pm_rx st)))"
    "length (List.map_filter mem_view (sy_read s)) = length (q_acc (pm_rx st)) + drops ''memory'' (sy_log s)" by blast
  with start run read show ?thesis by fastforce
qed

text \<open>
  What the file example prints: the successful renames, and the successful opens of a path that
  contains \<open>passwd\<close>; testing the file name as well changes nothing, since it is a part of the path,
  and the type of the file plays no role.
\<close>

theorem file_example_selects:
  "file_example_lines ev =
     (case ev of
        FileEvent_Open e \<Rightarrow>
          (if 0 \<le> sint (fo_retval e) \<and> sublist ''passwd'' (fo_file_path e) then [fmt_FileOpenEvent e] else [])
      | FileEvent_Rename e \<Rightarrow> (if 0 \<le> sint (fn_retval e) then [fmt_FileRenameEvent e] else [])
      | _ \<Rightarrow> [])"
proof -
  have "sublist ''passwd'' (FileOpenEvent_file_name e) \<Longrightarrow> sublist ''passwd'' (fo_file_path e)" for e
    using event_file_name_part [of "fo_file_path e"]
    by (auto simp: FileOpenEvent_file_name_def intro: sublist_order.order.trans)
  then show ?thesis
    by (cases ev) (auto simp: file_example_lines_def contains_str_def file_failed_def file_succeeded_def)
qed

end
