(* ===== verification/Bpfx_Checks.thy ===== *)
theory Bpfx_Checks
  imports Bpfx_Runtime
begin

text \<open>
  \<open>src/test.rs\<close>: the four probe checks. Each loads the object and tries to attach the probes of a
  family one by one, going on after a failure, and panics at the end with the list of the failures.
  A failure is kept as the text in front of the error and the error, whose own text is \<open>aya\<close>'s.
  With a lawful loader a check that passes has attached exactly what the subscription to
  everything in its family attaches.
\<close>

section \<open>Running the checks\<close>

type_synonym ('b, 'x) check = "string \<times> ('b, 'x) action_step"

text \<open>\<open>if let Err(err) = attach(..) { failures.push(..) }\<close>, for each probe; a panic ends the check.\<close>

fun collect :: "('b, 'x) check list \<Rightarrow> 'b \<Rightarrow> (string \<times> 'x Error) list option \<times> 'b" where
  "collect [] b = (Some [], b)"
| "collect ((label, attach) # checks) b =
     (case attach b of
        (Inl (Err err), b') \<Rightarrow>
          (case collect checks b' of (fs, b'') \<Rightarrow> (map_option ((#) (label, err)) fs, b''))
      | (Inl _, b') \<Rightarrow> (None, b')
      | (Inr _, b') \<Rightarrow> collect checks b')"

datatype 'x verdict = Passed string | Failures "(string \<times> 'x Error) list" | Panicked

definition run_check :: "string \<Rightarrow> ('b, 'x) check list \<Rightarrow> ('b, 'r, 'x) loading \<Rightarrow> 'x verdict \<times> 'b option" where
  "run_check message checks ld =
     (case Bpfx_new ld :: 'x fault + ('b, 'r, unit, unit, unit, unit) Bpfx of
        Inl _ \<Rightarrow> (Panicked, None)
      | Inr bpfx \<Rightarrow>
          (case collect checks (bx_bpf bpfx) of
             (None, b) \<Rightarrow> (Panicked, Some b)
           | (Some failures, b) \<Rightarrow>
               (if failures = [] then Passed message else Failures failures, Some b)))"

section \<open>The four checks\<close>

definition network_checks :: "('b, 'x) aya \<Rightarrow> ('b, 'x) check list" where
  "network_checks ay =
     map (\<lambda>(program, target). (''TCP CONNECT -> '' @ target, attach_fexit ay program target)) TCP_CONNECT @
     map (\<lambda>(program, target). (''TCP ACCEPT -> '' @ target, attach_kprobe ay program target)) TCP_ACCEPT @
     [(''TCP CLOSE -> '' @ snd TCP_CLOSE, attach_fexit ay (fst TCP_CLOSE) (snd TCP_CLOSE)),
      (''TCP BIND -> inet_bind'', attach_fexit ay ''inet_bind'' ''inet_bind''),
      (''TCP LISTEN -> inet_listen'', attach_fexit ay ''inet_listen'' ''inet_listen'')] @
     map (\<lambda>(program, target). (''UDP CONNECT -> '' @ target, attach_fexit ay program target)) UDP_CONNECT @
     [(''UDP CLOSE -> '' @ snd UDP_CLOSE, attach_fexit ay (fst UDP_CLOSE) (snd UDP_CLOSE))]"

definition process_checks :: "('b, 'x) aya \<Rightarrow> ('b, 'x) check list" where
  "process_checks ay =
     [(''PROCESS START -> sched_process_exec'',
       attach_tracepoint ay ''sched_process_exec'' ''sched'' ''sched_process_exec''),
      (''PROCESS FORK -> sched_process_fork'',
       attach_tracepoint ay ''sched_process_fork'' ''sched'' ''sched_process_fork''),
      (''PROCESS EXIT -> do_group_exit'', attach_fentry ay ''do_group_exit'' ''do_group_exit'')]"

definition memory_checks :: "('b, 'x) aya \<Rightarrow> ('b, 'x) check list" where
  "memory_checks ay =
     [(''MEMORY MMAP -> vm_mmap_pgoff'', attach_fexit ay ''vm_mmap_pgoff'' ''vm_mmap_pgoff''),
      (''MEMORY UNMAP -> __vm_munmap'', attach_fexit ay ''__vm_munmap'' ''__vm_munmap'')]"

definition file_checks :: "('b, 'x) aya \<Rightarrow> ('b, 'x) check list" where
  "file_checks ay =
     [(''FILE LSM'', attach_lsm_probe ay),
      (''FILE CLOSE/RELEASE -> __fput'', attach_fexit ay ''__fput'' ''__fput''),
      (''FILE OPEN -> vfs_open'', attach_fexit ay ''vfs_open'' ''vfs_open''),
      (''FILE CLOSE -> filp_close'', attach_fexit ay ''filp_close'' ''filp_close''),
      (''FILE READ -> vfs_read'', attach_fexit ay ''vfs_read'' ''vfs_read''),
      (''FILE WRITE -> vfs_write'', attach_fexit ay ''vfs_write'' ''vfs_write''),
      (''FILE DELETE -> vfs_unlink'', attach_fexit ay ''vfs_unlink'' ''vfs_unlink''),
      (''FILE RENAME -> vfs_rename (fentry)'', attach_fentry ay ''vfs_rename'' ''vfs_rename''),
      (''FILE RENAME -> vfs_rename (fexit)'', attach_fexit ay ''vfs_rename_retval'' ''vfs_rename'')]"

definition network_probes_attach :: "('b, 'x) aya \<Rightarrow> ('b, 'r, 'x) loading \<Rightarrow> 'x verdict \<times> 'b option" where
  "network_probes_attach ay = run_check ''all network probes attached successfully'' (network_checks ay)"

definition process_probes_attach :: "('b, 'x) aya \<Rightarrow> ('b, 'r, 'x) loading \<Rightarrow> 'x verdict \<times> 'b option" where
  "process_probes_attach ay = run_check ''all process probes attached successfully'' (process_checks ay)"

definition memory_probes_attach :: "('b, 'x) aya \<Rightarrow> ('b, 'r, 'x) loading \<Rightarrow> 'x verdict \<times> 'b option" where
  "memory_probes_attach ay = run_check ''all memory probes attached successfully'' (memory_checks ay)"

definition file_probes_attach :: "('b, 'x) aya \<Rightarrow> ('b, 'r, 'x) loading \<Rightarrow> 'x verdict \<times> 'b option" where
  "file_probes_attach ay = run_check ''all file probes attached successfully'' (file_checks ay)"

section \<open>What a check attaches\<close>

fun is_attachment :: "effect \<Rightarrow> bool" where
  "is_attachment (Attached _ _ _) = True"
| "is_attachment _ = False"

lemma collect_lawful:
  assumes "list_all2 (performs hist) (map snd checks) effs"
  shows "\<exists>fs b' es. collect checks b = (Some fs, b') \<and> hist b' = hist b @ es \<and> subseq es effs \<and>
    length effs = length es + length fs"
  using assms
proof (induction checks arbitrary: b effs)
  case (Cons c checks)
  obtain label attach where c: "c = (label, attach)" by force
  from Cons.prems obtain eff effs' where effs: "effs = eff # effs'" "performs hist attach eff"
    "list_all2 (performs hist) (map snd checks) effs'" by (auto simp: c list_all2_Cons1)
  obtain r b1 where r: "attach b = (r, b1)" by force
  from Cons.IH [OF effs(3), of b1] obtain fs b' es where ih: "collect checks b1 = (Some fs, b')"
    "hist b' = hist b1 @ es" "subseq es effs'" "length effs' = length es + length fs" by blast
  note p = effs(2) [unfolded performs_def, rule_format, of b, unfolded r]
  show ?case
  proof (cases r)
    case (Inl f)
    with p obtain err where "f = Err err" "hist b1 = hist b" by (cases f) auto
    with Inl r ih effs(1) c show ?thesis by (intro exI [of _ "(label, err) # fs"] exI [of _ b'] exI [of _ es]) auto
  next
    case (Inr u)
    with p have "hist b1 = hist b @ [eff]" by simp
    with Inr r ih effs(1) c show ?thesis by (intro exI [of _ fs] exI [of _ b'] exI [of _ "eff # es"]) auto
  qed
qed simp

lemma checks_perform:
  assumes law: "aya_law ay hist"
  shows "list_all2 (performs hist) (map snd (network_checks ay)) (filter is_attachment (plan_network NetworkFilter_ALL))"
    and "list_all2 (performs hist) (map snd (process_checks ay)) (filter is_attachment (plan_process ProcessFilter_ALL))"
    and "list_all2 (performs hist) (map snd (memory_checks ay)) (filter is_attachment (plan_mem MemoryFilter_ALL))"
    and "list_all2 (performs hist) (map snd (file_checks ay)) (filter is_attachment (plan_file FileFilter_ALL))"
  by (simp_all add: network_checks_def process_checks_def memory_checks_def file_checks_def attach_performs [OF law]
      plan_network_def plan_process_def plan_mem_def plan_file_def Let_def TCP_CONNECT_def TCP_ACCEPT_def TCP_CLOSE_def
      UDP_CONNECT_def UDP_CLOSE_def NetworkFilter_ALL_def NetworkMask_contains_def ProtocolMask_contains_def
      NetworkMask_ALL_def NetworkMask_consts ProtocolMask_ALL_def ProtocolMask_consts
      ProcessFilter_ALL_def ProcessMask_contains_def ProcessMask_ALL_def ProcessMask_consts
      MemoryFilter_ALL_def MemoryMask_contains_def MemoryMask_ALL_def MemoryMask_consts
      FileFilter_ALL_def FileFilter_of_mask_def FileMask_contains_def FileMask_ALL_def FileMask_consts)

lemma run_check_lawful:
  assumes "list_all2 (performs hist) (map snd checks) effs" and "run_check message checks ld = (v, Some b)"
    and "\<And>bx :: ('b, 'r, unit, unit, unit, unit) Bpfx. Bpfx_new (ld :: ('b, 'r, 'x) loading) = Inr bx \<Longrightarrow> hist (bx_bpf bx) = []"
  shows "v \<noteq> Panicked \<and> subseq (hist b) effs \<and> (v = Passed message \<longleftrightarrow> hist b = effs)"
proof -
  from assms(2) obtain bx :: "('b, 'r, unit, unit, unit, unit) Bpfx" where bx: "Bpfx_new ld = Inr bx"
    by (auto simp: run_check_def split: sum.splits)
  from collect_lawful [OF assms(1), of "bx_bpf bx"] assms(3) [OF bx] obtain fs b' where
    c: "collect checks (bx_bpf bx) = (Some fs, b')" "subseq (hist b') effs" "length effs = length (hist b') + length fs"
    by auto
  with assms(2) bx have "b = b'" "v = (if fs = [] then Passed message else Failures fs)"
    by (auto simp: run_check_def)
  moreover have "fs = [] \<longleftrightarrow> hist b' = effs" using c(2,3) by (auto dest: subseq_same_length)
  ultimately show ?thesis using c(2) by auto
qed

section \<open>Properties\<close>

text \<open>
  C40: the probe checks test what subscriptions do. On a freshly loaded object and with a lawful
  loader no check panics before its end, and it passes exactly when it has attached, in the same
  order, the programs that a subscription with \<open>ALL\<close> of its family attaches.
\<close>

theorem probe_checks_cover_subscriptions:
  fixes ld :: "('b, 'r, 'x) loading"
  assumes "aya_law ay hist"
    and "\<And>bx :: ('b, 'r, unit, unit, unit, unit) Bpfx. Bpfx_new ld = Inr bx \<Longrightarrow> hist (bx_bpf bx) = []"
  shows "(network_probes_attach ay ld = (v, Some b) \<longrightarrow> v \<noteq> Panicked \<and>
      (v = Passed ''all network probes attached successfully'' \<longleftrightarrow> hist b = filter is_attachment (plan_network NetworkFilter_ALL))) \<and>
    (process_probes_attach ay ld = (v, Some b) \<longrightarrow> v \<noteq> Panicked \<and>
      (v = Passed ''all process probes attached successfully'' \<longleftrightarrow> hist b = filter is_attachment (plan_process ProcessFilter_ALL))) \<and>
    (memory_probes_attach ay ld = (v, Some b) \<longrightarrow> v \<noteq> Panicked \<and>
      (v = Passed ''all memory probes attached successfully'' \<longleftrightarrow> hist b = filter is_attachment (plan_mem MemoryFilter_ALL))) \<and>
    (file_probes_attach ay ld = (v, Some b) \<longrightarrow> v \<noteq> Panicked \<and>
      (v = Passed ''all file probes attached successfully'' \<longleftrightarrow> hist b = filter is_attachment (plan_file FileFilter_ALL)))"
  using run_check_lawful [OF checks_perform(1) [OF assms(1)] _ assms(2)]
    run_check_lawful [OF checks_perform(2) [OF assms(1)] _ assms(2)]
    run_check_lawful [OF checks_perform(3) [OF assms(1)] _ assms(2)]
    run_check_lawful [OF checks_perform(4) [OF assms(1)] _ assms(2)]
  unfolding network_probes_attach_def process_probes_attach_def memory_probes_attach_def file_probes_attach_def
  by blast

definition check_ld :: "(effect list \<times> string list, unit, unit) loading" where
  "check_ld = \<lparr>ld_load = Inr ([], []), ld_logger = (\<lambda>b. (None, b)), ld_btf = None, ld_take_events = Some, ld_ringbuf = Inr ()\<rparr>"

theorem probe_checks_cover_subscriptions_witness:
  "memory_probes_attach obj_aya check_ld =
     (Passed ''all memory probes attached successfully'', Some (filter is_attachment (plan_mem MemoryFilter_ALL), []))"
proof -
  obtain v b where vb: "memory_probes_attach obj_aya check_ld = (v, Some (b, []))"
    and v: "v = Passed ''all memory probes attached successfully''"
    by (simp add: memory_probes_attach_def run_check_def memory_checks_def Bpfx_new_def check_ld_def attach_fexit_def
        load_attach_def obj_aya_def program_of_name_def all_programs_def)
  have fresh: "fst (bx_bpf bx) = []" if "Bpfx_new check_ld = Inr bx"
    for bx :: "(effect list \<times> string list, unit, unit, unit, unit, unit) Bpfx"
    using that by (auto simp: Bpfx_new_def check_ld_def)
  from probe_checks_cover_subscriptions [OF obj_aya_law, of check_ld v "(b, [])", OF fresh] vb v show ?thesis by auto
qed

end
