(* ===== verification/Bpfx_Client.thy ===== *)
theory Bpfx_Client
  imports Bpfx_Examples
begin

text \<open>
  A program with several subscriptions: the kernel, the task of \<open>Bpfx::run\<close> and one task per stream
  take turns in any order. A task polls its stream or drops it. The loop waits for the ring; when it
  is woken it stops if every stream has been dropped, and otherwise it is awake: it converts the
  items of the ring one by one, whatever happens to the streams meanwhile, and waits again once the
  ring is empty; an error of the wait or of a conversion ends it. \<open>client_step\<close> is the step
  relation. A read without a defined value gets no outcome: the run reaches a marked state, and
  nothing is modelled from there on. Seen from one family, the other tasks are an environment that leaves its
  channel alone: the locale \<open>client_family\<close> adds this to \<open>subscriber\<close> and carries the accounting of
  the family through every run of the program.
\<close>

section \<open>The tasks\<close>

definition idle :: "('n, 'p, 'f, 'm) receivers" where
  "idle = \<lparr>rv_network = (\<lambda>c. c), rv_process = (\<lambda>c. c), rv_file = (\<lambda>c. c), rv_mem = (\<lambda>c. c)\<rparr>"

inductive receiver_act :: "('n, 'p, 'f, 'm) streams \<Rightarrow> ('n, 'p, 'f, 'm) receivers \<Rightarrow> bool"
  for sm :: "('n, 'p, 'f, 'm) streams" where
  poll_network: "receiver_act sm (idle\<lparr>rv_network := \<lambda>c. pn_rx (snd (PollNetwork_poll_next (sm_network sm) \<lparr>pn_rx = c\<rparr>))\<rparr>)"
| poll_process: "receiver_act sm (idle\<lparr>rv_process := \<lambda>c. pp_rx (snd (PollProcess_poll_next (sm_process sm) \<lparr>pp_rx = c\<rparr>))\<rparr>)"
| poll_file: "receiver_act sm (idle\<lparr>rv_file := \<lambda>c. pf_rx (snd (PollFile_poll_next (sm_file sm) \<lparr>pf_rx = c\<rparr>))\<rparr>)"
| poll_mem: "receiver_act sm (idle\<lparr>rv_mem := \<lambda>c. pm_rx (snd (PollMem_poll_next (sm_mem sm) \<lparr>pm_rx = c\<rparr>))\<rparr>)"
| drop_network: "receiver_act sm (idle\<lparr>rv_network := drop_rx (sm_network sm)\<rparr>)"
| drop_process: "receiver_act sm (idle\<lparr>rv_process := drop_rx (sm_process sm)\<rparr>)"
| drop_file: "receiver_act sm (idle\<lparr>rv_file := drop_rx (sm_file sm)\<rparr>)"
| drop_mem: "receiver_act sm (idle\<lparr>rv_mem := drop_rx (sm_mem sm)\<rparr>)"

record ('bx, 'x) client =
  ct_kernel :: kstate
  ct_read :: "raw_event list"
  ct_bx :: 'bx
  ct_log :: "log_line list"
  ct_awake :: bool
  ct_end :: "('x fault + unit) option"

definition client_start :: "kstate \<Rightarrow> 'bx \<Rightarrow> ('bx, 'x) client" where
  "client_start k bx = \<lparr>ct_kernel = k, ct_read = [], ct_bx = bx, ct_log = [], ct_awake = False, ct_end = None\<rparr>"

definition client_item :: "raw_event \<Rightarrow> raw_event list \<Rightarrow> 'bx \<Rightarrow> log_line list \<Rightarrow> ('bx, 'x) client \<Rightarrow> ('bx, 'x) client" where
  "client_item e es bx lg s =
     s\<lparr>ct_kernel := (ct_kernel s)\<lparr>EVENTS := es\<rparr>, ct_read := ct_read s @ [e], ct_bx := bx, ct_log := ct_log s @ lg\<rparr>"

definition client_over :: "('n, 'p, 'f, 'm) streams \<Rightarrow> 'x fault + unit \<Rightarrow>
    (('b, 'r, 'n, 'p, 'f, 'm) Bpfx, 'x) client \<Rightarrow> (('b, 'r, 'n, 'p, 'f, 'm) Bpfx, 'x) client" where
  "client_over sm res s = s\<lparr>ct_bx := apply_receivers (drop_senders sm) (ct_bx s), ct_end := Some res\<rparr>"

text \<open>The mark of a run in which a value was read that does not exist.\<close>

definition run_undefined :: "('bx, 'x) client \<Rightarrow> bool" where
  "run_undefined s = (ct_end s = Some (Inl UndefinedBehaviour))"

inductive client_step :: "program set \<Rightarrow> ('n, 'p, 'f, 'm) tokio \<Rightarrow> ('n, 'p, 'f, 'm) streams \<Rightarrow>
    (('b, 'r, 'n, 'p, 'f, 'm) Bpfx, 'x) client \<Rightarrow> (('b, 'r, 'n, 'p, 'f, 'm) Bpfx, 'x) client \<Rightarrow> bool"
  for A :: "program set" and tk :: "('n, 'p, 'f, 'm) tokio" and sm :: "('n, 'p, 'f, 'm) streams" where
  ct_prog: "p \<in> A \<Longrightarrow> wf_env env \<Longrightarrow> run_program p env (ct_kernel s) = (r, k) \<Longrightarrow> \<not> run_undefined s \<Longrightarrow>
    client_step A tk sm s (s\<lparr>ct_kernel := k\<rparr>)"
| ct_wake: "ct_end s = None \<Longrightarrow> \<not> ct_awake s \<Longrightarrow> has_subscribers tk (ct_bx s) \<Longrightarrow>
    client_step A tk sm s (s\<lparr>ct_awake := True\<rparr>)"
| ct_stop: "ct_end s = None \<Longrightarrow> \<not> ct_awake s \<Longrightarrow> \<not> has_subscribers tk (ct_bx s) \<Longrightarrow>
    client_step A tk sm s (client_over sm (Inr ())
      (s\<lparr>ct_log := ct_log s @ [Info ''all subscriptions dropped, shutting down event loop'']\<rparr>))"
| ct_io: "ct_end s = None \<Longrightarrow> \<not> ct_awake s \<Longrightarrow> client_step A tk sm s (client_over sm (Inl (Err (Io x))) s)"
| ct_item: "ct_end s = None \<Longrightarrow> ct_awake s \<Longrightarrow> EVENTS (ct_kernel s) = e # es \<Longrightarrow> is_image it e \<Longrightarrow>
    dispatch tk it (ct_bx s) = (Inr () :: 'x fault + unit, bx, lg) \<Longrightarrow>
    client_step A tk sm s (client_item e es bx lg s)"
| ct_fault: "ct_end s = None \<Longrightarrow> ct_awake s \<Longrightarrow> EVENTS (ct_kernel s) = e # es \<Longrightarrow> is_image it e \<Longrightarrow>
    dispatch tk it (ct_bx s) = (Inl f :: 'x fault + unit, bx, lg) \<Longrightarrow> f \<noteq> UndefinedBehaviour \<Longrightarrow>
    client_step A tk sm s (client_over sm (Inl f) (client_item e es bx lg s))"
| ct_undefined: "ct_end s = None \<Longrightarrow> ct_awake s \<Longrightarrow> EVENTS (ct_kernel s) = e # es \<Longrightarrow> is_image it e \<Longrightarrow>
    dispatch tk it (ct_bx s) = (Inl UndefinedBehaviour :: 'x fault + unit, bx, lg) \<Longrightarrow>
    client_step A tk sm s (s\<lparr>ct_end := Some (Inl UndefinedBehaviour)\<rparr>)"
| ct_sleep: "ct_end s = None \<Longrightarrow> ct_awake s \<Longrightarrow> EVENTS (ct_kernel s) = [] \<Longrightarrow>
    client_step A tk sm s (s\<lparr>ct_awake := False\<rparr>)"
| ct_task: "receiver_act sm rv \<Longrightarrow> \<not> run_undefined s \<Longrightarrow>
    client_step A tk sm s (s\<lparr>ct_bx := apply_receivers rv (ct_bx s)\<rparr>)"

inductive client_run :: "program set \<Rightarrow> ('n, 'p, 'f, 'm) tokio \<Rightarrow> ('n, 'p, 'f, 'm) streams \<Rightarrow>
    (('b, 'r, 'n, 'p, 'f, 'm) Bpfx, 'x) client \<Rightarrow> (('b, 'r, 'n, 'p, 'f, 'm) Bpfx, 'x) client \<Rightarrow> bool"
  for A :: "program set" and tk :: "('n, 'p, 'f, 'm) tokio" and sm :: "('n, 'p, 'f, 'm) streams" where
  client_refl: "client_run A tk sm s s"
| client_next: "client_run A tk sm s t \<Longrightarrow> client_step A tk sm t u \<Longrightarrow> client_run A tk sm s u"

lemma client_run_first:
  assumes "client_step A tk sm s t" and "client_run A tk sm t u"
  shows "client_run A tk sm s u"
  using assms(2,1) by (induction rule: client_run.induct) (auto intro: client_refl client_next)

section \<open>One family among the others\<close>

text \<open>
  What a stream with channel \<open>c\<close> is owed for the events \<open>evs\<close>: it has handed out what its channel
  accepted, in order, the channel has accepted a subsequence of the events, and each missing one
  has a line of the family in the log.
\<close>

definition owed :: "('tx \<Rightarrow> 'e list) \<Rightarrow> ('tx \<Rightarrow> 'e list) \<Rightarrow> string \<Rightarrow> 'e list \<Rightarrow> 'tx \<Rightarrow> log_line list \<Rightarrow> bool" where
  "owed acc got F evs c lg =
     (prefix (got c) (acc c) \<and> subseq (acc c) evs \<and> length evs = length (acc c) + drops F lg)"

definition proper_end :: "('x fault + unit) option \<Rightarrow> bool" where
  "proper_end en = (en = None \<or> en = Some (Inr ()) \<or> (\<exists>x. en = Some (Inl (Err (Io x)))))"

locale client_family = subscriber poll_next rx put chan recv pt F W R ok
  for poll_next :: "('tx, 'e) receiver \<Rightarrow> 's \<Rightarrow> 'e option poll \<times> 's"
    and rx :: "'s \<Rightarrow> 'tx" and put :: "'tx \<Rightarrow> 's \<Rightarrow> 's"
    and chan :: "('n, 'p, 'f, 'm) tokio \<Rightarrow> ('tx, 'e) mpsc"
    and recv :: "('n, 'p, 'f, 'm) streams \<Rightarrow> ('tx, 'e) receiver"
    and pt :: "(('b, 'r, 'n, 'p, 'f, 'm) Bpfx, 's) port"
    and F :: string and W :: "raw_event list \<Rightarrow> 'e list"
    and R :: "raw_event list \<Rightarrow> ('b, 'r, 'n, 'p, 'f, 'm) Bpfx \<Rightarrow> bool" and ok :: "raw_event \<Rightarrow> bool" +
  assumes acts: "receiver_law (chan tk) (recv sm) acc got gone \<Longrightarrow> pt_get pt bx = Some st \<Longrightarrow> receiver_act sm rv \<Longrightarrow>
      \<exists>st'. pt_get pt (apply_receivers rv bx) = Some st' \<and> acc (rx st') = acc (rx st) \<and> gone (rx st') = gone (rx st)"
begin

definition family_inv :: "('tx \<Rightarrow> 'e list) \<Rightarrow> ('tx \<Rightarrow> 'e list) \<Rightarrow> ('tx \<Rightarrow> bool) \<Rightarrow>
    (('b, 'r, 'n, 'p, 'f, 'm) Bpfx, 'x) client \<Rightarrow> bool" where
  "family_inv acc got gone s =
     (ring_inv (ct_kernel s) \<and> list_all ok (EVENTS (ct_kernel s)) \<and> R (ct_read s) (ct_bx s) \<and> proper_end (ct_end s) \<and>
      (\<exists>st. pt_get pt (ct_bx s) = Some st \<and> owed acc got F (W (ct_read s)) (rx st) (ct_log s) \<and>
        (gone (rx st) \<longrightarrow> ct_end s \<noteq> None)))"

lemma over_keeps:
  assumes law: "receiver_law (chan tk) (recv sm) acc got gone" and i: "family_inv acc got gone s"
    and "proper_end (Some res)"
  shows "family_inv acc got gone (client_over sm res s)"
proof -
  from i obtain st where st: "pt_get pt (ct_bx s) = Some st" "owed acc got F (W (ct_read s)) (rx st) (ct_log s)"
    by (auto simp: family_inv_def)
  from drop_get [OF st(1), of sm] obtain st' where
    "pt_get pt (apply_receivers (drop_senders sm) (ct_bx s)) = Some st'" "rx st' = drop_tx (recv sm) (rx st)" by blast
  with i st assms(3) receiver_lawD(7,8) [OF law, of "rx st"] drop_R show ?thesis
    by (auto simp: family_inv_def client_over_def owed_def)
qed

lemma stop_line_keeps:
  "family_inv acc got gone s \<Longrightarrow> family_inv acc got gone
     (s\<lparr>ct_log := ct_log s @ [Info ''all subscriptions dropped, shutting down event loop'']\<rparr>)"
  by (auto simp: family_inv_def owed_def drops_def drop_line_def)

lemma awake_keeps: "family_inv acc got gone s \<Longrightarrow> family_inv acc got gone (s\<lparr>ct_awake := b\<rparr>)"
  by (simp add: family_inv_def)

lemma item_keeps:
  assumes law: "receiver_law (chan tk) (recv sm) acc got gone" and i: "family_inv acc got gone s"
    and e: "EVENTS (ct_kernel s) = e # es" and d: "spec_dispatch tk e (ct_bx s) = (bx, lg)"
  shows "family_inv acc got gone (client_item e es bx lg s)"
proof -
  from i have rr: "R (ct_read s) (ct_bx s)" and "ok e" using e by (auto simp: family_inv_def)
  from i obtain st where st: "pt_get pt (ct_bx s) = Some st" "owed acc got F (W (ct_read s)) (rx st) (ct_log s)"
    "gone (rx st) \<longrightarrow> ct_end s \<noteq> None" by (auto simp: family_inv_def)
  from dispatched [OF law rr st(1), of e] d obtain st' sent v where
    a: "pt_get pt bx = Some st'" "acc (rx st') = acc (rx st) @ sent" "got (rx st') = got (rx st)"
    "gone (rx st') = gone (rx st)" "W (ct_read s @ [e]) = W (ct_read s) @ (case v of None \<Rightarrow> [] | Some ev \<Rightarrow> [ev])"
    "accounted v sent (drops F lg)" by auto
  have "owed acc got F (W (ct_read s @ [e])) (rx st') (ct_log s @ lg)"
    using st(2) a accounted_append [OF a(6), of "acc (rx st)" "W (ct_read s)"] by (auto simp: owed_def)
  moreover have "R (ct_read s @ [e]) bx" using R_dispatch [OF rr \<open>ok e\<close>, of tk] d by simp
  ultimately show ?thesis
    using i e a(1,4) st(3) by (auto simp: family_inv_def client_item_def ring_inv_def wf_kstate_def)
qed

lemma step_keeps:
  fixes s t :: "(('b, 'r, 'n, 'p, 'f, 'm) Bpfx, 'x) client"
  assumes law: "receiver_law (chan tk) (recv sm) acc got gone" and A: "emits_only A ok"
    and step: "client_step A tk sm s t" and i: "family_inv acc got gone s"
  shows "family_inv acc got gone t"
  using step
proof (cases rule: client_step.cases)
  case (ct_prog p env r k)
  have "ring_inv k" using prog.keeps_ring_inv [of env "ct_kernel s" p] ct_prog i by (simp add: family_inv_def)
  moreover have "list_all ok (EVENTS k)"
    using A ct_prog i unfolding emits_only_def family_inv_def by (metis snd_conv)
  ultimately show ?thesis using ct_prog i by (auto simp: family_inv_def)
next
  case (ct_item e es it bx lg)
  have "dispatch tk it (ct_bx s) = (Inr () :: 'x fault + unit, spec_dispatch tk e (ct_bx s))"
    using i ct_item by (intro item_refined) (auto simp: family_inv_def)
  with ct_item item_keeps [OF law i ct_item(4)] show ?thesis by simp
next
  case (ct_fault e es it f bx lg)
  have "dispatch tk it (ct_bx s) = (Inr () :: 'x fault + unit, spec_dispatch tk e (ct_bx s))"
    using i ct_fault by (intro item_refined) (auto simp: family_inv_def)
  with ct_fault show ?thesis by simp
next
  case (ct_undefined e es it bx lg)
  have "dispatch tk it (ct_bx s) = (Inr () :: 'x fault + unit, spec_dispatch tk e (ct_bx s))"
    using i ct_undefined by (intro item_refined) (auto simp: family_inv_def)
  with ct_undefined show ?thesis by simp
next
  case ct_wake
  with awake_keeps [OF i] show ?thesis by simp
next
  case ct_sleep
  with awake_keeps [OF i] show ?thesis by simp
next
  case (ct_io x)
  with over_keeps [OF law i] show ?thesis by (simp add: proper_end_def)
next
  case ct_stop
  with over_keeps [OF law stop_line_keeps [OF i]] show ?thesis by (simp add: proper_end_def)
next
  case (ct_task rv)
  from i obtain st where st: "pt_get pt (ct_bx s) = Some st" by (auto simp: family_inv_def)
  from acts [OF law this ct_task(2)] i st receiver_lawD(2) [OF law] drop_R ct_task(1) show ?thesis
    by (auto simp: family_inv_def owed_def)
qed

lemma run_keeps:
  assumes "client_run A tk sm s t" and "receiver_law (chan tk) (recv sm) acc got gone" and "emits_only A ok"
    and "family_inv acc got gone s"
  shows "family_inv acc got gone t"
  using assms by (induction rule: client_run.induct) (auto intro: step_keeps)

text \<open>Once awake the loop is never stuck on an item: whatever is in the ring can be converted, in order.\<close>

lemma awake_drains:
  fixes s :: "(('b, 'r, 'n, 'p, 'f, 'm) Bpfx, 'x) client"
  assumes law: "receiver_law (chan tk) (recv sm) acc got gone"
    and "family_inv acc got gone s" and "ct_end s = None" and "ct_awake s"
  shows "\<exists>t. client_run A tk sm s t \<and> EVENTS (ct_kernel t) = [] \<and>
    ct_read t = ct_read s @ EVENTS (ct_kernel s) \<and> ct_end t = None \<and> family_inv acc got gone t"
  using assms(2-4)
proof (induction "EVENTS (ct_kernel s)" arbitrary: s)
  case Nil
  then show ?case by (intro exI [of _ s]) (auto intro: client_refl)
next
  case (Cons e es)
  note e = Cons.hyps(2) [symmetric]
  let ?it = "item_of (enc_raw (\<lambda>_. 0) e) (\<lambda>_. 0)"
  have img: "is_image ?it e" unfolding is_image_def by blast
  obtain bx lg where d: "spec_dispatch tk e (ct_bx s) = (bx, lg)" by force
  have "dispatch tk ?it (ct_bx s) = (Inr () :: 'x fault + unit, bx, lg)"
    using Cons.prems e img d item_refined [of "ct_kernel s" e es ?it "ct_read s" "ct_bx s" tk]
    by (simp add: family_inv_def)
  from ct_item [OF Cons.prems(2,3) e img this]
  have step: "client_step A tk sm s (client_item e es bx lg s)" .
  have "es = EVENTS (ct_kernel (client_item e es bx lg s))" "ct_end (client_item e es bx lg s) = None"
    "ct_awake (client_item e es bx lg s)"
    using Cons.prems(2,3) by (simp_all add: client_item_def)
  from Cons.hyps(1) [OF this(1) item_keeps [OF law Cons.prems(1) e d] this(2,3)] obtain t where
    "client_run A tk sm (client_item e es bx lg s) t" "EVENTS (ct_kernel t) = []"
    "ct_read t = ct_read (client_item e es bx lg s) @ es" "ct_end t = None" "family_inv acc got gone t"
    by (auto simp: client_item_def)
  with client_run_first [OF step] e show ?case by (auto simp: client_item_def)
qed

lemma drains:
  fixes s :: "(('b, 'r, 'n, 'p, 'f, 'm) Bpfx, 'x) client"
  assumes law: "receiver_law (chan tk) (recv sm) acc got gone"
    and i: "family_inv acc got gone s" and "ct_end s = None" and "ct_awake s \<or> has_subscribers tk (ct_bx s)"
  shows "\<exists>t. client_run A tk sm s t \<and> EVENTS (ct_kernel t) = [] \<and>
    ct_read t = ct_read s @ EVENTS (ct_kernel s) \<and> ct_end t = None \<and> family_inv acc got gone t"
proof (cases "ct_awake s")
  case True
  then show ?thesis by (rule awake_drains [OF assms(1-3)])
next
  case False
  with assms(3,4) have "client_step A tk sm s (s\<lparr>ct_awake := True\<rparr>)" by (auto intro: ct_wake)
  from client_run_first [OF this] awake_drains [OF law awake_keeps [OF i, of True]] assms(3)
  show ?thesis by (simp; blast)
qed

lemma start_keeps:
  assumes "receiver_law (chan tk) (recv sm) acc got gone" and "ring_inv k" "EVENTS k = []" "R [] bx" "W [] = []"
    and "pt_get pt bx = Some st" "acc (rx st) = []" "\<not> gone (rx st)"
  shows "family_inv acc got gone (client_start k bx)"
  using assms receiver_lawD(2) [OF assms(1), of "rx st"]
  by (simp add: family_inv_def client_start_def owed_def proper_end_def)

end

section \<open>The four families\<close>

lemma receiver_law_drop_rx: "receiver_law m rc acc got gone \<Longrightarrow> gone (drop_rx rc c) = gone c"
  unfolding receiver_law_def by blast

lemma process_poll_keeps:
  assumes "receiver_law m rc acc got gone"
  shows "acc (pp_rx (snd (PollProcess_poll_next rc st))) = acc (pp_rx st)" "gone (pp_rx (snd (PollProcess_poll_next rc st))) = gone (pp_rx st)"
  by (cases "poll_recv rc (pp_rx st)"; simp add: PollProcess_poll_next_def poll_recvD [OF assms])+

interpretation process_client: client_family PollProcess_poll_next pp_rx "\<lambda>c s. s\<lparr>pp_rx := c\<rparr>"
  tk_process sm_process process_port "''process''" "List.map_filter process_view"
  "\<lambda>_ bx. bx_network bx = None" "\<lambda>_. True"
  by unfold_locales
     (auto elim!: receiver_act.cases simp: process_port_def apply_receivers_def idle_def process_poll_keeps receiver_lawD(7-11) receiver_law_drop_rx)

lemma file_poll_keeps:
  assumes "receiver_law m rc acc got gone"
  shows "acc (pf_rx (snd (PollFile_poll_next rc st))) = acc (pf_rx st)" "gone (pf_rx (snd (PollFile_poll_next rc st))) = gone (pf_rx st)"
  by (cases "poll_recv rc (pf_rx st)"; simp add: PollFile_poll_next_def poll_recvD [OF assms])+

interpretation file_client: client_family PollFile_poll_next pf_rx "\<lambda>c s. s\<lparr>pf_rx := c\<rparr>"
  tk_file sm_file file_port "''file''" file_view_list
  "\<lambda>evs bx. bx_network bx = None \<and> bx_file bx \<noteq> None \<and> bx_pending_renames bx = fold pending_after evs []" "\<lambda>_. True"
  by unfold_locales
     (auto elim!: receiver_act.cases simp: file_port_def apply_receivers_def idle_def file_poll_keeps receiver_lawD(7-11) receiver_law_drop_rx)

lemma mem_poll_keeps:
  assumes "receiver_law m rc acc got gone"
  shows "acc (pm_rx (snd (PollMem_poll_next rc st))) = acc (pm_rx st)" "gone (pm_rx (snd (PollMem_poll_next rc st))) = gone (pm_rx st)"
  by (cases "poll_recv rc (pm_rx st)"; simp add: PollMem_poll_next_def poll_recvD [OF assms])+

interpretation mem_client: client_family PollMem_poll_next pm_rx "\<lambda>c s. s\<lparr>pm_rx := c\<rparr>"
  tk_mem sm_mem mem_port "''memory''" "List.map_filter mem_view"
  "\<lambda>_ bx. bx_network bx = None" "\<lambda>_. True"
  by unfold_locales
     (auto elim!: receiver_act.cases simp: mem_port_def apply_receivers_def idle_def mem_poll_keeps receiver_lawD(7-11) receiver_law_drop_rx)

lemma network_poll_keeps:
  assumes "receiver_law m rc acc got gone"
  shows "acc (pn_rx (snd (PollNetwork_poll_next rc st))) = acc (pn_rx st)" "gone (pn_rx (snd (PollNetwork_poll_next rc st))) = gone (pn_rx st)"
  by (cases "poll_recv rc (pn_rx st)"; simp add: PollNetwork_poll_next_def poll_recvD [OF assms])+

interpretation network_client: client_family PollNetwork_poll_next pn_rx "\<lambda>c s. s\<lparr>pn_rx := c\<rparr>"
  tk_network sm_network network_port "''network''" "List.map_filter net_view"
  "\<lambda>_ _. True" is_net
  by unfold_locales
     (auto elim!: receiver_act.cases simp: network_port_def apply_receivers_def idle_def network_poll_keeps receiver_lawD(7-11) receiver_law_drop_rx)

section \<open>Three subscriptions\<close>

lemma Bpfx_with_config_registers:
  assumes "Bpfx_with_config conf ld = Inr bx"
  shows "bx_network bx = None" "bx_pending_renames bx = []"
  using assms by (auto simp: Bpfx_with_config_def split: sum.splits option.splits)

lemma subscribe_process_keeps:
  assumes "subscribe_process ay tk filt bx = (Inr tx, bx')"
  shows "bx_process bx' = Some \<lparr>pr_filter = filt, pr_tx = tx\<rparr>" "bx_network bx' = bx_network bx" "bx_file bx' = bx_file bx"
    "bx_mem bx' = bx_mem bx" "bx_pending_renames bx' = bx_pending_renames bx" "\<exists>n. mk_channel (tk_process tk) n = Some tx"
  using assms by (auto simp: subscribe_process_def split: option.splits prod.splits sum.splits)

lemma subscribe_file_keeps:
  assumes "subscribe_file ay tk filt bx = (Inr tx, bx')"
  shows "bx_file bx' = Some \<lparr>fr_filter = filt, fr_tx = tx\<rparr>" "bx_network bx' = bx_network bx" "bx_process bx' = bx_process bx"
    "bx_mem bx' = bx_mem bx" "bx_pending_renames bx' = bx_pending_renames bx" "\<exists>n. mk_channel (tk_file tk) n = Some tx"
  using assms by (auto simp: subscribe_file_def split: option.splits prod.splits sum.splits)

lemma subscribe_mem_keeps:
  assumes "subscribe_mem ay tk filt bx = (Inr tx, bx')"
  shows "bx_mem bx' = Some \<lparr>mr_filter = filt, mr_tx = tx\<rparr>" "bx_network bx' = bx_network bx" "bx_process bx' = bx_process bx"
    "bx_file bx' = bx_file bx" "bx_pending_renames bx' = bx_pending_renames bx" "\<exists>n. mk_channel (tk_mem tk) n = Some tx"
  using assms by (auto simp: subscribe_mem_def split: option.splits prod.splits sum.splits)

text \<open>A program that has made its runtime and its three subscriptions and is about to call \<open>run\<close>.\<close>

definition three_subscriptions :: "('b, 'x) aya \<Rightarrow> ('n, 'p, 'f, 'm) tokio \<Rightarrow> ('b, 'r, 'x) loading \<Rightarrow> BpfxConfig \<Rightarrow>
    ProcessFilter \<Rightarrow> FileFilter \<Rightarrow> MemoryFilter \<Rightarrow> 'x fault + ('b, 'r, 'n, 'p, 'f, 'm) Bpfx" where
  "three_subscriptions ay tk ld conf fp ff fm =
     (case Bpfx_with_config conf ld of
        Inl e \<Rightarrow> Inl e
      | Inr bx0 \<Rightarrow>
          (case Bpfx_subscribe (subscribe_process ay tk) fp bx0 of
             (Inl e, _, _) \<Rightarrow> Inl e
           | (Inr _, bx1, _) \<Rightarrow>
               (case Bpfx_subscribe (subscribe_file ay tk) ff bx1 of
                  (Inl e, _, _) \<Rightarrow> Inl e
                | (Inr _, bx2, _) \<Rightarrow>
                    (case Bpfx_subscribe (subscribe_mem ay tk) fm bx2 of
                       (Inl e, _, _) \<Rightarrow> Inl e
                     | (Inr _, bx3, _) \<Rightarrow> Inr bx3))))"

lemma three_subscriptionsE:
  assumes "three_subscriptions ay tk ld conf fp ff fm = Inr bx"
  obtains tp tf tm np nf nm where "bx_network bx = None" "bx_pending_renames bx = []"
    "bx_process bx = Some \<lparr>pr_filter = fp, pr_tx = tp\<rparr>" "mk_channel (tk_process tk) np = Some tp"
    "bx_file bx = Some \<lparr>fr_filter = ff, fr_tx = tf\<rparr>" "mk_channel (tk_file tk) nf = Some tf"
    "bx_mem bx = Some \<lparr>mr_filter = fm, mr_tx = tm\<rparr>" "mk_channel (tk_mem tk) nm = Some tm"
proof -
  from assms obtain bx0 bx1 bx2 tp tf tm where s: "Bpfx_with_config conf ld = Inr bx0"
    "subscribe_process ay tk fp bx0 = (Inr tp, bx1)" "subscribe_file ay tk ff bx1 = (Inr tf, bx2)"
    "subscribe_mem ay tk fm bx2 = (Inr tm, bx)"
    by (auto simp: three_subscriptions_def Bpfx_subscribe_def split: sum.splits prod.splits)
  from subscribe_process_keeps(6) [OF s(2)] subscribe_file_keeps(6) [OF s(3)] subscribe_mem_keeps(6) [OF s(4)]
  obtain np nf nm where "mk_channel (tk_process tk) np = Some tp" "mk_channel (tk_file tk) nf = Some tf"
    "mk_channel (tk_mem tk) nm = Some tm" by blast
  with subscribe_process_keeps(1-5) [OF s(2)] subscribe_file_keeps(1-5) [OF s(3)] subscribe_mem_keeps(1-5) [OF s(4)] Bpfx_with_config_registers [OF s(1)]
  show ?thesis by (intro that) simp_all
qed

lemma three_invs:
  fixes s :: "(('b, 'r, 'n, 'p, 'f, 'm) Bpfx, 'x) client"
  assumes "three_subscriptions ay tk ld conf fp ff fm = Inr bx"
    and "receiver_law (tk_process tk) (sm_process sm) accp gotp gonep"
    and "receiver_law (tk_file tk) (sm_file sm) accf gotf gonef"
    and "receiver_law (tk_mem tk) (sm_mem sm) accm gotm gonem"
    and "kernel_run {} (boot h0) k" and "client_run A tk sm (client_start k bx) s"
  shows "process_client.family_inv accp gotp gonep s" and "file_client.family_inv accf gotf gonef s"
    and "mem_client.family_inv accm gotm gonem s"
proof -
  note k = quiet_start [OF assms(5)]
  from assms(1) obtain tp tf tm np nf nm where bx: "bx_network bx = None" "bx_pending_renames bx = []"
    "bx_process bx = Some \<lparr>pr_filter = fp, pr_tx = tp\<rparr>" "mk_channel (tk_process tk) np = Some tp"
    "bx_file bx = Some \<lparr>fr_filter = ff, fr_tx = tf\<rparr>" "mk_channel (tk_file tk) nf = Some tf"
    "bx_mem bx = Some \<lparr>mr_filter = fm, mr_tx = tm\<rparr>" "mk_channel (tk_mem tk) nm = Some tm"
    by (rule three_subscriptionsE)
  show "process_client.family_inv accp gotp gonep s"
    by (rule process_client.run_keeps [OF assms(6,2) emits_any], rule process_client.start_keeps [OF assms(2), where st = "\<lparr>pp_rx = tp\<rparr>"])
       (use k bx receiver_lawD(5,6) [OF assms(2)] in \<open>auto simp: process_port_def\<close>)
  show "file_client.family_inv accf gotf gonef s"
    by (rule file_client.run_keeps [OF assms(6,3) emits_any], rule file_client.start_keeps [OF assms(3), where st = "\<lparr>pf_rx = tf\<rparr>"])
       (use k bx receiver_lawD(5,6) [OF assms(3)] in \<open>auto simp: file_port_def\<close>)
  show "mem_client.family_inv accm gotm gonem s"
    by (rule mem_client.run_keeps [OF assms(6,4) emits_any], rule mem_client.start_keeps [OF assms(4), where st = "\<lparr>pm_rx = tm\<rparr>"])
       (use k bx receiver_lawD(5,6) [OF assms(4)] in \<open>auto simp: mem_port_def\<close>)
qed

section \<open>Properties\<close>

text \<open>
  C5: subscriptions of different families coexist, as \<open>subscribe\<close> documents, for processes, files and
  memory. In every interleaving of the kernel, the loop and the three tasks, and whatever programs
  are attached, the loop never faults, ends without an error only when it found no stream open, and
  each stream gets the events of its own family as if it were alone: in the order of submission,
  none twice, each missing one logged under its own family, even if the other streams are not
  polled, are full or have been dropped.
\<close>

theorem subscriptions_coexist:
  fixes s :: "(('b, 'r, 'n, 'p, 'f, 'm) Bpfx, 'x) client"
  assumes "three_subscriptions ay tk ld conf fp ff fm = Inr bx"
    and "receiver_law (tk_process tk) (sm_process sm) accp gotp gonep"
    and "receiver_law (tk_file tk) (sm_file sm) accf gotf gonef"
    and "receiver_law (tk_mem tk) (sm_mem sm) accm gotm gonem"
    and "kernel_run {} (boot h0) k" and "client_run A tk sm (client_start k bx) s"
  shows "proper_end (ct_end s) \<and>
    (\<exists>rp rf rm. bx_process (ct_bx s) = Some rp \<and> bx_file (ct_bx s) = Some rf \<and> bx_mem (ct_bx s) = Some rm \<and>
      owed accp gotp ''process'' (List.map_filter process_view (ct_read s)) (pr_tx rp) (ct_log s) \<and>
      owed accf gotf ''file'' (file_view_list (ct_read s)) (fr_tx rf) (ct_log s) \<and>
      owed accm gotm ''memory'' (List.map_filter mem_view (ct_read s)) (mr_tx rm) (ct_log s) \<and>
      (gonep (pr_tx rp) \<or> gonef (fr_tx rf) \<or> gonem (mr_tx rm) \<longrightarrow> ct_end s \<noteq> None))"
proof -
  from three_invs [OF assms] show ?thesis
    unfolding process_client.family_inv_def file_client.family_inv_def mem_client.family_inv_def
    by (auto simp: process_port_def file_port_def mem_port_def)
qed

lemma q_laws:
  "receiver_law (tk_process q_tokio) (sm_process q_streams) q_acc qc_got qc_tx_gone"
  "receiver_law (tk_file q_tokio) (sm_file q_streams) q_acc qc_got qc_tx_gone"
  "receiver_law (tk_mem q_tokio) (sm_mem q_streams) q_acc qc_got qc_tx_gone"
  using q_law by (simp_all add: q_tokio_def q_streams_def)

lemma demo_subscribed:
  "\<exists>bx. three_subscriptions obj_aya q_tokio demo_ld BpfxConfig_default
     ProcessFilter_ALL FileFilter_ALL MemoryFilter_ALL = (Inr bx :: unit fault + _)"
proof -
  obtain b1 where b1: "attach_process_probe obj_aya ProcessFilter_ALL ([], []) = (Inr (), b1)" using demo_attached(1) by blast
  obtain b2 where b2: "attach_file_probe obj_aya FileFilter_ALL b1 = (Inr (), b2)" using demo_attached(2) by blast
  obtain b3 where "attach_mem_probe obj_aya MemoryFilter_ALL b2 = (Inr (), b3)" using demo_attached(3) by blast
  with b1 b2 show ?thesis
    by (simp add: three_subscriptions_def Bpfx_with_config_def BpfxConfig_default_def demo_ld_def Bpfx_subscribe_def
        subscribe_process_def subscribe_mem_def subscribe_file_def q_tokio_def q_mpsc_def)
qed

lemma demo_has_subscribers:
  assumes "three_subscriptions obj_aya q_tokio demo_ld BpfxConfig_default
     ProcessFilter_ALL FileFilter_ALL MemoryFilter_ALL = (Inr bx :: unit fault + _)"
  shows "has_subscribers q_tokio bx"
  using assms by (rule three_subscriptionsE) (auto simp: has_subscribers_def q_tokio_def q_mpsc_def split: if_splits)

theorem subscriptions_coexist_witness:
  "\<exists>bx (s :: (_, unit) client) rp. three_subscriptions obj_aya q_tokio demo_ld BpfxConfig_default
       ProcessFilter_ALL FileFilter_ALL MemoryFilter_ALL = Inr bx \<and>
     client_run UNIV q_tokio q_streams (client_start (boot demo_header) bx) s \<and>
     length (ct_read s) = 1 \<and> proper_end (ct_end s) \<and> bx_process (ct_bx s) = Some rp \<and>
     owed q_acc qc_got ''process'' (List.map_filter process_view (ct_read s)) (pr_tx rp) (ct_log s)"
proof -
  obtain bx where bx: "three_subscriptions obj_aya q_tokio demo_ld BpfxConfig_default
      ProcessFilter_ALL FileFilter_ALL MemoryFilter_ALL = (Inr bx :: unit fault + _)"
    using demo_subscribed by blast
  have kr: "kernel_run {} (boot demo_header) (boot demo_header)" by (rule run_refl)
  let ?k = "snd (run_program P_do_group_exit demo_env (boot demo_header))"
  obtain e where e: "EVENTS ?k = [e]" using demo_one_event(1) by blast
  let ?s = "client_start (boot demo_header) bx :: (_, unit) client"
  let ?it = "item_of (enc_raw (\<lambda>_. 0) e) (\<lambda>_. 0)"
  have one: "client_step UNIV q_tokio q_streams ?s (?s\<lparr>ct_kernel := ?k\<rparr>)"
    by (rule ct_prog [OF UNIV_I wf_demo_env, of P_do_group_exit]) (simp_all add: client_start_def prod_eq_iff run_undefined_def)
  have two: "client_step UNIV q_tokio q_streams (?s\<lparr>ct_kernel := ?k\<rparr>) (?s\<lparr>ct_kernel := ?k, ct_awake := True\<rparr>)"
    using ct_wake [of "?s\<lparr>ct_kernel := ?k\<rparr>" q_tokio UNIV q_streams] demo_has_subscribers [OF bx]
    by (simp add: client_start_def)
  have img: "is_image ?it e" unfolding is_image_def by blast
  have "ring_inv ?k" by (rule prog.keeps_ring_inv [OF wf_demo_env conjunct1 [OF quiet_start [OF kr]]])
  moreover have "bx_network bx = None" using bx by (rule three_subscriptionsE)
  moreover obtain bx' lg where "spec_dispatch q_tokio e bx = (bx', lg)" by force
  ultimately have "dispatch q_tokio ?it bx = (Inr () :: unit fault + unit, bx', lg)"
    using process_sub.item_refined [of ?k e "[]" ?it bx q_tokio] e img by simp
  then have "client_step UNIV q_tokio q_streams (?s\<lparr>ct_kernel := ?k, ct_awake := True\<rparr>)
      (client_item e [] bx' lg (?s\<lparr>ct_kernel := ?k, ct_awake := True\<rparr>))"
    using e by (intro ct_item [OF _ _ _ img]) (simp_all add: client_start_def)
  note run = client_next [OF client_next [OF client_next [OF client_refl one] two] this]
  from subscriptions_coexist [OF bx q_laws kr run] bx run show ?thesis
    by (fastforce simp: client_item_def client_start_def)
qed

text \<open>A file and a network subscription, and a rename waiting in the ring.\<close>

definition both_bpfx :: "(unit, unit, NetworkEvent qchan, ProcessEvent qchan, FileEvent qchan, MemoryEvent qchan) Bpfx" where
  "both_bpfx = (q_bpfx [])\<lparr>bx_network := Some \<lparr>nr_filter = NetworkFilter_ALL,
     nr_tx = \<lparr>qc_got = [], qc_queue = [], qc_cap = 4, qc_rx_gone = False, qc_tx_gone = False\<rparr>\<rparr>\<rparr>"

definition rename_waiting :: kstate where
  "rename_waiting = (boot demo_header)\<lparr>EVENTS := [RE_rename (demo_rename 97)]\<rparr>"

text \<open>
  A structure that the network converter cannot read stays at the front of the ring: no step of any
  part of the program converts it or anything behind it.
\<close>

definition blocked :: "raw_event \<Rightarrow> (('b, 'r, 'n, 'p, 'f, 'm) Bpfx, 'x) client \<Rightarrow> bool" where
  "blocked e s = (bx_network (ct_bx s) \<noteq> None \<and> (\<exists>es. EVENTS (ct_kernel s) = e # es))"

lemma foreign_dispatch_undefined:
  assumes "bx_network bx \<noteq> None" "wf_raw e" "event_text e = Some name" "name ! 0 \<noteq> 1" "name ! 0 \<noteq> 2" "is_image it e"
  shows "dispatch tk it bx = (Inl UndefinedBehaviour, bx, [])"
proof -
  from assms(6) obtain p beyond where it: "it = item_of (enc_raw p e) beyond" by (auto simp: is_image_def)
  from assms(1) obtain r where r: "bx_network bx = Some r" by blast
  show ?thesis by (simp add: dispatch_def stage_network_def r it foreign_text_undefined [OF assms(2-5)])
qed

lemma apply_receivers_network [simp]: "bx_network (apply_receivers rv bx) = None \<longleftrightarrow> bx_network bx = None"
  by (simp add: apply_receivers_def)

lemma blocked_step:
  fixes s t :: "(('b, 'r, 'n, 'p, 'f, 'm) Bpfx, 'x) client"
  assumes "client_step A tk sm s t" and "blocked e s"
    and "wf_raw e" "event_text e = Some name" "name ! 0 \<noteq> 1" "name ! 0 \<noteq> 2"
  shows "blocked e t \<and> ct_read t = ct_read s"
proof -
  have u: "is_image it e \<Longrightarrow> dispatch tk it (ct_bx s) = (Inl UndefinedBehaviour :: 'x fault + unit, ct_bx s, [])" for it
    using assms(2) by (intro foreign_dispatch_undefined [OF _ assms(3-6)]) (auto simp: blocked_def)
  from assms(1) show ?thesis
  proof (cases rule: client_step.cases)
    case (ct_prog p env r k)
    with assms(2) prog.appends [of p env "ct_kernel s"] show ?thesis by (auto simp: blocked_def)
  next
    case (ct_item e' es it bx lg)
    with u [of it] assms(2) show ?thesis by (auto simp: blocked_def)
  next
    case (ct_fault e' es it f bx lg)
    with u [of it] assms(2) show ?thesis by (auto simp: blocked_def)
  qed (use assms(2) in \<open>auto simp: blocked_def client_over_def\<close>)
qed

lemma blocked_run:
  fixes s t :: "(('b, 'r, 'n, 'p, 'f, 'm) Bpfx, 'x) client"
  assumes "client_run A tk sm s t" and "blocked e s"
    and "wf_raw e" "event_text e = Some name" "name ! 0 \<noteq> 1" "name ! 0 \<noteq> 2"
  shows "blocked e t \<and> ct_read t = ct_read s"
  using assms by (induction rule: client_run.induct) (auto dest: blocked_step)

text \<open>
  C7: the network family does not coexist with the others, although \<open>subscribe\<close> documents that
  subscriptions of different types may. In a program that has a network subscription, let the first
  item of the ring be an event of another family that carries a path or a name whose first byte is
  neither 1 nor 2. Whatever the padding of the item and the memory behind it, converting it is a read
  without a defined value, which the loop makes as soon as it is awake; and in no continuation of
  the run that has a defined meaning is this event, or one behind it, ever converted for any of the
  streams.
\<close>

theorem network_does_not_coexist:
  fixes s :: "(('b, 'r, 'n, 'p, 'f, 'm) Bpfx, 'x) client"
  assumes "bx_network (ct_bx s) \<noteq> None" and "ct_end s = None" and "EVENTS (ct_kernel s) = e # es"
    and "wf_raw e" and "event_text e = Some name" and "name ! 0 \<noteq> 1" and "name ! 0 \<noteq> 2"
  shows "(\<forall>it. is_image it e \<longrightarrow> dispatch tk it (ct_bx s) = (Inl UndefinedBehaviour :: 'x fault + unit, ct_bx s, [])) \<and>
    (ct_awake s \<longrightarrow> (\<exists>t. client_step A tk sm s t \<and> run_undefined t)) \<and>
    (\<forall>t. client_run A tk sm s t \<longrightarrow> ct_read t = ct_read s)"
proof (intro conjI allI impI)
  show d: "dispatch tk it (ct_bx s) = (Inl UndefinedBehaviour :: 'x fault + unit, ct_bx s, [])" if "is_image it e" for it
    by (rule foreign_dispatch_undefined [OF assms(1,4-7) that])
  have img: "is_image (item_of (enc_raw (\<lambda>_. 0) e) (\<lambda>_. 0)) e" unfolding is_image_def by blast
  show "\<exists>t. client_step A tk sm s t \<and> run_undefined t" if "ct_awake s"
    by (rule exI, rule conjI, rule ct_undefined [OF assms(2) that assms(3) img d [OF img]])
       (simp add: run_undefined_def)
  show "ct_read t = ct_read s" if "client_run A tk sm s t" for t
    using blocked_run [OF that _ assms(4-7)] assms(1,3) by (simp add: blocked_def)
qed

theorem network_does_not_coexist_witness:
  "let s = (client_start rename_waiting both_bpfx :: (_, unit) client)\<lparr>ct_awake := True\<rparr> in
     client_run UNIV q_tokio q_streams (client_start rename_waiting both_bpfx) s \<and>
     (\<exists>t. client_step UNIV q_tokio q_streams s t \<and> run_undefined t) \<and>
     (\<nexists>t. client_run UNIV q_tokio q_streams s t \<and> RE_rename (demo_rename 97) \<in> set (ct_read t))"
proof -
  let ?s = "(client_start rename_waiting both_bpfx :: (_, unit) client)\<lparr>ct_awake := True\<rparr>"
  have "client_run UNIV q_tokio q_streams (client_start rename_waiting both_bpfx) ?s"
    using ct_wake [of "client_start rename_waiting both_bpfx :: (_, unit) client" q_tokio UNIV q_streams]
    by (intro client_next [OF client_refl])
       (simp add: client_start_def both_bpfx_def has_subscribers_def q_bpfx_def q_tokio_def q_mpsc_def)
  moreover have "(\<exists>t. client_step UNIV q_tokio q_streams ?s t \<and> run_undefined t) \<and>
      (\<forall>t. client_run UNIV q_tokio q_streams ?s t \<longrightarrow> ct_read t = ct_read ?s)"
    using network_does_not_coexist [of ?s "RE_rename (demo_rename 97)" "[]" "rn_old_filename (demo_rename 97)"
        q_tokio UNIV q_streams] demo_ok(7)
    by (simp add: client_start_def demo_rename_def rename_waiting_def both_bpfx_def)
  ultimately show ?thesis by (auto simp: Let_def client_start_def)
qed

text \<open>
  C6: while a stream is open the loop is never stuck. In every state that such a program can reach
  and in which the loop is still running, and is awake or still has a stream that was not dropped,
  it can convert all that is in the ring, in order and without an end of the loop, whatever the
  streams and their tasks have done; each of the three streams is then owed exactly the events of
  its family among everything that was submitted.
\<close>

theorem ring_can_be_drained:
  fixes s :: "(('b, 'r, 'n, 'p, 'f, 'm) Bpfx, 'x) client"
  assumes "three_subscriptions ay tk ld conf fp ff fm = Inr bx"
    and "receiver_law (tk_process tk) (sm_process sm) accp gotp gonep"
    and "receiver_law (tk_file tk) (sm_file sm) accf gotf gonef"
    and "receiver_law (tk_mem tk) (sm_mem sm) accm gotm gonem"
    and "kernel_run {} (boot h0) k" and "client_run A tk sm (client_start k bx) s" and "ct_end s = None"
    and "ct_awake s \<or> has_subscribers tk (ct_bx s)"
  shows "\<exists>t rp rf rm. client_run A tk sm s t \<and> EVENTS (ct_kernel t) = [] \<and> ct_end t = None \<and>
    ct_read t = ct_read s @ EVENTS (ct_kernel s) \<and>
    bx_process (ct_bx t) = Some rp \<and> bx_file (ct_bx t) = Some rf \<and> bx_mem (ct_bx t) = Some rm \<and>
    owed accp gotp ''process'' (List.map_filter process_view (ct_read s @ EVENTS (ct_kernel s))) (pr_tx rp) (ct_log t) \<and>
    owed accf gotf ''file'' (file_view_list (ct_read s @ EVENTS (ct_kernel s))) (fr_tx rf) (ct_log t) \<and>
    owed accm gotm ''memory'' (List.map_filter mem_view (ct_read s @ EVENTS (ct_kernel s))) (mr_tx rm) (ct_log t)"
proof -
  note inv = three_invs [OF assms(1-6)]
  from process_client.drains [OF assms(2) inv(1) assms(7,8)] obtain t where
    t: "client_run A tk sm s t" "EVENTS (ct_kernel t) = []" "ct_end t = None"
      "ct_read t = ct_read s @ EVENTS (ct_kernel s)" "process_client.family_inv accp gotp gonep t" by blast
  with file_client.run_keeps [OF t(1) assms(3) emits_any inv(2)] mem_client.run_keeps [OF t(1) assms(4) emits_any inv(3)]
  show ?thesis
    unfolding process_client.family_inv_def file_client.family_inv_def mem_client.family_inv_def
    by (intro exI [of _ t]) (auto simp: process_port_def file_port_def mem_port_def)
qed

theorem ring_can_be_drained_witness:
  "\<exists>bx (s :: (_, unit) client) t. three_subscriptions obj_aya q_tokio demo_ld BpfxConfig_default
       ProcessFilter_ALL FileFilter_ALL MemoryFilter_ALL = Inr bx \<and>
     client_run UNIV q_tokio q_streams (client_start (boot demo_header) bx) s \<and> length (EVENTS (ct_kernel s)) = 1 \<and>
     client_run UNIV q_tokio q_streams s t \<and> EVENTS (ct_kernel t) = [] \<and> length (ct_read t) = 1"
proof -
  obtain bx where bx: "three_subscriptions obj_aya q_tokio demo_ld BpfxConfig_default
      ProcessFilter_ALL FileFilter_ALL MemoryFilter_ALL = (Inr bx :: unit fault + _)"
    using demo_subscribed by blast
  let ?k = "snd (run_program P_do_group_exit demo_env (boot demo_header))"
  let ?s = "client_start (boot demo_header) bx :: (_, unit) client"
  have "client_step UNIV q_tokio q_streams ?s (?s\<lparr>ct_kernel := ?k\<rparr>)"
    by (rule ct_prog [OF UNIV_I wf_demo_env, of P_do_group_exit]) (simp_all add: client_start_def prod_eq_iff run_undefined_def)
  note run = client_next [OF client_refl this]
  obtain e where e: "EVENTS ?k = [e]" using demo_one_event(1) by blast
  from ring_can_be_drained [OF bx q_laws run_refl run] obtain t where
    "client_run UNIV q_tokio q_streams (?s\<lparr>ct_kernel := ?k\<rparr>) t" "EVENTS (ct_kernel t) = []"
    "ct_read t = ct_read (?s\<lparr>ct_kernel := ?k\<rparr>) @ EVENTS ?k"
    using demo_has_subscribers [OF bx] by (auto simp: client_start_def)
  with e bx run show ?thesis
    by (intro exI [of _ bx] exI [of _ "?s\<lparr>ct_kernel := ?k\<rparr>"] exI [of _ t]) (simp add: client_start_def)
qed

end
