(* ===== verification/Bpfx_Resubscribe.thy ===== *)
theory Bpfx_Resubscribe
  imports Bpfx_Stream Ebpf_Props
begin

text \<open>
  Repeated subscriptions. \<open>subscribe\<close> may be called again on a runtime that already has a
  subscription of the family: the maps are written and the programs attached before the register is
  replaced, so what is left behind depends on how far the second call gets. The loader refuses to
  load a program a second time (\<open>loads_once\<close>); what its calls have done to the maps and programs of
  the object is read off the history of effects.
\<close>

section \<open>The object after a history of effects\<close>

fun apply_effect :: "effect \<Rightarrow> kstate \<Rightarrow> kstate" where
  "apply_effect (WroteFilter k v) s = s\<lparr>FILTER := (FILTER s)(k \<mapsto> v)\<rparr>"
| "apply_effect (WroteConfig k m) s = s\<lparr>CONFIG := (CONFIG s)(k \<mapsto> m)\<rparr>"
| "apply_effect (Attached _ _ _) s = s"

definition attached :: "effect list \<Rightarrow> program set" where
  "attached effs = {p. \<exists>k t. Attached k p t \<in> set effs}"

lemma attached_append [simp]: "attached (xs @ ys) = attached xs \<union> attached ys"
  by (auto simp: attached_def)

lemma attached_map_writes [simp]:
  "attached [] = {}" "attached (WroteFilter k v # effs) = attached effs"
  "attached (WroteConfig k m # effs) = attached effs"
  by (auto simp: attached_def)

section \<open>A loader that loads each program once\<close>

text \<open>
  \<open>ProgramError::AlreadyLoaded\<close>: \<open>load\<close> on a program that is loaded is refused. A loaded program
  stays loaded, whatever else is called. \<open>maps_writable\<close>: the two maps accept what is written.
\<close>

definition loads_once :: "('b, 'x) aya \<Rightarrow> ('b \<Rightarrow> program set) \<Rightarrow> bool" where
  "loads_once ay loaded =
     ((\<forall>b q k a. q \<in> loaded b \<longrightarrow> fst (ay_load ay b (program_name q) k a) \<noteq> None) \<and>
      (\<forall>b q k a. fst (ay_load ay b (program_name q) k a) = None \<longrightarrow>
         q \<in> loaded (snd (ay_load ay b (program_name q) k a))) \<and>
      (\<forall>b n k a. loaded b \<subseteq> loaded (snd (ay_load ay b n k a))) \<and>
      (\<forall>b n k a. loaded b \<subseteq> loaded (snd (ay_attach ay b n k a))) \<and>
      (\<forall>b k v. loaded b \<subseteq> loaded (snd (ay_insert_filter ay b k v))) \<and>
      (\<forall>b k v. loaded b \<subseteq> loaded (snd (ay_insert_config ay b k v))))"

definition maps_writable :: "('b, 'x) aya \<Rightarrow> bool" where
  "maps_writable ay =
     ((\<forall>b n. ay_hash_map ay b n = None) \<and> (\<forall>b k v. fst (ay_insert_filter ay b k v) = None) \<and>
      (\<forall>b k v. fst (ay_insert_config ay b k v) = None))"

lemma loads_onceD:
  assumes "loads_once ay loaded"
  shows "q \<in> loaded b \<Longrightarrow> ay_load ay b (program_name q) k a = (r, b') \<Longrightarrow> r \<noteq> None"
    and "ay_load ay b (program_name q) k a = (None, b') \<Longrightarrow> q \<in> loaded b'"
    and "ay_load ay b n k a = (r, b') \<Longrightarrow> loaded b \<subseteq> loaded b'"
    and "ay_attach ay b n k a = (r, b') \<Longrightarrow> loaded b \<subseteq> loaded b'"
    and "ay_insert_filter ay b i v = (r, b') \<Longrightarrow> loaded b \<subseteq> loaded b'"
    and "ay_insert_config ay b i m = (r, b') \<Longrightarrow> loaded b \<subseteq> loaded b'"
  using assms unfolding loads_once_def by (metis fst_conv snd_conv)+

text \<open>
  What a sequence of calls with the effects \<open>effs\<close> does to the loaded programs: it unloads none, and
  when it succeeds, none of the programs it attached was loaded before and all of them are after.
\<close>

definition locks :: "('b \<Rightarrow> program set) \<Rightarrow> ('b, 'x) action_step \<Rightarrow> effect list \<Rightarrow> bool" where
  "locks loaded stp effs =
     (\<forall>b. loaded b \<subseteq> loaded (snd (stp b)) \<and>
       (fst (stp b) = Inr () \<longrightarrow> attached effs \<inter> loaded b = {} \<and> attached effs \<subseteq> loaded (snd (stp b))))"

lemma locks_steps:
  "list_all2 (\<lambda>stp eff. locks loaded stp [eff]) steps effs \<Longrightarrow> locks loaded (run_steps steps) effs"
proof (induction rule: list_all2_induct)
  case (Cons stp steps eff effs)
  show ?case
    unfolding locks_def
  proof
    fix b
    obtain r b1 where r: "stp b = (r, b1)" by force
    have s: "loaded b \<subseteq> loaded b1" "r = Inr () \<Longrightarrow> attached [eff] \<inter> loaded b = {} \<and> attached [eff] \<subseteq> loaded b1"
      using Cons.hyps(1) [unfolded locks_def, rule_format, of b] r by simp_all
    have att: "attached (eff # effs) = attached [eff] \<union> attached effs"
      using attached_append [of "[eff]" effs] by simp
    show "loaded b \<subseteq> loaded (snd (run_steps (stp # steps) b)) \<and>
        (fst (run_steps (stp # steps) b) = Inr () \<longrightarrow> attached (eff # effs) \<inter> loaded b = {} \<and>
          attached (eff # effs) \<subseteq> loaded (snd (run_steps (stp # steps) b)))"
      using Cons.IH [unfolded locks_def, rule_format, of b1] s r by (cases r) (auto simp: att)
  qed
qed (simp add: locks_def)

lemma load_attach_locks:
  assumes once: "loads_once ay loaded" and n: "program_name q = n"
  shows "locks loaded (load_attach ay kind n a a') [Attached kind q t]"
  unfolding locks_def
proof
  fix b
  obtain l b1 where l: "ay_load ay b n kind a = (l, b1)" by force
  obtain u b2 where u: "ay_attach ay b1 n kind a' = (u, b2)" by force
  have "loaded b \<subseteq> loaded b1" "loaded b1 \<subseteq> loaded b2"
    using loads_onceD(3) [OF once l] loads_onceD(4) [OF once u] by simp_all
  moreover have "q \<notin> loaded b \<and> q \<in> loaded b1" if "l = None"
    using loads_onceD(1) [OF once, of q b kind a None b1] loads_onceD(2) [OF once, of b q kind a b1] l n that by auto
  ultimately show "loaded b \<subseteq> loaded (snd (load_attach ay kind n a a' b)) \<and>
      (fst (load_attach ay kind n a a' b) = Inr () \<longrightarrow> attached [Attached kind q t] \<inter> loaded b = {} \<and>
        attached [Attached kind q t] \<subseteq> loaded (snd (load_attach ay kind n a a' b)))"
    by (cases l; cases u) (auto simp: load_attach_def l u attached_def split: option.split)
qed

lemma attach_locks:
  assumes law: "aya_law ay hist" and once: "loads_once ay loaded" and n: "program_name q = n"
  shows "locks loaded (attach_fexit ay n g) [Attached FExit q [g]]"
    and "locks loaded (attach_kprobe ay n g) [Attached KProbe q [g]]"
    and "locks loaded (attach_fentry ay n g) [Attached FEntry q [g]]"
    and "locks loaded (attach_tracepoint ay n c g) [Attached TracePoint q [c, g]]"
    and "n = ''file_open'' \<Longrightarrow> locks loaded (attach_lsm_probe ay) [Attached Lsm q [n]]"
  using load_attach_locks [OF once n, of Lsm "[n]" "[]" "[n]"]
  by (simp_all add: attach_found [OF law n] load_attach_locks [OF once n])

lemma write_locks:
  assumes "loads_once ay loaded"
  shows "locks loaded (write_to_fiter_map ay ft owner) [WroteFilter i v]"
    and "locks loaded (write_to_map ay ff) [WroteConfig i m]"
  using loads_onceD(5,6) [OF assms]
  by (auto simp: locks_def write_to_fiter_map_def write_to_map_def split: option.split prod.split)

lemma write_succeeds:
  assumes "aya_law ay hist" and "maps_writable ay"
  shows "\<exists>b'. write_to_fiter_map ay ft owner b = (Inr (), b')" and "\<exists>b'. write_to_map ay ff b = (Inr (), b')"
proof -
  have "ay_insert_filter ay b k v = (None, snd (ay_insert_filter ay b k v))"
    "ay_insert_config ay b k m = (None, snd (ay_insert_config ay b k m))" for b k v m
    using assms(2) unfolding maps_writable_def by (metis prod.collapse)+
  then show "\<exists>b'. write_to_fiter_map ay ft owner b = (Inr (), b')" "\<exists>b'. write_to_map ay ff b = (Inr (), b')"
    using assms(2) aya_law_insert(3,4) [OF assms(1), of b]
    by (simp_all add: write_to_fiter_map_def write_to_map_def maps_writable_def split: prod.split) (metis fst_conv option.case_eq_if prod.inject)+
qed

section \<open>The sender that an assignment drops\<close>

text \<open>
  The assignment \<open>bpfx.process = Some(pr)\<close> drops the register it overwrites, and the sender in it.
  The channel of that register then belongs to its stream alone. \<open>subscribe_process_over\<close> is
  \<open>subscribe\<close> with this in view: next to the result and the runtime it gives the channel of the
  subscription that was registered before, as the call leaves it.
\<close>

definition assign_process :: "('n, 'p, 'f, 'm) streams \<Rightarrow> 'p ProcessRegister \<Rightarrow>
    ('b, 'r, 'n, 'p, 'f, 'm) Bpfx \<Rightarrow> 'p option \<times> ('b, 'r, 'n, 'p, 'f, 'm) Bpfx" where
  "assign_process sm pr bx =
     (map_option (\<lambda>old. drop_tx (sm_process sm) (pr_tx old)) (bx_process bx), bx\<lparr>bx_process := Some pr\<rparr>)"

definition subscribe_process_over :: "('b, 'x) aya \<Rightarrow> ('n, 'p, 'f, 'm) tokio \<Rightarrow> ('n, 'p, 'f, 'm) streams \<Rightarrow>
    ProcessFilter \<Rightarrow> ('b, 'r, 'n, 'p, 'f, 'm) Bpfx \<Rightarrow> ('x fault + 'p) \<times> 'p option \<times> ('b, 'r, 'n, 'p, 'f, 'm) Bpfx" where
  "subscribe_process_over ay tk sm filt bx =
     (case mk_channel (tk_process tk) (channel_capacity (bx_config bx)) of
        None \<Rightarrow> (Inl Panic, map_option pr_tx (bx_process bx), bx)
      | Some tx \<Rightarrow>
          (case attach_process_probe ay filt (bx_bpf bx) of
             (Inl e, b) \<Rightarrow> (Inl e, map_option pr_tx (bx_process bx), bx\<lparr>bx_bpf := b\<rparr>)
           | (Inr _, b) \<Rightarrow>
               (case assign_process sm \<lparr>pr_filter = filt, pr_tx = tx\<rparr> (bx\<lparr>bx_bpf := b\<rparr>) of
                  (old, bx') \<Rightarrow> (Inr tx, old, bx'))))"

lemma subscribe_process_over_result:
  assumes "subscribe_process_over ay tk sm filt bx = (res, old, bx')"
  shows "subscribe_process ay tk filt bx = (res, bx')"
    and "old = map_option (\<lambda>r. if \<exists>tx. res = Inr tx then drop_tx (sm_process sm) (pr_tx r) else pr_tx r) (bx_process bx)"
  using assms
  by (auto simp: subscribe_process_over_def subscribe_process_def assign_process_def split: option.splits prod.splits sum.splits)

section \<open>Subscribing twice\<close>

text \<open>
  An attaching function that writes the process filter first and then calls the loader for each
  program of its plan. A second call fails when the plans share a program; whatever becomes of it,
  the filter of the first call is gone.
\<close>

locale exclusive_attacher = attacher attach plan
  for attach :: "('b, 'x) aya \<Rightarrow> 'f \<Rightarrow> ('b, 'x) action_step" and plan :: "'f \<Rightarrow> effect list" +
  fixes wrap :: "'f \<Rightarrow> Filters" and owner :: FilterOwner
  assumes filter_first: "\<exists>steps. attach ay filt = run_steps (write_to_fiter_map ay (wrap filt) owner # steps) \<and>
      (aya_law ay hist \<longrightarrow> performs_all hist (run_steps steps) (tl (plan filt)))"
    and filter_once: "WroteFilter k v \<notin> set (tl (plan filt))"
    and locks: "aya_law ay hist \<Longrightarrow> loads_once ay loaded \<Longrightarrow> locks loaded (attach ay filt) (plan filt)"
begin

lemma second_call_disjoint:
  assumes "aya_law ay hist" "loads_once ay loaded"
    and "attach ay f1 b0 = (Inr (), b1)" and "loaded b1 \<subseteq> loaded b" and "attach ay f2 b = (Inr (), b2)"
  shows "attached (plan f1) \<inter> attached (plan f2) = {}"
proof -
  have "attached (plan f1) \<subseteq> loaded b1"
    using locks [OF assms(1,2), of f1] assms(3) unfolding locks_def by (metis fst_conv snd_conv)
  moreover have "attached (plan f2) \<inter> loaded b = {}"
    using locks [OF assms(1,2), of f2] assms(5) unfolding locks_def by (metis fst_conv)
  ultimately show ?thesis using assms(4) by blast
qed

lemma fold_no_filter:
  "(\<forall>k v. WroteFilter k v \<notin> set effs) \<Longrightarrow> FILTER (fold apply_effect effs s) = FILTER s"
proof (induction effs arbitrary: s)
  case (Cons e effs)
  then show ?case by (cases e) auto
qed simp

lemma filter_overwritten:
  assumes law: "aya_law ay hist" and "maps_writable ay" and att: "attach ay filt b = (res, b')"
  shows "FILTER (fold apply_effect (hist b') s) (filter_owner_u32 owner) = Some (filters_key (wrap filt))"
proof -
  let ?w = "WroteFilter (filter_owner_u32 owner) (filters_key (wrap filt))"
  from filter_first [of ay filt hist] law obtain steps where
    steps: "attach ay filt = run_steps (write_to_fiter_map ay (wrap filt) owner # steps)"
    and perf: "performs_all hist (run_steps steps) (tl (plan filt))"
    by blast
  obtain b1 where w: "write_to_fiter_map ay (wrap filt) owner b = (Inr (), b1)"
    using write_succeeds(1) [OF law assms(2)] by blast
  have h1: "hist b1 = hist b @ [?w]"
    using write_performs(1) [OF law, of "wrap filt" owner, unfolded performs_def, rule_format, of b] w by simp
  have "run_steps steps b1 = (res, b')" using att steps w by simp
  with perf [unfolded performs_all_def, rule_format, of b1] obtain n where "hist b' = hist b1 @ take n (tl (plan filt))"
    by (metis snd_conv take_all_iff order_refl)
  moreover have "\<forall>k v. WroteFilter k v \<notin> set (take n (tl (plan filt)))"
    using filter_once by (meson in_set_takeD)
  ultimately show ?thesis by (simp add: h1 fold_no_filter)
qed

end

lemma write_performs_as:
  "aya_law ay hist \<Longrightarrow> performs hist (write_to_map ay ff) (WroteConfig 0 (ftf_mode (ff_file_mode ff)))"
  using write_performs(2) [of ay hist ff] by (simp add: file_mode_from_type_filter_def)

interpretation process_again: exclusive_attacher attach_process_probe plan_process Filters_Process OwnerProcess
proof unfold_locales
  fix ay :: "('tb, 'tx) aya" and hist filt loaded
  show "\<exists>steps. attach_process_probe ay filt = run_steps (write_to_fiter_map ay (Filters_Process filt) OwnerProcess # steps) \<and>
      (aya_law ay hist \<longrightarrow> performs_all hist (run_steps steps) (tl (plan_process filt)))"
    unfolding attach_process_probe_def plan_process_def Let_def append_Cons append_Nil list.sel
    by (rule exI, rule conjI, rule refl, intro impI performs_all_steps list_all2_appendI list.rel_intros)
       (simp_all add: attach_performs write_performs_as when_steps_def)
  show "WroteFilter k v \<notin> set (tl (plan_process filt))" for k v
    by (simp add: plan_process_def Let_def)
  show "locks loaded (attach_process_probe ay filt) (plan_process filt)" if "aya_law ay hist" "loads_once ay loaded"
    unfolding attach_process_probe_def plan_process_def Let_def
    by (intro locks_steps list_all2_appendI)
       (simp_all add: write_locks [OF that(2)] attach_locks [OF that] when_steps_def)
qed

interpretation file_again: exclusive_attacher attach_file_probe plan_file Filters_File OwnerFile
proof unfold_locales
  fix ay :: "('tb, 'tx) aya" and hist filt loaded
  show "\<exists>steps. attach_file_probe ay filt = run_steps (write_to_fiter_map ay (Filters_File filt) OwnerFile # steps) \<and>
      (aya_law ay hist \<longrightarrow> performs_all hist (run_steps steps) (tl (plan_file filt)))"
    unfolding attach_file_probe_def plan_file_def Let_def append_Cons append_Nil list.sel
    by (rule exI, rule conjI, rule refl, intro impI performs_all_steps list_all2_appendI list.rel_intros)
       (simp_all add: attach_performs write_performs_as when_steps_def)
  show "WroteFilter k v \<notin> set (tl (plan_file filt))" for k v
    by (simp add: plan_file_def Let_def)
  show "locks loaded (attach_file_probe ay filt) (plan_file filt)" if "aya_law ay hist" "loads_once ay loaded"
    unfolding attach_file_probe_def plan_file_def Let_def
    by (intro locks_steps list_all2_appendI)
       (simp_all add: write_locks [OF that(2)] attach_locks [OF that] when_steps_def)
qed

interpretation mem_again: exclusive_attacher attach_mem_probe plan_mem Filters_Memory OwnerMemory
proof unfold_locales
  fix ay :: "('tb, 'tx) aya" and hist filt loaded
  show "\<exists>steps. attach_mem_probe ay filt = run_steps (write_to_fiter_map ay (Filters_Memory filt) OwnerMemory # steps) \<and>
      (aya_law ay hist \<longrightarrow> performs_all hist (run_steps steps) (tl (plan_mem filt)))"
    unfolding attach_mem_probe_def plan_mem_def Let_def append_Cons append_Nil list.sel
    by (rule exI, rule conjI, rule refl, intro impI performs_all_steps list_all2_appendI list.rel_intros)
       (simp_all add: attach_performs write_performs_as when_steps_def)
  show "WroteFilter k v \<notin> set (tl (plan_mem filt))" for k v
    by (simp add: plan_mem_def Let_def)
  show "locks loaded (attach_mem_probe ay filt) (plan_mem filt)" if "aya_law ay hist" "loads_once ay loaded"
    unfolding attach_mem_probe_def plan_mem_def Let_def
    by (intro locks_steps list_all2_appendI)
       (simp_all add: write_locks [OF that(2)] attach_locks [OF that] when_steps_def)
qed

interpretation network_again: exclusive_attacher attach_network_probe plan_network Filters_Network OwnerNetwork
proof unfold_locales
  fix ay :: "('tb, 'tx) aya" and hist filt loaded
  show "\<exists>steps. attach_network_probe ay filt = run_steps (write_to_fiter_map ay (Filters_Network filt) OwnerNetwork # steps) \<and>
      (aya_law ay hist \<longrightarrow> performs_all hist (run_steps steps) (tl (plan_network filt)))"
    unfolding attach_network_probe_def plan_network_def Let_def append_Cons append_Nil list.sel
    by (rule exI, rule conjI, rule refl, intro impI performs_all_steps list_all2_appendI list.rel_intros)
       (simp_all add: attach_performs write_performs_as when_steps_def TCP_CONNECT_def TCP_ACCEPT_def
          TCP_CLOSE_def UDP_CONNECT_def UDP_CLOSE_def)
  show "WroteFilter k v \<notin> set (tl (plan_network filt))" for k v
    by (simp add: plan_network_def Let_def)
  show "locks loaded (attach_network_probe ay filt) (plan_network filt)" if "aya_law ay hist" "loads_once ay loaded"
    unfolding attach_network_probe_def plan_network_def Let_def
    by (intro locks_steps list_all2_appendI)
       (simp_all add: write_locks [OF that(2)] attach_locks [OF that] when_steps_def TCP_CONNECT_def TCP_ACCEPT_def
          TCP_CLOSE_def UDP_CONNECT_def UDP_CLOSE_def)
qed

section \<open>A loader that refuses to load twice\<close>

definition once_aya :: "((effect list \<times> string list) \<times> program list, unit) aya" where
  "once_aya =
     \<lparr>ay_program = (\<lambda>b. ay_program obj_aya (fst b)),
      ay_try_into = (\<lambda>b. ay_try_into obj_aya (fst b)),
      ay_load = (\<lambda>b n k a. case program_of_name n of
         None \<Rightarrow> (Some (), b)
       | Some q \<Rightarrow> if q \<in> set (snd b) then (Some (), b) else (None, (snd (ay_load obj_aya (fst b) n k a), q # snd b))),
      ay_attach = (\<lambda>b n k a. case ay_attach obj_aya (fst b) n k a of (r, o') \<Rightarrow> (r, (o', snd b))),
      ay_map = (\<lambda>b. ay_map obj_aya (fst b)),
      ay_hash_map = (\<lambda>b n. None),
      ay_insert_filter = (\<lambda>b k v. (None, (snd (ay_insert_filter obj_aya (fst b) k v), snd b))),
      ay_insert_config = (\<lambda>b k v. (None, (snd (ay_insert_config obj_aya (fst b) k v), snd b)))\<rparr>"

lemma once_aya_laws:
  "aya_law once_aya (fst \<circ> fst)" "loads_once once_aya (set \<circ> snd)" "maps_writable once_aya"
  by (auto simp: aya_law_def loads_once_def maps_writable_def once_aya_def obj_aya_def split: option.splits if_splits)

lemma subscribe_process_cases:
  assumes "subscribe_process ay tk filt bx = (res, bx')"
  shows "bx_config bx' = bx_config bx"
    and "mk_channel (tk_process tk) (channel_capacity (bx_config bx)) = Some tx \<Longrightarrow>
      (\<exists>f. res = Inl f \<and> attach_process_probe ay filt (bx_bpf bx) = (Inl f, bx_bpf bx') \<and> bx_process bx' = bx_process bx) \<or>
      (res = Inr tx \<and> attach_process_probe ay filt (bx_bpf bx) = (Inr (), bx_bpf bx') \<and>
        bx_process bx' = Some \<lparr>pr_filter = filt, pr_tx = tx\<rparr>)"
    and "res = Inr tx \<Longrightarrow> mk_channel (tk_process tk) (channel_capacity (bx_config bx)) = Some tx"
  using assms by (auto simp: subscribe_process_def split: option.splits prod.splits sum.splits)

lemma subscribe_file_cases:
  assumes "subscribe_file ay tk filt bx = (res, bx')"
  shows "bx_config bx' = bx_config bx"
    and "mk_channel (tk_file tk) (channel_capacity (bx_config bx)) = Some tx \<Longrightarrow>
      (\<exists>f. res = Inl f \<and> attach_file_probe ay filt (bx_bpf bx) = (Inl f, bx_bpf bx') \<and> bx_file bx' = bx_file bx) \<or>
      (res = Inr tx \<and> attach_file_probe ay filt (bx_bpf bx) = (Inr (), bx_bpf bx') \<and>
        bx_file bx' = Some \<lparr>fr_filter = filt, fr_tx = tx\<rparr>)"
    and "res = Inr tx \<Longrightarrow> mk_channel (tk_file tk) (channel_capacity (bx_config bx)) = Some tx"
  using assms by (auto simp: subscribe_file_def split: option.splits prod.splits sum.splits)

text \<open>
  A stream that has handed out everything and whose sender is gone yields no event any more, and the
  first poll of it that is not pending is its end.
\<close>

lemma finished_stream:
  assumes law: "receiver_law m rc acc got gone" and "got (pp_rx s) = acc (pp_rx s)"
    and "polls (PollProcess_poll_next rc) n s = (rs, s')"
  shows "set rs \<subseteq> {Poll_Pending, Poll_Ready None}"
  using assms(2,3)
proof (induction n arbitrary: s rs)
  case (Suc n)
  obtain r s1 where p: "PollProcess_poll_next rc s = (r, s1)" by force
  obtain rs1 where q: "polls (PollProcess_poll_next rc) n s1 = (rs1, s')" and rs: "rs = r # rs1"
    using Suc.prems(2) p by (auto split: prod.splits)
  from p obtain c where c: "poll_recv rc (pp_rx s) = (r, c)" "pp_rx s1 = c" by (rule process_stream.poll_nextE)
  have r: "r = Poll_Pending \<or> r = Poll_Ready None"
    using process_stream.end_is_reached [OF law Suc.prems(1) p] by auto
  with poll_recvD [OF law c(1)] c(2) Suc.prems(1) have "got (pp_rx s1) = acc (pp_rx s1)" by auto
  from Suc.IH [OF this q] r rs show ?case by auto
qed simp

text \<open>A runtime on this loader, before any subscription.\<close>

definition once_bpfx :: "((effect list \<times> string list) \<times> program list, unit, NetworkEvent qchan,
    ProcessEvent qchan, FileEvent qchan, MemoryEvent qchan) Bpfx" where
  "once_bpfx = \<lparr>bx_bpf = (([], []), []), bx_ringbuf = (), bx_network = None, bx_process = None, bx_file = None,
     bx_mem = None, bx_pending_renames = [], bx_config = BpfxConfig_default\<rparr>"

lemmas once_run = subscribe_file_def subscribe_process_def q_tokio_def q_mpsc_def once_bpfx_def BpfxConfig_default_def
  attach_file_probe_def attach_process_probe_def write_to_fiter_map_def write_to_map_def attach_lsm_probe_def
  attach_fexit_def attach_fentry_def attach_tracepoint_def load_attach_def once_aya_def obj_aya_def Let_def
  program_of_name_def all_programs_def when_steps_def

section \<open>Properties\<close>

text \<open>
  C26: a second file subscription on the same runtime always fails: the LSM program is loaded already.
  The first subscription stays registered and no program is attached or detached, but the maps have
  been written by then: the programs of the first subscription go on with the process filter and
  the file types of the second.
\<close>

theorem file_resubscription_fails:
  assumes "aya_law ay hist" and "loads_once ay loaded" and "maps_writable ay"
    and "subscribe_file ay tk f1 bx0 = (Inr tx, bx1)" and "subscribe_file ay tk f2 bx1 = (res, bx2)"
  shows "(\<exists>x. res = Inl (Err (Attach x))) \<and> bx_file bx2 = Some \<lparr>fr_filter = f1, fr_tx = tx\<rparr> \<and>
    hist (bx_bpf bx2) = hist (bx_bpf bx1) @ [WroteFilter 3 (ff_filter f2), WroteConfig 0 (ftf_mode (ff_file_mode f2))] \<and>
    attached (hist (bx_bpf bx2)) = attached (hist (bx_bpf bx1)) \<and>
    FILTER (fold apply_effect (hist (bx_bpf bx2)) s) 3 = Some (ff_filter f2) \<and>
    CONFIG (fold apply_effect (hist (bx_bpf bx2)) s) 0 = Some (ftf_mode (ff_file_mode f2))"
proof -
  note first = subscribe_file_cases [OF assms(4)] and second = subscribe_file_cases [OF assms(5)]
  have chan: "mk_channel (tk_file tk) (channel_capacity (bx_config bx1)) = Some tx" using first(1,3) by simp
  have f1: "attach_file_probe ay f1 (bx_bpf bx0) = (Inr (), bx_bpf bx1)" "bx_file bx1 = Some \<lparr>fr_filter = f1, fr_tx = tx\<rparr>"
    using first(2) [OF first(3) [OF refl]] by auto
  have "P_file_open \<in> attached (plan_file f1)" by (simp add: plan_file_def attached_def Let_def)
  with file_again.locks [OF assms(1,2), of f1] f1(1) have lsm: "P_file_open \<in> loaded (bx_bpf bx1)"
    unfolding locks_def by (metis fst_conv snd_conv subsetD)
  obtain b1 where w1: "write_to_fiter_map ay (Filters_File f2) OwnerFile (bx_bpf bx1) = (Inr (), b1)"
    using write_succeeds(1) [OF assms(1,3)] by blast
  obtain b2 where w2: "write_to_map ay f2 b1 = (Inr (), b2)" using write_succeeds(2) [OF assms(1,3)] by blast
  have h: "hist b1 = hist (bx_bpf bx1) @ [WroteFilter 3 (ff_filter f2)]"
    "hist b2 = hist b1 @ [WroteConfig 0 (ftf_mode (ff_file_mode f2))]"
    using write_performs(1) [OF assms(1), of "Filters_File f2" OwnerFile, unfolded performs_def, rule_format, of "bx_bpf bx1"]
      write_performs_as [OF assms(1), of f2, unfolded performs_def, rule_format, of b1] w1 w2 by simp_all
  have "P_file_open \<in> loaded b2"
    using lsm write_locks [OF assms(2), unfolded locks_def] w1 w2 by (metis snd_conv subsetD)
  moreover have "performs hist (attach_lsm_probe ay) (Attached Lsm P_file_open [''file_open''])"
    "locks loaded (attach_lsm_probe ay) [Attached Lsm P_file_open [''file_open'']]"
    using attach_performs(5) [OF assms(1), of P_file_open "''file_open''"]
      attach_locks(5) [OF assms(1,2), of P_file_open "''file_open''"] by simp_all
  ultimately obtain f b3 where b3: "attach_lsm_probe ay b2 = (Inl f, b3)" "hist b3 = hist b2"
    by (cases "attach_lsm_probe ay b2"; cases "fst (attach_lsm_probe ay b2)")
       (auto simp: performs_def locks_def attached_def dest!: spec [of _ b2])
  from b3(1) have x: "\<exists>x. f = Err (Attach x)"
    using attach_found(5) [OF assms(1), of P_file_open "''file_open''"]
    by (auto simp: load_attach_def split: option.splits prod.splits)
  have "attach_file_probe ay f2 (bx_bpf bx1) = (Inl f, b3)"
    by (simp add: attach_file_probe_def Let_def w1 w2 b3)
  with second(2) [OF chan] have "res = Inl f" "bx_bpf bx2 = b3" "bx_file bx2 = bx_file bx1" by auto
  with x f1(2) b3(2) h show ?thesis by simp
qed

theorem file_resubscription_fails_witness:
  "\<exists>tx bx1 res bx2. subscribe_file once_aya q_tokio FileFilter_OPEN once_bpfx = (Inr tx, bx1) \<and>
     subscribe_file once_aya q_tokio FileFilter_DELETE bx1 = (res, bx2) \<and> res = Inl (Err (Attach ())) \<and>
     bx_file bx2 = Some \<lparr>fr_filter = FileFilter_OPEN, fr_tx = tx\<rparr>"
proof -
  obtain tx bx1 where s1: "subscribe_file once_aya q_tokio FileFilter_OPEN once_bpfx = (Inr tx, bx1)"
    by (simp add: once_run FileFilter_OPEN_def FileFilter_of_mask_def FileMask_contains_def FileMask_consts)
  obtain res bx2 where s2: "subscribe_file once_aya q_tokio FileFilter_DELETE bx1 = (res, bx2)" by force
  from file_resubscription_fails [OF once_aya_laws s1 s2] s1 s2 show ?thesis by auto
qed



end
