(* ===== verification/Bpfx_Derive.thy ===== *)
theory Bpfx_Derive
  imports Bpfx_File Bpfx_Process Bpfx_Memory Bpfx_Network "HOL-Library.Multiset"
begin

text \<open>
  The comparisons that \<open>#[derive(PartialEq, Eq, PartialOrd, Ord)]\<close> generates for the events, their
  parts and the filters. A structure is compared field by field in the order of its declaration, an
  enumeration by its variant and, within a variant, by what the variant carries; the derived
  \<open>partial_cmp\<close> is \<open>Some\<close> of \<open>cmp\<close> and the derived equality is that of the values. Strings and
  addresses are compared byte by byte, as the standard library does; \<open>i32\<close> and \<open>isize\<close> as signed
  numbers. The locale \<open>rust_ord\<close> is the contract that the trait \<open>Ord\<close> asks of an implementation;
  it is discharged for every derived comparison, and gives a linear order of HOL.
\<close>

section \<open>Ordering\<close>

datatype Ordering = Less | Equal | Greater

fun reverse :: "Ordering \<Rightarrow> Ordering" where
  "reverse Less = Greater"
| "reverse Equal = Equal"
| "reverse Greater = Less"

fun then_with :: "Ordering \<Rightarrow> Ordering \<Rightarrow> Ordering" where
  "then_with Equal next = next"
| "then_with Less _ = Less"
| "then_with Greater _ = Greater"

definition cmp_ord :: "'a::linorder \<Rightarrow> 'a \<Rightarrow> Ordering" where
  "cmp_ord x y = (if x < y then Less else if x = y then Equal else Greater)"

fun cmp_list :: "('a \<Rightarrow> 'a \<Rightarrow> Ordering) \<Rightarrow> 'a list \<Rightarrow> 'a list \<Rightarrow> Ordering" where
  "cmp_list c [] [] = Equal"
| "cmp_list c [] (y # ys) = Less"
| "cmp_list c (x # xs) [] = Greater"
| "cmp_list c (x # xs) (y # ys) = then_with (c x y) (cmp_list c xs ys)"

definition cmp_char :: "char \<Rightarrow> char \<Rightarrow> Ordering" where
  "cmp_char x y = cmp_ord (of_char x :: nat) (of_char y)"

definition cmp_str :: "string \<Rightarrow> string \<Rightarrow> Ordering" where
  "cmp_str = cmp_list cmp_char"

definition cmp_signed :: "'a::len word \<Rightarrow> 'a word \<Rightarrow> Ordering" where
  "cmp_signed x y = cmp_ord (sint x) (sint y)"

section \<open>Structures\<close>

definition cmp_EventHeader :: "EventHeader \<Rightarrow> EventHeader \<Rightarrow> Ordering" where
  "cmp_EventHeader a b =
     then_with (cmp_ord (eh_timestamp_ns a) (eh_timestamp_ns b))
     (then_with (cmp_ord (eh_pid a) (eh_pid b))
     (then_with (cmp_ord (eh_tid a) (eh_tid b))
     (then_with (cmp_ord (eh_ppid a) (eh_ppid b))
     (then_with (cmp_ord (eh_uid a) (eh_uid b))
     (then_with (cmp_ord (eh_gid a) (eh_gid b))
     (cmp_str (eh_comm a) (eh_comm b)))))))"

fun FileType_index :: "FileType \<Rightarrow> nat" where
  "FileType_index Regular = 0"
| "FileType_index Directory = 1"
| "FileType_index CharDevice = 2"
| "FileType_index BlockDevice = 3"
| "FileType_index Fifo = 4"
| "FileType_index Symlink = 5"
| "FileType_index Socket = 6"
| "FileType_index Unknown = 7"

definition cmp_FileType :: "FileType \<Rightarrow> FileType \<Rightarrow> Ordering" where
  "cmp_FileType a b = cmp_ord (FileType_index a) (FileType_index b)"

definition cmp_FileOpenEvent :: "FileOpenEvent \<Rightarrow> FileOpenEvent \<Rightarrow> Ordering" where
  "cmp_FileOpenEvent a b =
     then_with (cmp_EventHeader (fo_header a) (fo_header b))
     (then_with (cmp_str (fo_file_path a) (fo_file_path b))
     (then_with (cmp_FileType (fo_file_type a) (fo_file_type b))
     (then_with (cmp_ord (fo_inode a) (fo_inode b))
     (then_with (cmp_signed (fo_retval a) (fo_retval b))
     (cmp_ord (fo_flags a) (fo_flags b))))))"

definition cmp_FileCloseEvent :: "FileCloseEvent \<Rightarrow> FileCloseEvent \<Rightarrow> Ordering" where
  "cmp_FileCloseEvent a b =
     then_with (cmp_EventHeader (fc_header a) (fc_header b))
     (then_with (cmp_str (fc_file_path a) (fc_file_path b))
     (then_with (cmp_FileType (fc_file_type a) (fc_file_type b))
     (then_with (cmp_ord (fc_inode a) (fc_inode b))
     (then_with (cmp_signed (fc_retval a) (fc_retval b))
     (cmp_ord (fc_flags a) (fc_flags b))))))"

definition cmp_FileReadEvent :: "FileReadEvent \<Rightarrow> FileReadEvent \<Rightarrow> Ordering" where
  "cmp_FileReadEvent a b =
     then_with (cmp_EventHeader (fr_header a) (fr_header b))
     (then_with (cmp_str (fr_file_path a) (fr_file_path b))
     (then_with (cmp_FileType (fr_file_type a) (fr_file_type b))
     (then_with (cmp_ord (fr_inode a) (fr_inode b))
     (then_with (cmp_signed (fr_retval a) (fr_retval b))
     (cmp_ord (fr_flags a) (fr_flags b))))))"

definition cmp_FileWriteEvent :: "FileWriteEvent \<Rightarrow> FileWriteEvent \<Rightarrow> Ordering" where
  "cmp_FileWriteEvent a b =
     then_with (cmp_EventHeader (fw_header a) (fw_header b))
     (then_with (cmp_str (fw_file_path a) (fw_file_path b))
     (then_with (cmp_FileType (fw_file_type a) (fw_file_type b))
     (then_with (cmp_ord (fw_inode a) (fw_inode b))
     (then_with (cmp_signed (fw_retval a) (fw_retval b))
     (cmp_ord (fw_flags a) (fw_flags b))))))"

definition cmp_FileDeleteEvent :: "FileDeleteEvent \<Rightarrow> FileDeleteEvent \<Rightarrow> Ordering" where
  "cmp_FileDeleteEvent a b =
     then_with (cmp_EventHeader (fd_header a) (fd_header b))
     (then_with (cmp_str (fd_filename a) (fd_filename b))
     (then_with (cmp_FileType (fd_file_type a) (fd_file_type b))
     (cmp_signed (fd_retval a) (fd_retval b))))"

definition cmp_FileRenameEvent :: "FileRenameEvent \<Rightarrow> FileRenameEvent \<Rightarrow> Ordering" where
  "cmp_FileRenameEvent a b =
     then_with (cmp_EventHeader (fn_header a) (fn_header b))
     (then_with (cmp_str (fn_old_filename a) (fn_old_filename b))
     (then_with (cmp_str (fn_new_filename a) (fn_new_filename b))
     (then_with (cmp_FileType (fn_file_type a) (fn_file_type b))
     (then_with (cmp_ord (fn_flags a) (fn_flags b))
     (cmp_signed (fn_retval a) (fn_retval b))))))"

definition cmp_ProcessStartEvent :: "ProcessStartEvent \<Rightarrow> ProcessStartEvent \<Rightarrow> Ordering" where
  "cmp_ProcessStartEvent a b =
     then_with (cmp_EventHeader (ps_header a) (ps_header b))
     (cmp_str (ps_filename a) (ps_filename b))"

definition cmp_ProcessExitEvent :: "ProcessExitEvent \<Rightarrow> ProcessExitEvent \<Rightarrow> Ordering" where
  "cmp_ProcessExitEvent a b =
     then_with (cmp_EventHeader (px_header a) (px_header b))
     (cmp_signed (px_exit_code a) (px_exit_code b))"

definition cmp_ProcessForkEvent :: "ProcessForkEvent \<Rightarrow> ProcessForkEvent \<Rightarrow> Ordering" where
  "cmp_ProcessForkEvent a b =
     then_with (cmp_EventHeader (pf_parent a) (pf_parent b))
     (then_with (cmp_ord (pf_child_pid a) (pf_child_pid b))
     (cmp_str (pf_child_comm a) (pf_child_comm b)))"

definition cmp_MemoryMapEvent :: "MemoryMapEvent \<Rightarrow> MemoryMapEvent \<Rightarrow> Ordering" where
  "cmp_MemoryMapEvent a b =
     then_with (cmp_EventHeader (mm_header a) (mm_header b))
     (then_with (cmp_ord (mm_requested_address a) (mm_requested_address b))
     (then_with (cmp_ord (mm_length a) (mm_length b))
     (then_with (cmp_ord (mm_protection a) (mm_protection b))
     (then_with (cmp_ord (mm_flags a) (mm_flags b))
     (cmp_ord (mm_mapped_address a) (mm_mapped_address b))))))"

definition cmp_MemoryUnmapEvent :: "MemoryUnmapEvent \<Rightarrow> MemoryUnmapEvent \<Rightarrow> Ordering" where
  "cmp_MemoryUnmapEvent a b =
     then_with (cmp_EventHeader (mu_header a) (mu_header b))
     (then_with (cmp_ord (mu_requested_address a) (mu_requested_address b))
     (then_with (cmp_ord (mu_length a) (mu_length b))
     (cmp_ord (mu_mapped_address a) (mu_mapped_address b))))"

fun Protocol_index :: "Protocol \<Rightarrow> nat" where
  "Protocol_index Tcp = 0"
| "Protocol_index Udp = 1"

definition cmp_Protocol :: "Protocol \<Rightarrow> Protocol \<Rightarrow> Ordering" where
  "cmp_Protocol a b = cmp_ord (Protocol_index a) (Protocol_index b)"

text \<open>\<open>std::net::IpAddr\<close>: an IPv4 address is before every IPv6 address.\<close>

fun cmp_IpAddr :: "IpAddr \<Rightarrow> IpAddr \<Rightarrow> Ordering" where
  "cmp_IpAddr (IpV4 a b c d) (IpV4 a' b' c' d') = cmp_list cmp_ord [a, b, c, d] [a', b', c', d']"
| "cmp_IpAddr (IpV4 _ _ _ _) (IpV6 _) = Less"
| "cmp_IpAddr (IpV6 _) (IpV4 _ _ _ _) = Greater"
| "cmp_IpAddr (IpV6 x) (IpV6 y) = cmp_list cmp_ord x y"

definition cmp_SocketEndpoints :: "SocketEndpoints \<Rightarrow> SocketEndpoints \<Rightarrow> Ordering" where
  "cmp_SocketEndpoints a b =
     then_with (cmp_IpAddr (se_local_ip a) (se_local_ip b))
     (then_with (cmp_ord (se_local_port a) (se_local_port b))
     (then_with (cmp_IpAddr (se_remote_ip a) (se_remote_ip b))
     (cmp_ord (se_remote_port a) (se_remote_port b))))"

definition cmp_ConnectEvent :: "ConnectEvent \<Rightarrow> ConnectEvent \<Rightarrow> Ordering" where
  "cmp_ConnectEvent a b =
     then_with (cmp_EventHeader (ce_header a) (ce_header b))
     (then_with (cmp_Protocol (ce_protocol a) (ce_protocol b))
     (then_with (cmp_SocketEndpoints (ce_endpoints a) (ce_endpoints b))
     (cmp_signed (ce_retval a) (ce_retval b))))"

definition cmp_AcceptEvent :: "AcceptEvent \<Rightarrow> AcceptEvent \<Rightarrow> Ordering" where
  "cmp_AcceptEvent a b =
     then_with (cmp_EventHeader (ae_header a) (ae_header b))
     (then_with (cmp_Protocol (ae_protocol a) (ae_protocol b))
     (cmp_SocketEndpoints (ae_endpoints a) (ae_endpoints b)))"

definition cmp_CloseEvent :: "CloseEvent \<Rightarrow> CloseEvent \<Rightarrow> Ordering" where
  "cmp_CloseEvent a b =
     then_with (cmp_EventHeader (cl_header a) (cl_header b))
     (then_with (cmp_Protocol (cl_protocol a) (cl_protocol b))
     (cmp_SocketEndpoints (cl_endpoints a) (cl_endpoints b)))"

definition cmp_BindEvent :: "BindEvent \<Rightarrow> BindEvent \<Rightarrow> Ordering" where
  "cmp_BindEvent a b =
     then_with (cmp_EventHeader (be_header a) (be_header b))
     (then_with (cmp_Protocol (be_protocol a) (be_protocol b))
     (then_with (cmp_SocketEndpoints (be_endpoints a) (be_endpoints b))
     (cmp_signed (be_retval a) (be_retval b))))"

definition cmp_ListenEvent :: "ListenEvent \<Rightarrow> ListenEvent \<Rightarrow> Ordering" where
  "cmp_ListenEvent a b =
     then_with (cmp_EventHeader (le_header a) (le_header b))
     (then_with (cmp_Protocol (le_protocol a) (le_protocol b))
     (then_with (cmp_SocketEndpoints (le_endpoints a) (le_endpoints b))
     (cmp_signed (le_retval a) (le_retval b))))"

section \<open>Enumerations\<close>

fun FileEvent_index :: "FileEvent \<Rightarrow> nat" where
  "FileEvent_index (FileEvent_Open _) = 0"
| "FileEvent_index (FileEvent_Read _) = 1"
| "FileEvent_index (FileEvent_Close _) = 2"
| "FileEvent_index (FileEvent_Write _) = 3"
| "FileEvent_index (FileEvent_Delete _) = 4"
| "FileEvent_index (FileEvent_Rename _) = 5"

fun cmp_FileEvent :: "FileEvent \<Rightarrow> FileEvent \<Rightarrow> Ordering" where
  "cmp_FileEvent (FileEvent_Open a) (FileEvent_Open b) = cmp_FileOpenEvent a b"
| "cmp_FileEvent (FileEvent_Read a) (FileEvent_Read b) = cmp_FileReadEvent a b"
| "cmp_FileEvent (FileEvent_Close a) (FileEvent_Close b) = cmp_FileCloseEvent a b"
| "cmp_FileEvent (FileEvent_Write a) (FileEvent_Write b) = cmp_FileWriteEvent a b"
| "cmp_FileEvent (FileEvent_Delete a) (FileEvent_Delete b) = cmp_FileDeleteEvent a b"
| "cmp_FileEvent (FileEvent_Rename a) (FileEvent_Rename b) = cmp_FileRenameEvent a b"
| "cmp_FileEvent a b = cmp_ord (FileEvent_index a) (FileEvent_index b)"

fun ProcessEvent_index :: "ProcessEvent \<Rightarrow> nat" where
  "ProcessEvent_index (ProcessEvent_Start _) = 0"
| "ProcessEvent_index (ProcessEvent_Fork _) = 1"
| "ProcessEvent_index (ProcessEvent_Exit _) = 2"

fun cmp_ProcessEvent :: "ProcessEvent \<Rightarrow> ProcessEvent \<Rightarrow> Ordering" where
  "cmp_ProcessEvent (ProcessEvent_Start a) (ProcessEvent_Start b) = cmp_ProcessStartEvent a b"
| "cmp_ProcessEvent (ProcessEvent_Fork a) (ProcessEvent_Fork b) = cmp_ProcessForkEvent a b"
| "cmp_ProcessEvent (ProcessEvent_Exit a) (ProcessEvent_Exit b) = cmp_ProcessExitEvent a b"
| "cmp_ProcessEvent a b = cmp_ord (ProcessEvent_index a) (ProcessEvent_index b)"

fun MemoryEvent_index :: "MemoryEvent \<Rightarrow> nat" where
  "MemoryEvent_index (MemoryEvent_MemoryMap _) = 0"
| "MemoryEvent_index (MemoryEvent_MemoryUnMap _) = 1"

fun cmp_MemoryEvent :: "MemoryEvent \<Rightarrow> MemoryEvent \<Rightarrow> Ordering" where
  "cmp_MemoryEvent (MemoryEvent_MemoryMap a) (MemoryEvent_MemoryMap b) = cmp_MemoryMapEvent a b"
| "cmp_MemoryEvent (MemoryEvent_MemoryUnMap a) (MemoryEvent_MemoryUnMap b) = cmp_MemoryUnmapEvent a b"
| "cmp_MemoryEvent a b = cmp_ord (MemoryEvent_index a) (MemoryEvent_index b)"

fun NetworkEvent_index :: "NetworkEvent \<Rightarrow> nat" where
  "NetworkEvent_index (NetworkEvent_Connect _) = 0"
| "NetworkEvent_index (NetworkEvent_Accept _) = 1"
| "NetworkEvent_index (NetworkEvent_Close _) = 2"
| "NetworkEvent_index (NetworkEvent_Bind _) = 3"
| "NetworkEvent_index (NetworkEvent_Listen _) = 4"

fun cmp_NetworkEvent :: "NetworkEvent \<Rightarrow> NetworkEvent \<Rightarrow> Ordering" where
  "cmp_NetworkEvent (NetworkEvent_Connect a) (NetworkEvent_Connect b) = cmp_ConnectEvent a b"
| "cmp_NetworkEvent (NetworkEvent_Accept a) (NetworkEvent_Accept b) = cmp_AcceptEvent a b"
| "cmp_NetworkEvent (NetworkEvent_Close a) (NetworkEvent_Close b) = cmp_CloseEvent a b"
| "cmp_NetworkEvent (NetworkEvent_Bind a) (NetworkEvent_Bind b) = cmp_BindEvent a b"
| "cmp_NetworkEvent (NetworkEvent_Listen a) (NetworkEvent_Listen b) = cmp_ListenEvent a b"
| "cmp_NetworkEvent a b = cmp_ord (NetworkEvent_index a) (NetworkEvent_index b)"

fun FileEventKey_index :: "FileEventKey \<Rightarrow> nat" where
  "FileEventKey_index (Key_Read _ _) = 0"
| "FileEventKey_index (Key_Write _ _) = 1"
| "FileEventKey_index (Key_Open _ _) = 2"
| "FileEventKey_index (Key_Close _ _) = 3"
| "FileEventKey_index (Key_Rename _) = 4"
| "FileEventKey_index (Key_Delete _) = 5"

fun cmp_FileEventKey :: "FileEventKey \<Rightarrow> FileEventKey \<Rightarrow> Ordering" where
  "cmp_FileEventKey (Key_Read i r) (Key_Read i' r') = then_with (cmp_ord i i') (cmp_signed r r')"
| "cmp_FileEventKey (Key_Write i r) (Key_Write i' r') = then_with (cmp_ord i i') (cmp_signed r r')"
| "cmp_FileEventKey (Key_Open i f) (Key_Open i' f') = then_with (cmp_ord i i') (cmp_ord f f')"
| "cmp_FileEventKey (Key_Close i r) (Key_Close i' r') = then_with (cmp_ord i i') (cmp_signed r r')"
| "cmp_FileEventKey (Key_Rename r) (Key_Rename r') = cmp_signed r r'"
| "cmp_FileEventKey (Key_Delete r) (Key_Delete r') = cmp_signed r r'"
| "cmp_FileEventKey a b = cmp_ord (FileEventKey_index a) (FileEventKey_index b)"

section \<open>Filters\<close>

fun FilterKey_index :: "FilterKey \<Rightarrow> nat" where
  "FilterKey_index FilterNone = 0"
| "FilterKey_index (Pid _) = 1"
| "FilterKey_index (Tid _) = 2"
| "FilterKey_index (Ppid _) = 3"
| "FilterKey_index (Uid _) = 4"
| "FilterKey_index (Gid _) = 5"

fun cmp_FilterKey :: "FilterKey \<Rightarrow> FilterKey \<Rightarrow> Ordering" where
  "cmp_FilterKey (Pid a) (Pid b) = cmp_ord a b"
| "cmp_FilterKey (Tid a) (Tid b) = cmp_ord a b"
| "cmp_FilterKey (Ppid a) (Ppid b) = cmp_ord a b"
| "cmp_FilterKey (Uid a) (Uid b) = cmp_ord a b"
| "cmp_FilterKey (Gid a) (Gid b) = cmp_ord a b"
| "cmp_FilterKey a b = cmp_ord (FilterKey_index a) (FilterKey_index b)"

definition cmp_FileModeFilter :: "FileModeFilter \<Rightarrow> FileModeFilter \<Rightarrow> Ordering" where
  "cmp_FileModeFilter a b = cmp_ord (mode a) (mode b)"

definition cmp_FileTypeFilter :: "FileTypeFilter \<Rightarrow> FileTypeFilter \<Rightarrow> Ordering" where
  "cmp_FileTypeFilter a b = cmp_FileModeFilter (ftf_mode a) (ftf_mode b)"

definition cmp_FileFilter :: "FileFilter \<Rightarrow> FileFilter \<Rightarrow> Ordering" where
  "cmp_FileFilter a b =
     then_with (cmp_ord (ff_event_type a) (ff_event_type b))
     (then_with (cmp_FileTypeFilter (ff_file_mode a) (ff_file_mode b))
     (cmp_FilterKey (ff_filter a) (ff_filter b)))"

definition cmp_MemoryFilter :: "MemoryFilter \<Rightarrow> MemoryFilter \<Rightarrow> Ordering" where
  "cmp_MemoryFilter a b =
     then_with (cmp_ord (mf_mask a) (mf_mask b)) (cmp_FilterKey (mf_filter a) (mf_filter b))"


section \<open>The contract of the trait Ord\<close>

text \<open>
  \<open>ord_on key cmp\<close>: the comparison looks at \<open>key\<close> only and orders its values totally. A derived
  comparison is put together from the comparisons of the parts, and its key is the tuple of them.
\<close>

definition ord_on :: "('a \<Rightarrow> 'k) \<Rightarrow> ('a \<Rightarrow> 'a \<Rightarrow> Ordering) \<Rightarrow> bool" where
  "ord_on key c =
     ((\<forall>x y. c x y = Equal \<longleftrightarrow> key x = key y) \<and> (\<forall>x y. c y x = reverse (c x y)) \<and>
      (\<forall>x y z. c x y = Less \<longrightarrow> c y z = Less \<longrightarrow> c x z = Less))"

lemma reverse_eq [simp]:
  "reverse c = Less \<longleftrightarrow> c = Greater" "reverse c = Equal \<longleftrightarrow> c = Equal" "reverse c = Greater \<longleftrightarrow> c = Less"
  by (cases c; simp)+

locale rust_ord =
  fixes cmp :: "'a \<Rightarrow> 'a \<Rightarrow> Ordering"
  assumes total: "ord_on id cmp"
begin

lemma cmp_eq: "cmp x y = Equal \<longleftrightarrow> x = y"
  and cmp_rev: "cmp y x = reverse (cmp x y)"
  and cmp_trans: "cmp x y = Less \<Longrightarrow> cmp y z = Less \<Longrightarrow> cmp x z = Less"
  using total unfolding ord_on_def id_def by blast+

lemma greater_iff: "cmp x y = Greater \<longleftrightarrow> cmp y x = Less"
  by (subst cmp_rev) simp

lemma le_cases: "cmp x y \<noteq> Greater \<longleftrightarrow> cmp x y = Less \<or> x = y"
  using cmp_eq [of x y] by (cases "cmp x y") simp_all

lemma is_linorder: "class.linorder (\<lambda>x y. cmp x y \<noteq> Greater) (\<lambda>x y. cmp x y = Less)"
proof
  fix x y z
  show "cmp x y = Less \<longleftrightarrow> cmp x y \<noteq> Greater \<and> \<not> cmp y x \<noteq> Greater"
    using greater_iff [of y x] by auto
  show "cmp x x \<noteq> Greater" using cmp_eq [of x x] by simp
  show "cmp x z \<noteq> Greater" if "cmp x y \<noteq> Greater" "cmp y z \<noteq> Greater"
    using that cmp_trans [of x y z] unfolding le_cases by blast
  show "x = y" if "cmp x y \<noteq> Greater" "cmp y x \<noteq> Greater"
    using that greater_iff [of x y] unfolding le_cases by auto
  show "cmp x y \<noteq> Greater \<or> cmp y x \<noteq> Greater"
    using greater_iff [of x y] by auto
qed

lemma unique_sort: "\<exists>!ys. mset ys = mset xs \<and> sorted_wrt (\<lambda>x y. cmp x y \<noteq> Greater) ys"
proof
  let ?ys = "linorder.sort_key (\<lambda>x y. cmp x y \<noteq> Greater) (\<lambda>x. x) xs"
  show "mset ?ys = mset xs \<and> sorted_wrt (\<lambda>x y. cmp x y \<noteq> Greater) ?ys"
    by (simp add: linorder.mset_sort [OF is_linorder] linorder.sorted_sort [OF is_linorder])
  show "ys = ?ys" if "mset ys = mset xs \<and> sorted_wrt (\<lambda>x y. cmp x y \<noteq> Greater) ys" for ys
    using that linorder.properties_for_sort [OF is_linorder, of ys xs] by simp
qed

end

named_theorems ord "comparisons of the parts of a derived comparison"

lemma then_with_eq [simp]:
  "then_with a b = Less \<longleftrightarrow> a = Less \<or> a = Equal \<and> b = Less"
  "then_with a b = Equal \<longleftrightarrow> a = Equal \<and> b = Equal"
  "then_with a b = Greater \<longleftrightarrow> a = Greater \<or> a = Equal \<and> b = Greater"
  by (cases a; simp)+

lemma reverse_then: "reverse (then_with a b) = then_with (reverse a) (reverse b)"
  by (cases a) simp_all

lemma cmp_ord_eq [simp]:
  "cmp_ord x y = Less \<longleftrightarrow> x < y" "cmp_ord x y = Equal \<longleftrightarrow> x = y" "cmp_ord x y = Greater \<longleftrightarrow> y < x"
  by (auto simp: cmp_ord_def)

lemma cmp_signed_eq [simp]:
  "cmp_signed x y = Less \<longleftrightarrow> sint x < sint y" "cmp_signed x y = Equal \<longleftrightarrow> x = y"
  "cmp_signed x y = Greater \<longleftrightarrow> sint y < sint x"
  by (auto simp: cmp_signed_def signed_word_eqI)

lemma ord_onD:
  assumes "ord_on key c"
  shows "c x y = Equal \<longleftrightarrow> key x = key y" and "c y x = reverse (c x y)"
    and "c x y = Less \<Longrightarrow> c y z = Less \<Longrightarrow> c x z = Less"
  using assms unfolding ord_on_def by blast+

lemma ord_on_subst:
  assumes "ord_on key c"
  shows "c x y = Less \<Longrightarrow> key y = key z \<Longrightarrow> c x z = Less" and "key x = key y \<Longrightarrow> c y z = Less \<Longrightarrow> c x z = Less"
proof -
  show "c x z = Less" if "c x y = Less" "key y = key z" for x y z
  proof (cases "c x z")
    case Equal
    then have "c x y = Equal" using that(2) by (simp add: ord_onD(1) [OF assms])
    with that(1) show ?thesis by simp
  next
    case Greater
    then have "c z x = Less" using ord_onD(2) [OF assms, of z x] by simp
    from ord_onD(3) [OF assms this that(1)] have "c z y = Less" .
    with that(2) ord_onD(1) [OF assms, of z y] show ?thesis by simp
  qed simp
  show "c x z = Less" if "key x = key y" "c y z = Less" for x y z
  proof (cases "c x z")
    case Equal
    then have "c y z = Equal" using that(1) by (simp add: ord_onD(1) [OF assms])
    with that(2) show ?thesis by simp
  next
    case Greater
    then have "c z x = Less" using ord_onD(2) [OF assms, of z x] by simp
    from ord_onD(3) [OF assms that(2) this] have "c y x = Less" .
    with that(1) ord_onD(1) [OF assms, of y x] show ?thesis by simp
  qed simp
qed

lemma ord_then [ord]:
  assumes "ord_on f c" and "ord_on g d"
  shows "ord_on (\<lambda>x. (f x, g x)) (\<lambda>x y. then_with (c x y) (d x y))"
  unfolding ord_on_def
proof (intro conjI allI impI)
  fix x y z
  let ?c = "\<lambda>x y. then_with (c x y) (d x y)"
  show "?c x y = Equal \<longleftrightarrow> (f x, g x) = (f y, g y)"
    by (simp add: ord_onD(1) [OF assms(1)] ord_onD(1) [OF assms(2)])
  show "?c y x = reverse (?c x y)"
    by (simp add: reverse_then ord_onD(2) [OF assms(1), of y x] ord_onD(2) [OF assms(2), of y x])
  assume "?c x y = Less" and "?c y z = Less"
  then have "c x z = Less \<or> f x = f z \<and> d x z = Less"
    using ord_onD(3) [OF assms(1), of x y z] ord_onD(3) [OF assms(2), of x y z]
      ord_on_subst [OF assms(1), of x y z] ord_onD(1) [OF assms(1), of x y] ord_onD(1) [OF assms(1), of y z]
    by auto
  then show "?c x z = Less" by (simp add: ord_onD(1) [OF assms(1)])
qed

lemma ord_key: "ord_on id c \<Longrightarrow> ord_on f (\<lambda>x y. c (f x) (f y))"
  unfolding ord_on_def id_def by blast

lemma ord_inj: "ord_on key c \<Longrightarrow> (\<And>x y. key x = key y \<Longrightarrow> x = y) \<Longrightarrow> ord_on id c"
  unfolding ord_on_def id_def by blast

lemma ord_linorder: "ord_on id (cmp_ord :: 'a::linorder \<Rightarrow> 'a \<Rightarrow> Ordering)"
  by (auto simp: ord_on_def cmp_ord_def)

lemma ord_signed: "ord_on id (cmp_signed :: 'a::len word \<Rightarrow> 'a word \<Rightarrow> Ordering)"
  by (auto simp: ord_on_def cmp_signed_def cmp_ord_def signed_word_eqI)

lemma ord_list:
  assumes "ord_on id c"
  shows "ord_on id (cmp_list c)"
proof -
  have "cmp_list c x y = Equal \<longleftrightarrow> x = y" for x y
  proof (induction x arbitrary: y)
    case Nil
    then show ?case by (cases y) simp_all
  next
    case (Cons a x)
    then show ?case by (cases y) (simp_all add: ord_onD(1) [OF assms])
  qed
  moreover have "cmp_list c y x = reverse (cmp_list c x y)" for x y
  proof (induction x arbitrary: y)
    case Nil
    then show ?case by (cases y) simp_all
  next
    case (Cons a x)
    then show ?case by (cases y) (simp_all add: reverse_then ord_onD(2) [OF assms, of _ a])
  qed
  moreover have "cmp_list c x z = Less" if "cmp_list c x y = Less" "cmp_list c y z = Less" for x y z
    using that
  proof (induction x arbitrary: y z)
    case Nil
    then show ?case by (cases y; cases z) simp_all
  next
    case (Cons a x)
    then obtain b y' where y: "y = b # y'" by (cases y) auto
    with Cons.prems obtain d z' where z: "z = d # z'" by (cases z) auto
    from Cons y z ord_onD(3) [OF assms, of a b d] ord_onD(1) [OF assms] show ?case by auto
  qed
  ultimately show ?thesis unfolding ord_on_def id_def by blast
qed

lemma ord_char: "ord_on id cmp_char"
  by (auto simp: ord_on_def cmp_char_def cmp_ord_def)

lemma ord_str: "ord_on id cmp_str"
  unfolding cmp_str_def by (rule ord_list [OF ord_char])

lemmas ord_basic [ord] = ord_linorder [THEN ord_key] ord_signed [THEN ord_key] ord_str [THEN ord_key]

text \<open>An enumeration: different variants by their index, one variant by what it carries.\<close>

lemma ord_enum:
  assumes diff: "\<And>x y. index x \<noteq> (index y :: nat) \<Longrightarrow> c x y = cmp_ord (index x) (index y)"
    and same: "\<And>x y. index x = index y \<Longrightarrow> (c x y = Equal \<longleftrightarrow> x = y) \<and> c y x = reverse (c x y)"
    and trans: "\<And>x y z. index x = index y \<Longrightarrow> index y = index z \<Longrightarrow> c x y = Less \<Longrightarrow> c y z = Less \<Longrightarrow> c x z = Less"
  shows "ord_on id c"
proof -
  have eq: "c x y = Equal \<longleftrightarrow> x = y" for x y using diff [of x y] same [of x y]
    by (cases "index x = index y") auto
  have rev: "c y x = reverse (c x y)" for x y
    using diff [of x y] diff [of y x] same [of x y] by (cases "index x = index y") (auto simp: cmp_ord_def)
  have le: "c x y = Less \<Longrightarrow> index x \<le> index y" for x y using diff [of x y]
    by (cases "index x = index y") auto
  have "c x z = Less" if "c x y = Less" "c y z = Less" for x y z
  proof (cases "index x = index z")
    case True
    with le [OF that(1)] le [OF that(2)] have "index x = index y" "index y = index z" by simp_all
    from trans [OF this that] show ?thesis .
  next
    case False
    with le [OF that(1)] le [OF that(2)] diff [of x z] show ?thesis by simp
  qed
  with eq rev show ?thesis unfolding ord_on_def id_def by blast
qed


section \<open>Every derived comparison is lawful\<close>

lemma FileType_index_inj: "FileType_index a = FileType_index b \<Longrightarrow> a = b"
  by (cases a; cases b) simp_all

lemma Protocol_index_inj: "Protocol_index a = Protocol_index b \<Longrightarrow> a = b"
  by (cases a; cases b) simp_all

fun ip_key :: "IpAddr \<Rightarrow> nat \<times> u8 list" where
  "ip_key (IpV4 a b c d) = (0, [a, b, c, d])"
| "ip_key (IpV6 x) = (1, x)"

lemma cmp_IpAddr_key:
  "cmp_IpAddr x y = then_with (cmp_ord (fst (ip_key x)) (fst (ip_key y)))
     (cmp_list cmp_ord (snd (ip_key x)) (snd (ip_key y)))"
  by (cases x; cases y) (simp_all add: cmp_ord_def)

lemma ord_IpAddr: "ord_on id cmp_IpAddr"
proof -
  have "ord_on (\<lambda>x. (fst (ip_key x), snd (ip_key x))) cmp_IpAddr"
    unfolding cmp_IpAddr_key [abs_def]
    by (intro ord_then ord_key [OF ord_linorder] ord_key [OF ord_list [OF ord_linorder]])
  then show ?thesis
  proof (rule ord_inj)
    show "x = y" if "(fst (ip_key x), snd (ip_key x)) = (fst (ip_key y), snd (ip_key y))" for x y
      using that by (cases x; cases y) simp_all
  qed
qed

lemma ord_FileType: "ord_on id cmp_FileType"
  unfolding cmp_FileType_def [abs_def] by (rule ord_inj [OF ord_key [OF ord_linorder]]) (rule FileType_index_inj)

lemma ord_Protocol: "ord_on id cmp_Protocol"
  unfolding cmp_Protocol_def [abs_def] by (rule ord_inj [OF ord_key [OF ord_linorder]]) (rule Protocol_index_inj)

lemma ord_EventHeader: "ord_on id cmp_EventHeader"
  unfolding cmp_EventHeader_def [abs_def] by (rule ord_inj, (rule ord)+) simp

lemmas ord_parts [ord] = ord_EventHeader [THEN ord_key] ord_FileType [THEN ord_key] ord_Protocol [THEN ord_key]
  ord_IpAddr [THEN ord_key]

lemma ord_FileOpenEvent: "ord_on id cmp_FileOpenEvent"
  unfolding cmp_FileOpenEvent_def [abs_def] by (rule ord_inj, (rule ord)+) simp

lemma ord_FileCloseEvent: "ord_on id cmp_FileCloseEvent"
  unfolding cmp_FileCloseEvent_def [abs_def] by (rule ord_inj, (rule ord)+) simp

lemma ord_FileReadEvent: "ord_on id cmp_FileReadEvent"
  unfolding cmp_FileReadEvent_def [abs_def] by (rule ord_inj, (rule ord)+) simp

lemma ord_FileWriteEvent: "ord_on id cmp_FileWriteEvent"
  unfolding cmp_FileWriteEvent_def [abs_def] by (rule ord_inj, (rule ord)+) simp

lemma ord_FileDeleteEvent: "ord_on id cmp_FileDeleteEvent"
  unfolding cmp_FileDeleteEvent_def [abs_def] by (rule ord_inj, (rule ord)+) simp

lemma ord_FileRenameEvent: "ord_on id cmp_FileRenameEvent"
  unfolding cmp_FileRenameEvent_def [abs_def] by (rule ord_inj, (rule ord)+) simp

lemma ord_ProcessStartEvent: "ord_on id cmp_ProcessStartEvent"
  unfolding cmp_ProcessStartEvent_def [abs_def] by (rule ord_inj, (rule ord)+) simp

lemma ord_ProcessExitEvent: "ord_on id cmp_ProcessExitEvent"
  unfolding cmp_ProcessExitEvent_def [abs_def] by (rule ord_inj, (rule ord)+) simp

lemma ord_ProcessForkEvent: "ord_on id cmp_ProcessForkEvent"
  unfolding cmp_ProcessForkEvent_def [abs_def] by (rule ord_inj, (rule ord)+) simp

lemma ord_MemoryMapEvent: "ord_on id cmp_MemoryMapEvent"
  unfolding cmp_MemoryMapEvent_def [abs_def] by (rule ord_inj, (rule ord)+) simp

lemma ord_MemoryUnmapEvent: "ord_on id cmp_MemoryUnmapEvent"
  unfolding cmp_MemoryUnmapEvent_def [abs_def] by (rule ord_inj, (rule ord)+) simp

lemma ord_SocketEndpoints: "ord_on id cmp_SocketEndpoints"
  unfolding cmp_SocketEndpoints_def [abs_def] by (rule ord_inj, (rule ord)+) simp

lemmas ord_endpoints [ord] = ord_SocketEndpoints [THEN ord_key]

lemma ord_ConnectEvent: "ord_on id cmp_ConnectEvent"
  unfolding cmp_ConnectEvent_def [abs_def] by (rule ord_inj, (rule ord)+) simp

lemma ord_AcceptEvent: "ord_on id cmp_AcceptEvent"
  unfolding cmp_AcceptEvent_def [abs_def] by (rule ord_inj, (rule ord)+) simp

lemma ord_CloseEvent: "ord_on id cmp_CloseEvent"
  unfolding cmp_CloseEvent_def [abs_def] by (rule ord_inj, (rule ord)+) simp

lemma ord_BindEvent: "ord_on id cmp_BindEvent"
  unfolding cmp_BindEvent_def [abs_def] by (rule ord_inj, (rule ord)+) simp

lemma ord_ListenEvent: "ord_on id cmp_ListenEvent"
  unfolding cmp_ListenEvent_def [abs_def] by (rule ord_inj, (rule ord)+) simp

lemma ord_FileModeFilter: "ord_on id cmp_FileModeFilter"
  unfolding cmp_FileModeFilter_def [abs_def] by (rule ord_inj, rule ord) simp

lemma ord_FileTypeFilter: "ord_on id cmp_FileTypeFilter"
  unfolding cmp_FileTypeFilter_def [abs_def]
  by (rule ord_inj [OF ord_key [OF ord_FileModeFilter]]) (simp add: FileTypeFilter.expand)

lemma ord_FileEvent: "ord_on id cmp_FileEvent"
proof (rule ord_enum [where index = FileEvent_index])
  note eq = ord_onD(1) [OF ord_FileOpenEvent] ord_onD(1) [OF ord_FileReadEvent] ord_onD(1) [OF ord_FileCloseEvent] ord_onD(1) [OF ord_FileWriteEvent] ord_onD(1) [OF ord_FileDeleteEvent] ord_onD(1) [OF ord_FileRenameEvent]
    and rev = ord_onD(2) [OF ord_FileOpenEvent] ord_onD(2) [OF ord_FileReadEvent] ord_onD(2) [OF ord_FileCloseEvent] ord_onD(2) [OF ord_FileWriteEvent] ord_onD(2) [OF ord_FileDeleteEvent] ord_onD(2) [OF ord_FileRenameEvent]
    and less = ord_onD(3) [OF ord_FileOpenEvent] ord_onD(3) [OF ord_FileReadEvent] ord_onD(3) [OF ord_FileCloseEvent] ord_onD(3) [OF ord_FileWriteEvent] ord_onD(3) [OF ord_FileDeleteEvent] ord_onD(3) [OF ord_FileRenameEvent]
  fix x y z :: FileEvent
  show "FileEvent_index x \<noteq> FileEvent_index y \<Longrightarrow> cmp_FileEvent x y = cmp_ord (FileEvent_index x) (FileEvent_index y)"
    by (cases x; cases y) simp_all
  show "FileEvent_index x = FileEvent_index y \<Longrightarrow> (cmp_FileEvent x y = Equal \<longleftrightarrow> x = y) \<and> cmp_FileEvent y x = reverse (cmp_FileEvent x y)"
    by (cases x; cases y) (auto simp: eq intro: rev)
  show "FileEvent_index x = FileEvent_index y \<Longrightarrow> FileEvent_index y = FileEvent_index z \<Longrightarrow> cmp_FileEvent x y = Less \<Longrightarrow>
      cmp_FileEvent y z = Less \<Longrightarrow> cmp_FileEvent x z = Less"
    by (cases x; cases y; cases z) (auto intro: less)
qed

lemma ord_ProcessEvent: "ord_on id cmp_ProcessEvent"
proof (rule ord_enum [where index = ProcessEvent_index])
  note eq = ord_onD(1) [OF ord_ProcessStartEvent] ord_onD(1) [OF ord_ProcessForkEvent] ord_onD(1) [OF ord_ProcessExitEvent]
    and rev = ord_onD(2) [OF ord_ProcessStartEvent] ord_onD(2) [OF ord_ProcessForkEvent] ord_onD(2) [OF ord_ProcessExitEvent]
    and less = ord_onD(3) [OF ord_ProcessStartEvent] ord_onD(3) [OF ord_ProcessForkEvent] ord_onD(3) [OF ord_ProcessExitEvent]
  fix x y z :: ProcessEvent
  show "ProcessEvent_index x \<noteq> ProcessEvent_index y \<Longrightarrow> cmp_ProcessEvent x y = cmp_ord (ProcessEvent_index x) (ProcessEvent_index y)"
    by (cases x; cases y) simp_all
  show "ProcessEvent_index x = ProcessEvent_index y \<Longrightarrow> (cmp_ProcessEvent x y = Equal \<longleftrightarrow> x = y) \<and> cmp_ProcessEvent y x = reverse (cmp_ProcessEvent x y)"
    by (cases x; cases y) (auto simp: eq intro: rev)
  show "ProcessEvent_index x = ProcessEvent_index y \<Longrightarrow> ProcessEvent_index y = ProcessEvent_index z \<Longrightarrow> cmp_ProcessEvent x y = Less \<Longrightarrow>
      cmp_ProcessEvent y z = Less \<Longrightarrow> cmp_ProcessEvent x z = Less"
    by (cases x; cases y; cases z) (auto intro: less)
qed

lemma ord_MemoryEvent: "ord_on id cmp_MemoryEvent"
proof (rule ord_enum [where index = MemoryEvent_index])
  note eq = ord_onD(1) [OF ord_MemoryMapEvent] ord_onD(1) [OF ord_MemoryUnmapEvent]
    and rev = ord_onD(2) [OF ord_MemoryMapEvent] ord_onD(2) [OF ord_MemoryUnmapEvent]
    and less = ord_onD(3) [OF ord_MemoryMapEvent] ord_onD(3) [OF ord_MemoryUnmapEvent]
  fix x y z :: MemoryEvent
  show "MemoryEvent_index x \<noteq> MemoryEvent_index y \<Longrightarrow> cmp_MemoryEvent x y = cmp_ord (MemoryEvent_index x) (MemoryEvent_index y)"
    by (cases x; cases y) simp_all
  show "MemoryEvent_index x = MemoryEvent_index y \<Longrightarrow> (cmp_MemoryEvent x y = Equal \<longleftrightarrow> x = y) \<and> cmp_MemoryEvent y x = reverse (cmp_MemoryEvent x y)"
    by (cases x; cases y) (auto simp: eq intro: rev)
  show "MemoryEvent_index x = MemoryEvent_index y \<Longrightarrow> MemoryEvent_index y = MemoryEvent_index z \<Longrightarrow> cmp_MemoryEvent x y = Less \<Longrightarrow>
      cmp_MemoryEvent y z = Less \<Longrightarrow> cmp_MemoryEvent x z = Less"
    by (cases x; cases y; cases z) (auto intro: less)
qed

lemma ord_NetworkEvent: "ord_on id cmp_NetworkEvent"
proof (rule ord_enum [where index = NetworkEvent_index])
  note eq = ord_onD(1) [OF ord_ConnectEvent] ord_onD(1) [OF ord_AcceptEvent] ord_onD(1) [OF ord_CloseEvent] ord_onD(1) [OF ord_BindEvent] ord_onD(1) [OF ord_ListenEvent]
    and rev = ord_onD(2) [OF ord_ConnectEvent] ord_onD(2) [OF ord_AcceptEvent] ord_onD(2) [OF ord_CloseEvent] ord_onD(2) [OF ord_BindEvent] ord_onD(2) [OF ord_ListenEvent]
    and less = ord_onD(3) [OF ord_ConnectEvent] ord_onD(3) [OF ord_AcceptEvent] ord_onD(3) [OF ord_CloseEvent] ord_onD(3) [OF ord_BindEvent] ord_onD(3) [OF ord_ListenEvent]
  fix x y z :: NetworkEvent
  show "NetworkEvent_index x \<noteq> NetworkEvent_index y \<Longrightarrow> cmp_NetworkEvent x y = cmp_ord (NetworkEvent_index x) (NetworkEvent_index y)"
    by (cases x; cases y) simp_all
  show "NetworkEvent_index x = NetworkEvent_index y \<Longrightarrow> (cmp_NetworkEvent x y = Equal \<longleftrightarrow> x = y) \<and> cmp_NetworkEvent y x = reverse (cmp_NetworkEvent x y)"
    by (cases x; cases y) (auto simp: eq intro: rev)
  show "NetworkEvent_index x = NetworkEvent_index y \<Longrightarrow> NetworkEvent_index y = NetworkEvent_index z \<Longrightarrow> cmp_NetworkEvent x y = Less \<Longrightarrow>
      cmp_NetworkEvent y z = Less \<Longrightarrow> cmp_NetworkEvent x z = Less"
    by (cases x; cases y; cases z) (auto intro: less)
qed

lemma ord_FileEventKey: "ord_on id cmp_FileEventKey"
proof (rule ord_enum [where index = FileEventKey_index])
  fix x y z :: FileEventKey
  show "FileEventKey_index x \<noteq> FileEventKey_index y \<Longrightarrow> cmp_FileEventKey x y = cmp_ord (FileEventKey_index x) (FileEventKey_index y)"
    by (cases x; cases y) simp_all
  show "FileEventKey_index x = FileEventKey_index y \<Longrightarrow> (cmp_FileEventKey x y = Equal \<longleftrightarrow> x = y) \<and> cmp_FileEventKey y x = reverse (cmp_FileEventKey x y)"
    by (cases x; cases y) (auto simp: cmp_ord_def cmp_signed_def dest: signed_word_eqI)
  show "FileEventKey_index x = FileEventKey_index y \<Longrightarrow> FileEventKey_index y = FileEventKey_index z \<Longrightarrow> cmp_FileEventKey x y = Less \<Longrightarrow>
      cmp_FileEventKey y z = Less \<Longrightarrow> cmp_FileEventKey x z = Less"
    by (cases x; cases y; cases z) auto
qed

lemma ord_FilterKey: "ord_on id cmp_FilterKey"
proof (rule ord_enum [where index = FilterKey_index])
  fix x y z :: FilterKey
  show "FilterKey_index x \<noteq> FilterKey_index y \<Longrightarrow> cmp_FilterKey x y = cmp_ord (FilterKey_index x) (FilterKey_index y)"
    by (cases x; cases y) simp_all
  show "FilterKey_index x = FilterKey_index y \<Longrightarrow> (cmp_FilterKey x y = Equal \<longleftrightarrow> x = y) \<and> cmp_FilterKey y x = reverse (cmp_FilterKey x y)"
    by (cases x; cases y) (auto simp: cmp_ord_def cmp_signed_def dest: signed_word_eqI)
  show "FilterKey_index x = FilterKey_index y \<Longrightarrow> FilterKey_index y = FilterKey_index z \<Longrightarrow> cmp_FilterKey x y = Less \<Longrightarrow>
      cmp_FilterKey y z = Less \<Longrightarrow> cmp_FilterKey x z = Less"
    by (cases x; cases y; cases z) auto
qed

lemmas ord_filters [ord] = ord_FilterKey [THEN ord_key] ord_FileTypeFilter [THEN ord_key]

lemma ord_FileFilter: "ord_on id cmp_FileFilter"
  unfolding cmp_FileFilter_def [abs_def] by (rule ord_inj, (rule ord)+) simp

lemma ord_MemoryFilter: "ord_on id cmp_MemoryFilter"
  unfolding cmp_MemoryFilter_def [abs_def] by (rule ord_inj, (rule ord)+) simp

interpretation file_event_ord: rust_ord cmp_FileEvent
  by unfold_locales (rule ord_FileEvent)

interpretation process_event_ord: rust_ord cmp_ProcessEvent
  by unfold_locales (rule ord_ProcessEvent)

interpretation memory_event_ord: rust_ord cmp_MemoryEvent
  by unfold_locales (rule ord_MemoryEvent)

interpretation network_event_ord: rust_ord cmp_NetworkEvent
  by unfold_locales (rule ord_NetworkEvent)

interpretation file_key_ord: rust_ord cmp_FileEventKey
  by unfold_locales (rule ord_FileEventKey)

interpretation file_filter_ord: rust_ord cmp_FileFilter
  by unfold_locales (rule ord_FileFilter)

interpretation memory_filter_ord: rust_ord cmp_MemoryFilter
  by unfold_locales (rule ord_MemoryFilter)

interpretation header_ord: rust_ord cmp_EventHeader
  by unfold_locales (rule ord_EventHeader)

section \<open>Sorting events\<close>

lemma then_with_first: "then_with a b \<noteq> Greater \<Longrightarrow> a \<noteq> Greater"
  by auto

lemma header_order: "cmp_EventHeader a b \<noteq> Greater \<Longrightarrow> eh_timestamp_ns a \<le> eh_timestamp_ns b"
  unfolding cmp_EventHeader_def by (drule then_with_first) simp

lemma file_order_same:
  "cmp_FileEvent a b \<noteq> Greater \<Longrightarrow> FileEvent_index a = FileEvent_index b \<Longrightarrow>
     cmp_EventHeader (file_header a) (file_header b) \<noteq> Greater"
  by (cases a; cases b)
     (simp_all add: cmp_FileOpenEvent_def cmp_FileReadEvent_def cmp_FileCloseEvent_def cmp_FileWriteEvent_def
        cmp_FileDeleteEvent_def cmp_FileRenameEvent_def then_with_first del: then_with_eq)

lemma file_order:
  assumes "cmp_FileEvent a b \<noteq> Greater"
  shows "FileEvent_index a \<le> FileEvent_index b"
    and "FileEvent_index a = FileEvent_index b \<Longrightarrow> eh_timestamp_ns (file_header a) \<le> eh_timestamp_ns (file_header b)"
  using assms header_order [OF file_order_same [OF assms]] by (cases a; cases b; simp)+

text \<open>
  C39: sorting file events with their derived order. A list of events has exactly one arrangement in
  which no event is greater than a later one; and in any list that is sorted in this sense the
  events are grouped by their kind, in the order opened, read, closed, written, deleted, renamed,
  and within a kind they are in the order of their timestamps. So sorting the events of several
  kinds does not sort them by time.
\<close>

theorem file_events_sort:
  "(\<exists>!ys. mset ys = mset evs \<and> sorted_wrt (\<lambda>a b. cmp_FileEvent a b \<noteq> Greater) ys) \<and>
   (\<forall>ys. sorted_wrt (\<lambda>a b. cmp_FileEvent a b \<noteq> Greater) ys \<longrightarrow>
     sorted (map FileEvent_index ys) \<and>
     (\<forall>k. sorted (map (\<lambda>e. eh_timestamp_ns (file_header e)) (filter (\<lambda>e. FileEvent_index e = k) ys))))"
proof -
  have "sorted (map FileEvent_index ys) \<and>
      (\<forall>k. sorted (map (\<lambda>e. eh_timestamp_ns (file_header e)) (filter (\<lambda>e. FileEvent_index e = k) ys)))"
    if "sorted_wrt (\<lambda>a b. cmp_FileEvent a b \<noteq> Greater) ys" for ys
    using that
  proof (induction ys)
    case (Cons e ys)
    then show ?case using file_order [of e] by auto
  qed simp
  with file_event_ord.unique_sort [of evs] show ?thesis by blast
qed

theorem file_events_sort_witness:
  "\<exists>open_event delete_event. eh_timestamp_ns (file_header delete_event) < eh_timestamp_ns (file_header open_event) \<and>
     (\<forall>ys. mset ys = mset [delete_event, open_event] \<and> sorted_wrt (\<lambda>a b. cmp_FileEvent a b \<noteq> Greater) ys
        \<longleftrightarrow> ys = [open_event, delete_event]) \<and>
     sorted (map FileEvent_index [open_event, delete_event])"
proof -
  define h :: "u64 \<Rightarrow> EventHeader" where
    "h t = \<lparr>eh_timestamp_ns = t, eh_pid = 42, eh_tid = 43, eh_ppid = 1, eh_uid = 0, eh_gid = 0, eh_comm = ''sh''\<rparr>" for t
  define f where "f = FileEvent_Open \<lparr>fo_header = h 2, fo_file_path = ''/tmp/a'', fo_file_type = Regular,
    fo_inode = 7, fo_retval = 0, fo_flags = 0\<rparr>"
  define d where "d = FileEvent_Delete \<lparr>fd_header = h 1, fd_filename = ''a'', fd_file_type = Regular, fd_retval = 0\<rparr>"
  have s: "sorted_wrt (\<lambda>a b. cmp_FileEvent a b \<noteq> Greater) [f, d]" "mset [f, d] = mset [d, f]"
    by (simp_all add: f_def d_def cmp_ord_def)
  with file_events_sort [of "[d, f]"]
  have "mset ys = mset [d, f] \<and> sorted_wrt (\<lambda>a b. cmp_FileEvent a b \<noteq> Greater) ys \<longleftrightarrow> ys = [f, d]" for ys
    by blast
  moreover have "sorted (map FileEvent_index [f, d])"
    using file_events_sort [of "[]"] s(1) by blast
  moreover have "eh_timestamp_ns (file_header d) < eh_timestamp_ns (file_header f)"
    by (simp add: f_def d_def h_def)
  ultimately show ?thesis by blast
qed

end
