(* ===== verification/Bpfx_Log.thy ===== *)
theory Bpfx_Log
  imports Bpfx_Runtime
begin

text \<open>
  The lines that \<open>src/core.rs\<close> logs while it makes a runtime and attaches programs. The functions
  are those of \<open>Bpfx_Attach\<close> and \<open>Bpfx_Runtime\<close> with their \<open>log::info!\<close> and \<open>log::debug!\<close> calls, as
  sequences of stages that return what they logged; erasing the log gives the functions without it.
  The text of a foreign error is an argument. The locale \<open>logged_attacher\<close> says how the log of an
  attaching function follows its plan; it is discharged for the four.
\<close>

section \<open>Stages that log\<close>

definition says :: "log_line \<Rightarrow> 'b \<Rightarrow> ('b, 'x) stage" where
  "says l b = (Inr (), b, [l])"

definition quiet :: "('b, 'x) action_step \<Rightarrow> 'b \<Rightarrow> ('b, 'x) stage" where
  "quiet stp b = (case stp b of (r, b') \<Rightarrow> (r, b', []))"

definition logging :: "log_line \<Rightarrow> ('b, 'x) action_step \<Rightarrow> 'b \<Rightarrow> ('b, 'x) stage" where
  "logging l stp b = (case stp b of (r, b') \<Rightarrow> (r, b', [l]))"

definition erase :: "('b \<Rightarrow> ('b, 'x) stage) \<Rightarrow> ('b, 'x) action_step" where
  "erase g b = (case g b of (r, b', _) \<Rightarrow> (r, b'))"

definition quoted :: "string \<Rightarrow> string" where
  "quoted s = CHR 0x27 # s @ [CHR 0x27]"

definition attaching :: "string \<Rightarrow> string \<Rightarrow> string \<Rightarrow> log_line" where
  "attaching kind prog_name target =
     Info (''attaching '' @ kind @ '' probe '' @ quoted prog_name @ '' to '' @ quoted target)"

section \<open>Attaching\<close>

definition attach_fexit_logged :: "('b, 'x) aya \<Rightarrow> string \<Rightarrow> string \<Rightarrow> 'b \<Rightarrow> ('b, 'x) stage" where
  "attach_fexit_logged ay prog_name func_name =
     logging (attaching ''fexit'' prog_name func_name) (attach_fexit ay prog_name func_name)"

definition attach_kprobe_logged :: "('b, 'x) aya \<Rightarrow> string \<Rightarrow> string \<Rightarrow> 'b \<Rightarrow> ('b, 'x) stage" where
  "attach_kprobe_logged ay prog_name symbol =
     logging (attaching ''kprobe'' prog_name symbol) (attach_kprobe ay prog_name symbol)"

definition attach_fentry_logged :: "('b, 'x) aya \<Rightarrow> string \<Rightarrow> string \<Rightarrow> 'b \<Rightarrow> ('b, 'x) stage" where
  "attach_fentry_logged ay prog_name symbol =
     logging (attaching ''fentry'' prog_name symbol) (attach_fentry ay prog_name symbol)"

definition attach_tracepoint_logged :: "('b, 'x) aya \<Rightarrow> string \<Rightarrow> string \<Rightarrow> string \<Rightarrow> 'b \<Rightarrow> ('b, 'x) stage" where
  "attach_tracepoint_logged ay prog_name category tracepoint =
     logging (attaching ''tracepoint'' prog_name tracepoint) (attach_tracepoint ay prog_name category tracepoint)"

definition when_stages :: "bool \<Rightarrow> 'g list \<Rightarrow> 'g list" where
  "when_stages c gs = (if c then gs else [])"

definition attach_network_logged :: "('b, 'x) aya \<Rightarrow> NetworkFilter \<Rightarrow> 'b \<Rightarrow> ('b, 'x) stage" where
  "attach_network_logged ay filt =
     (let tcp = ProtocolMask_contains (nf_protocol_mask filt) ProtocolMask_TCP;
          udp = ProtocolMask_contains (nf_protocol_mask filt) ProtocolMask_UDP;
          wants = NetworkMask_contains (nf_event_mask filt) in
      run_stages
        ([says (Info ''attaching network probe..'')] @
         ([quiet (write_to_fiter_map ay (Filters_Network filt) OwnerNetwork)] @
          when_stages (tcp \<and> wants NetworkMask_CONNECT)
            (map (\<lambda>probe. attach_fexit_logged ay (fst probe) (snd probe)) TCP_CONNECT) @
          when_stages (tcp \<and> wants NetworkMask_ACCEPT)
            (map (\<lambda>probe. attach_kprobe_logged ay (fst probe) (snd probe)) TCP_ACCEPT) @
          when_stages (tcp \<and> wants NetworkMask_CLOSE) [attach_fexit_logged ay (fst TCP_CLOSE) (snd TCP_CLOSE)] @
          when_stages (tcp \<and> wants NetworkMask_BIND) [attach_fexit_logged ay ''inet_bind'' ''inet_bind''] @
          when_stages (tcp \<and> wants NetworkMask_LISTEN) [attach_fexit_logged ay ''inet_listen'' ''inet_listen''] @
          when_stages (udp \<and> wants NetworkMask_CONNECT)
            (map (\<lambda>probe. attach_fexit_logged ay (fst probe) (snd probe)) UDP_CONNECT) @
          when_stages (udp \<and> wants NetworkMask_CLOSE) [attach_fexit_logged ay (fst UDP_CLOSE) (snd UDP_CLOSE)]) @
         [says (Info ''attached network probe'')]))"

definition attach_process_logged :: "('b, 'x) aya \<Rightarrow> ProcessFilter \<Rightarrow> 'b \<Rightarrow> ('b, 'x) stage" where
  "attach_process_logged ay filt =
     (let wants = ProcessMask_contains (pfl_mask filt) in
      run_stages
        (([quiet (write_to_fiter_map ay (Filters_Process filt) OwnerProcess)] @
          when_stages (wants ProcessMask_START)
            [attach_tracepoint_logged ay ''sched_process_exec'' ''sched'' ''sched_process_exec''] @
          when_stages (wants ProcessMask_FORK)
            [attach_tracepoint_logged ay ''sched_process_fork'' ''sched'' ''sched_process_fork''] @
          when_stages (wants ProcessMask_EXIT) [attach_fentry_logged ay ''do_group_exit'' ''do_group_exit'']) @
         [says (Info ''attached process probe'')]))"

definition attach_file_logged :: "('b, 'x) aya \<Rightarrow> FileFilter \<Rightarrow> 'b \<Rightarrow> ('b, 'x) stage" where
  "attach_file_logged ay filt =
     (let wants = FileMask_contains (ff_event_type filt) in
      run_stages
        (([quiet (write_to_fiter_map ay (Filters_File filt) OwnerFile), quiet (write_to_map ay filt),
           quiet (attach_lsm_probe ay), attach_fexit_logged ay ''__fput'' ''__fput''] @
          when_stages (wants FileMask_OPEN) [attach_fexit_logged ay ''vfs_open'' ''vfs_open''] @
          when_stages (wants FileMask_CLOSE) [attach_fexit_logged ay ''filp_close'' ''filp_close''] @
          when_stages (wants FileMask_READ) [attach_fexit_logged ay ''vfs_read'' ''vfs_read''] @
          when_stages (wants FileMask_WRITE) [attach_fexit_logged ay ''vfs_write'' ''vfs_write''] @
          when_stages (wants FileMask_DELETE) [attach_fexit_logged ay ''vfs_unlink'' ''vfs_unlink''] @
          when_stages (wants FileMask_RENAME)
            [attach_fentry_logged ay ''vfs_rename'' ''vfs_rename'',
             attach_fexit_logged ay ''vfs_rename_retval'' ''vfs_rename'']) @
         [says (Info ''attached file probe'')]))"

definition attach_mem_logged :: "('b, 'x) aya \<Rightarrow> MemoryFilter \<Rightarrow> 'b \<Rightarrow> ('b, 'x) stage" where
  "attach_mem_logged ay filt =
     run_stages
       (([quiet (write_to_fiter_map ay (Filters_Memory filt) OwnerMemory)] @
         when_stages (MemoryMask_contains (mf_mask filt) MemoryMask_MMAP)
           [attach_fexit_logged ay ''vm_mmap_pgoff'' ''vm_mmap_pgoff''] @
         when_stages (MemoryMask_contains (mf_mask filt) MemoryMask_UNMAP)
           [attach_fexit_logged ay ''__vm_munmap'' ''__vm_munmap'']) @
        [says (Info ''attached memory probe'')])"

section \<open>Construction\<close>

text \<open>\<open>show_err\<close> is the \<open>Display\<close> of the error of the eBPF logger.\<close>

definition Bpfx_new_logged :: "('x \<Rightarrow> string) \<Rightarrow> ('b, 'r, 'x) loading \<Rightarrow>
    ('x fault + ('b, 'r, 'n, 'p, 'f, 'm) Bpfx) \<times> log_line list" where
  "Bpfx_new_logged show_err ld =
     (let lg1 = [Info ''loading eBPF object''] in
      case ld_load ld of
        Inl e \<Rightarrow> (Inl (Err (Load e)), lg1)
      | Inr b \<Rightarrow>
          let (logger, b1) = ld_logger ld b;
              lg2 = lg1 @ (case logger of None \<Rightarrow> [] | Some e \<Rightarrow> [Debug (''failed to initialize eBPF logger: '' @ show_err e)]) @
                [Debug ''loading kernel BTF''] in
          (case ld_btf ld of
             Some e \<Rightarrow> (Inl (Err (Btf e)), lg2)
           | None \<Rightarrow>
               let lg3 = lg2 @ [Debug ''retrieving EVENTS ring buffer map''] in
               (case ld_take_events ld b1 of
                  None \<Rightarrow> (Inl (Err EventsMapAccess), lg3)
                | Some b2 \<Rightarrow>
                    let lg4 = lg3 @ [Debug ''creating ring buffer''] in
                    (case ld_ringbuf ld of
                       Inl e \<Rightarrow> (Inl (Err (MapError e)), lg4)
                     | Inr r \<Rightarrow>
                         (Inr \<lparr>bx_bpf = b2, bx_ringbuf = r, bx_network = None, bx_process = None, bx_file = None,
                            bx_mem = None, bx_pending_renames = [], bx_config = \<lparr>channel_capacity = 1024\<rparr>\<rparr>,
                          lg4 @ [Info ''bpfx initialized successfully''])))))"

definition Bpfx_with_config_logged :: "BpfxConfig \<Rightarrow> ('b, 'r, 'x) loading \<Rightarrow>
    ('x fault + ('b, 'r, 'n, 'p, 'f, 'm) Bpfx) \<times> log_line list" where
  "Bpfx_with_config_logged conf ld =
     (let lg1 = [Info ''loading eBPF object''] in
      case ld_load ld of
        Inl e \<Rightarrow> (Inl (Err (Load e)), lg1)
      | Inr b \<Rightarrow>
          let lg2 = lg1 @ [Debug ''loading kernel BTF''] in
          (case ld_btf ld of
             Some e \<Rightarrow> (Inl (Err (Btf e)), lg2)
           | None \<Rightarrow>
               let lg3 = lg2 @ [Debug ''retrieving EVENTS ring buffer map''] in
               (case ld_take_events ld b of
                  None \<Rightarrow> (Inl (Err EventsMapAccess), lg3)
                | Some b1 \<Rightarrow>
                    let lg4 = lg3 @ [Debug ''creating ring buffer''] in
                    (case ld_ringbuf ld of
                       Inl e \<Rightarrow> (Inl (Err (MapError e)), lg4)
                     | Inr r \<Rightarrow>
                         (Inr \<lparr>bx_bpf = b1, bx_ringbuf = r, bx_network = None, bx_process = None, bx_file = None,
                            bx_mem = None, bx_pending_renames = [], bx_config = conf\<rparr>,
                          lg4 @ [Info (''bpfx initialized successfully (channel_capacity='' @
                            show_u (channel_capacity conf) @ '')'')])))))"

lemma construction_erases:
  "fst (Bpfx_new_logged show_err ld) = Bpfx_new ld"
  "fst (Bpfx_with_config_logged conf ld) = Bpfx_with_config conf ld"
  by (simp_all add: Bpfx_new_logged_def Bpfx_with_config_logged_def Bpfx_new_def Bpfx_with_config_def Let_def
      split: sum.split option.split prod.split)

section \<open>Erasing the log\<close>

lemma erase_stage [simp]:
  "erase (quiet stp) = stp" "erase (logging l stp) = stp" "erase (says l) = (\<lambda>b. (Inr (), b))"
  by (simp_all add: fun_eq_iff erase_def quiet_def logging_def says_def split: prod.split)

lemma erase_attach [simp]:
  "erase (attach_fexit_logged ay n g) = attach_fexit ay n g"
  "erase (attach_kprobe_logged ay n g) = attach_kprobe ay n g"
  "erase (attach_fentry_logged ay n g) = attach_fentry ay n g"
  "erase (attach_tracepoint_logged ay n c g) = attach_tracepoint ay n c g"
  by (simp_all add: attach_fexit_logged_def attach_kprobe_logged_def attach_fentry_logged_def attach_tracepoint_logged_def)

lemma erase_run_stages: "erase (run_stages gs) = run_steps (map erase gs)"
proof (induction gs)
  case Nil
  show ?case by (simp add: fun_eq_iff erase_def)
next
  case (Cons g gs)
  show ?case
  proof
    fix b
    obtain r b1 lg where g: "g b = (r, b1, lg)" by (cases "g b") auto
    have "erase (run_stages gs) b1 = run_steps (map erase gs) b1" by (simp add: Cons.IH)
    with g show "erase (run_stages (g # gs)) b = run_steps (map erase (g # gs)) b"
      by (cases r) (auto simp: erase_def split: prod.splits)
  qed
qed

lemma map_erase_when [simp]: "map erase (when_stages c gs) = when_steps c (map erase gs)"
  by (simp add: when_stages_def when_steps_def)

section \<open>The log follows the plan\<close>

text \<open>The line that announces an effect; writing a map and attaching the LSM program log nothing.\<close>

fun effect_line :: "effect \<Rightarrow> log_line list" where
  "effect_line (Attached FExit q t) = [attaching ''fexit'' (program_name q) (last t)]"
| "effect_line (Attached KProbe q t) = [attaching ''kprobe'' (program_name q) (last t)]"
| "effect_line (Attached FEntry q t) = [attaching ''fentry'' (program_name q) (last t)]"
| "effect_line (Attached TracePoint q t) = [attaching ''tracepoint'' (program_name q) (last t)]"
| "effect_line _ = []"

definition effect_lines :: "effect list \<Rightarrow> log_line list" where
  "effect_lines effs = concat (map effect_line effs)"

lemma effect_lines_simps [simp]:
  "effect_lines [] = []" "effect_lines (e # effs) = effect_line e @ effect_lines effs"
  by (simp_all add: effect_lines_def)

definition reports :: "('b \<Rightarrow> effect list) \<Rightarrow> ('b \<Rightarrow> ('b, 'x) stage) \<Rightarrow> effect list \<Rightarrow> bool" where
  "reports hist g effs =
     (\<forall>b. (\<exists>b'. g b = (Inr (), b', effect_lines effs) \<and> hist b' = hist b @ effs) \<or>
          (\<exists>f n b'. g b = (Inl f, b', effect_lines (take (Suc n) effs)) \<and> loader_fault f \<and> n < length effs \<and>
             hist b' = hist b @ take n effs))"

lemma reports_single:
  "reports hist g [eff] \<longleftrightarrow>
     (\<forall>b. (\<exists>b'. g b = (Inr (), b', effect_line eff) \<and> hist b' = hist b @ [eff]) \<or>
          (\<exists>f b'. g b = (Inl f, b', effect_line eff) \<and> loader_fault f \<and> hist b' = hist b))"
  by (simp add: reports_def)

lemma performsE:
  assumes "performs hist stp eff"
  obtains b' where "stp b = (Inr (), b')" "hist b' = hist b @ [eff]"
    | f b' where "stp b = (Inl f, b')" "loader_fault f" "hist b' = hist b"
  using assms [unfolded performs_def, rule_format, of b]
  by (cases "stp b"; cases "fst (stp b)") auto

lemma reports_one:
  assumes "performs hist stp eff"
  shows "effect_line eff = [] \<Longrightarrow> reports hist (quiet stp) [eff]"
    and "effect_line eff = [l] \<Longrightarrow> reports hist (logging l stp) [eff]"
proof -
  show "reports hist (quiet stp) [eff]" if "effect_line eff = []"
    unfolding reports_single
  proof
    fix b
    from assms show "(\<exists>b'. quiet stp b = (Inr (), b', effect_line eff) \<and> hist b' = hist b @ [eff]) \<or>
        (\<exists>f b'. quiet stp b = (Inl f, b', effect_line eff) \<and> loader_fault f \<and> hist b' = hist b)"
      by (cases rule: performsE [where b = b]) (simp_all add: quiet_def that)
  qed
  show "reports hist (logging l stp) [eff]" if "effect_line eff = [l]"
    unfolding reports_single
  proof
    fix b
    from assms show "(\<exists>b'. logging l stp b = (Inr (), b', effect_line eff) \<and> hist b' = hist b @ [eff]) \<or>
        (\<exists>f b'. logging l stp b = (Inl f, b', effect_line eff) \<and> loader_fault f \<and> hist b' = hist b)"
      by (cases rule: performsE [where b = b]) (simp_all add: logging_def that)
  qed
qed

lemma reports_stages:
  "list_all2 (\<lambda>g eff. reports hist g [eff]) gs effs \<Longrightarrow> reports hist (run_stages gs) effs"
proof (induction rule: list_all2_induct)
  case Nil
  show ?case by (simp add: reports_def)
next
  case (Cons g gs eff effs)
  show ?case
    unfolding reports_def
  proof
    fix b
    from Cons.hyps(1) [unfolded reports_single, rule_format, of b]
    consider b1 where "g b = (Inr (), b1, effect_line eff)" "hist b1 = hist b @ [eff]"
      | f b1 where "g b = (Inl f, b1, effect_line eff)" "loader_fault f" "hist b1 = hist b"
      by blast
    then show "(\<exists>b'. run_stages (g # gs) b = (Inr (), b', effect_lines (eff # effs)) \<and> hist b' = hist b @ eff # effs) \<or>
        (\<exists>f n b'. run_stages (g # gs) b = (Inl f, b', effect_lines (take (Suc n) (eff # effs))) \<and> loader_fault f \<and>
           n < length (eff # effs) \<and> hist b' = hist b @ take n (eff # effs))"
    proof cases
      case 1
      from Cons.IH [unfolded reports_def, rule_format, of b1] show ?thesis
      proof (elim disjE exE conjE)
        fix b' assume "run_stages gs b1 = (Inr (), b', effect_lines effs)" "hist b' = hist b1 @ effs"
        with 1 show ?thesis by simp
      next
        fix f n b' assume "run_stages gs b1 = (Inl f, b', effect_lines (take (Suc n) effs))" "loader_fault f"
          "n < length effs" "hist b' = hist b1 @ take n effs"
        with 1 show ?thesis by (intro disjI2 exI [of _ f] exI [of _ "Suc n"] exI [of _ b']) simp
      qed
    next
      case 2
      then show ?thesis by (intro disjI2 exI [of _ f] exI [of _ 0] exI [of _ b1]) simp
    qed
  qed
qed

lemma attach_reports:
  assumes law: "aya_law ay hist" and n: "program_name q = n"
  shows "program_kind q = FExit \<Longrightarrow> reports hist (attach_fexit_logged ay n g) [Attached FExit q [g]]"
    and "program_kind q = KProbe \<Longrightarrow> reports hist (attach_kprobe_logged ay n g) [Attached KProbe q [g]]"
    and "program_kind q = FEntry \<Longrightarrow> reports hist (attach_fentry_logged ay n g) [Attached FEntry q [g]]"
    and "program_kind q = TracePoint \<Longrightarrow> reports hist (attach_tracepoint_logged ay n c g) [Attached TracePoint q [c, g]]"
    and "program_kind q = Lsm \<Longrightarrow> n = ''file_open'' \<Longrightarrow> reports hist (quiet (attach_lsm_probe ay)) [Attached Lsm q [n]]"
  unfolding attach_fexit_logged_def attach_kprobe_logged_def attach_fentry_logged_def attach_tracepoint_logged_def
  using attach_performs [OF law n] n by (auto intro!: reports_one)

lemma write_reports:
  assumes "aya_law ay hist"
  shows "reports hist (quiet (write_to_fiter_map ay (Filters_Memory m) OwnerMemory)) [WroteFilter 0 (mf_filter m)]"
    and "reports hist (quiet (write_to_fiter_map ay (Filters_Process p) OwnerProcess)) [WroteFilter 1 (pfl_filter p)]"
    and "reports hist (quiet (write_to_fiter_map ay (Filters_Network n) OwnerNetwork)) [WroteFilter 2 (nf_filter n)]"
    and "reports hist (quiet (write_to_fiter_map ay (Filters_File f) OwnerFile)) [WroteFilter 3 (ff_filter f)]"
    and "reports hist (quiet (write_to_map ay f)) [WroteConfig 0 (ftf_mode (ff_file_mode f))]"
  using write_performs(1) [OF assms, of "Filters_Memory m" OwnerMemory] write_performs(1) [OF assms, of "Filters_Process p" OwnerProcess]
    write_performs(1) [OF assms, of "Filters_Network n" OwnerNetwork] write_performs(1) [OF assms, of "Filters_File f" OwnerFile]
    write_performs(2) [OF assms, of f]
  by (auto intro!: reports_one simp: file_mode_from_type_filter_def)

lemma run_stages_says:
  "run_stages (map says before @ gs) b = (case run_stages gs b of (r, b', lg) \<Rightarrow> (r, b', before @ lg))"
  by (induction before arbitrary: b) (simp_all add: says_def split: prod.split)

lemma run_stages_done:
  "run_stages (gs @ [says l]) b =
     (case run_stages gs b of (Inl f, b', lg) \<Rightarrow> (Inl f, b', lg) | (Inr _, b', lg) \<Rightarrow> (Inr (), b', lg @ [l]))"
  by (induction gs arbitrary: b) (simp_all add: says_def split: prod.split sum.split)

lemma erase_framed: "erase (run_stages (map says before @ gs @ [says l])) = run_steps (map erase gs)"
proof
  fix b
  show "erase (run_stages (map says before @ gs @ [says l])) b = run_steps (map erase gs) b"
    by (simp add: erase_def [of "run_stages (map says before @ gs @ [says l])"] run_stages_says run_stages_done
        erase_run_stages [symmetric] erase_def [of "run_stages gs"] split: prod.split sum.split)
qed

lemmas erase_frames = erase_framed [where before = "[a]" for a, unfolded list.map] erase_framed [where before = "[]", unfolded list.map append_Nil]

locale logged_attacher =
  fixes attach_logged :: "('b, 'x) aya \<Rightarrow> 'f \<Rightarrow> 'b \<Rightarrow> ('b, 'x) stage"
    and attach :: "('b, 'x) aya \<Rightarrow> 'f \<Rightarrow> ('b, 'x) action_step"
    and plan :: "'f \<Rightarrow> effect list"
    and before :: "log_line list" and after :: log_line
  assumes erases: "erase (attach_logged ay filt) = attach ay filt"
    and stages: "\<exists>gs. attach_logged ay filt = run_stages (map says before @ gs @ [says after]) \<and>
      (aya_law ay hist \<longrightarrow> reports hist (run_stages gs) (plan filt))"
begin

lemma log_follows_plan:
  assumes "aya_law ay hist" and "attach_logged ay filt b = (res, b', lg)"
  shows "(res = Inr () \<and> hist b' = hist b @ plan filt \<and> lg = before @ effect_lines (plan filt) @ [after]) \<or>
    (\<exists>f n. res = Inl f \<and> loader_fault f \<and> n < length (plan filt) \<and> hist b' = hist b @ take n (plan filt) \<and>
       lg = before @ effect_lines (take (Suc n) (plan filt)))"
proof -
  from stages [of ay filt hist] assms(1) obtain gs where
    gs: "attach_logged ay filt = run_stages (map says before @ gs @ [says after])" "reports hist (run_stages gs) (plan filt)"
    by blast
  from gs(2) [unfolded reports_def, rule_format, of b] assms(2) show ?thesis
  proof (elim disjE exE conjE)
    fix b1 assume "run_stages gs b = (Inr (), b1, effect_lines (plan filt))" "hist b1 = hist b @ plan filt"
    with assms(2) show ?thesis by (simp add: gs(1) run_stages_says run_stages_done)
  next
    fix f n b1 assume "run_stages gs b = (Inl f, b1, effect_lines (take (Suc n) (plan filt)))" "loader_fault f"
      "n < length (plan filt)" "hist b1 = hist b @ take n (plan filt)"
    with assms(2) show ?thesis
      by (intro disjI2 exI [of _ f] exI [of _ n]) (simp add: gs(1) run_stages_says run_stages_done)
  qed
qed

end

interpretation network_log: logged_attacher attach_network_logged attach_network_probe plan_network "[Info ''attaching network probe..'']" "Info ''attached network probe''"
proof unfold_locales
  fix ay :: "('tb, 'tx) aya" and hist filt
  show "erase (attach_network_logged ay filt) = attach_network_probe ay filt"
    unfolding attach_network_logged_def attach_network_probe_def Let_def erase_frames by (simp add: comp_def)
  show "\<exists>gs. attach_network_logged ay filt = run_stages (map says [Info ''attaching network probe..''] @ gs @ [says (Info ''attached network probe'')]) \<and>
      (aya_law ay hist \<longrightarrow> reports hist (run_stages gs) (plan_network filt))"
    unfolding attach_network_logged_def plan_network_def Let_def list.map append_Nil
    by (rule exI, rule conjI, rule refl, intro impI reports_stages list_all2_appendI list.rel_intros)
       (simp_all add: attach_reports write_reports when_stages_def TCP_CONNECT_def TCP_ACCEPT_def
          TCP_CLOSE_def UDP_CONNECT_def UDP_CLOSE_def)
qed

interpretation process_log: logged_attacher attach_process_logged attach_process_probe plan_process "[]" "Info ''attached process probe''"
proof unfold_locales
  fix ay :: "('tb, 'tx) aya" and hist filt
  show "erase (attach_process_logged ay filt) = attach_process_probe ay filt"
    unfolding attach_process_logged_def attach_process_probe_def Let_def erase_frames by (simp add: comp_def)
  show "\<exists>gs. attach_process_logged ay filt = run_stages (map says [] @ gs @ [says (Info ''attached process probe'')]) \<and>
      (aya_law ay hist \<longrightarrow> reports hist (run_stages gs) (plan_process filt))"
    unfolding attach_process_logged_def plan_process_def Let_def list.map append_Nil
    by (rule exI, rule conjI, rule refl, intro impI reports_stages list_all2_appendI list.rel_intros)
       (simp_all add: attach_reports write_reports when_stages_def)
qed

interpretation file_log: logged_attacher attach_file_logged attach_file_probe plan_file "[]" "Info ''attached file probe''"
proof unfold_locales
  fix ay :: "('tb, 'tx) aya" and hist filt
  show "erase (attach_file_logged ay filt) = attach_file_probe ay filt"
    unfolding attach_file_logged_def attach_file_probe_def Let_def erase_frames by (simp add: comp_def)
  show "\<exists>gs. attach_file_logged ay filt = run_stages (map says [] @ gs @ [says (Info ''attached file probe'')]) \<and>
      (aya_law ay hist \<longrightarrow> reports hist (run_stages gs) (plan_file filt))"
    unfolding attach_file_logged_def plan_file_def Let_def list.map append_Nil
    by (rule exI, rule conjI, rule refl, intro impI reports_stages list_all2_appendI list.rel_intros)
       (simp_all add: attach_reports write_reports when_stages_def)
qed

interpretation mem_log: logged_attacher attach_mem_logged attach_mem_probe plan_mem "[]" "Info ''attached memory probe''"
proof unfold_locales
  fix ay :: "('tb, 'tx) aya" and hist filt
  show "erase (attach_mem_logged ay filt) = attach_mem_probe ay filt"
    unfolding attach_mem_logged_def attach_mem_probe_def Let_def erase_frames by (simp add: comp_def)
  show "\<exists>gs. attach_mem_logged ay filt = run_stages (map says [] @ gs @ [says (Info ''attached memory probe'')]) \<and>
      (aya_law ay hist \<longrightarrow> reports hist (run_stages gs) (plan_mem filt))"
    unfolding attach_mem_logged_def plan_mem_def Let_def list.map append_Nil
    by (rule exI, rule conjI, rule refl, intro impI reports_stages list_all2_appendI list.rel_intros)
       (simp_all add: attach_reports write_reports when_stages_def)
qed

section \<open>Properties\<close>

text \<open>
  The log of a construction locates its failure: the last line is that of the step that failed, a
  failing eBPF logger is only mentioned, and nothing else makes \<open>new\<close> fail.
\<close>

theorem construction_log_locates_failure:
  "(case fst (Bpfx_new_logged show_err ld) of
      Inl f \<Rightarrow> (case f of
          Err (Load _) \<Rightarrow> last (snd (Bpfx_new_logged show_err ld)) = Info ''loading eBPF object''
        | Err (Btf _) \<Rightarrow> last (snd (Bpfx_new_logged show_err ld)) = Debug ''loading kernel BTF''
        | Err EventsMapAccess \<Rightarrow> last (snd (Bpfx_new_logged show_err ld)) = Debug ''retrieving EVENTS ring buffer map''
        | Err (MapError _) \<Rightarrow> last (snd (Bpfx_new_logged show_err ld)) = Debug ''creating ring buffer''
        | _ \<Rightarrow> False)
    | Inr _ \<Rightarrow> last (snd (Bpfx_new_logged show_err ld)) = Info ''bpfx initialized successfully'')"
  by (simp add: Bpfx_new_logged_def Let_def split: sum.split option.split prod.split)



text \<open>
  The log of a network subscription tells how far it got in the same way. It opens with the line of the
  function; then each program that the plan attaches is announced, in the order of the plan and
  before it is loaded. After a success all of them have been announced and the closing line follows;
  after a failure the last line names the program that failed, and those before it are attached
  (only the opening line is there if it was the filter map).
\<close>

theorem network_subscription_log:
  assumes "aya_law ay hist" and "attach_network_logged ay filt b = (res, b', lg)"
  shows "attach_network_probe ay filt b = (res, b') \<and>
    ((res = Inr () \<and> hist b' = hist b @ plan_network filt \<and>
      lg = Info ''attaching network probe..'' # effect_lines (plan_network filt) @ [Info ''attached network probe'']) \<or>
     (\<exists>f n. res = Inl f \<and> loader_fault f \<and> n < length (plan_network filt) \<and>
        hist b' = hist b @ take n (plan_network filt) \<and>
        lg = Info ''attaching network probe..'' # effect_lines (take (Suc n) (plan_network filt))))"
proof -
  have "attach_network_probe ay filt b = (res, b')"
    using network_log.erases [of ay filt, THEN fun_cong, of b] assms(2) by (simp add: erase_def)
  with network_log.log_follows_plan [OF assms] show ?thesis by simp
qed

theorem network_subscription_log_witness:
  "\<exists>res b' lg. attach_network_logged obj_aya NetworkFilter_UDP ([], []) = (res, b', lg) \<and>
     attach_network_probe obj_aya NetworkFilter_UDP ([], []) = (res, b') \<and>
     hd lg = Info ''attaching network probe..''"
proof -
  obtain res b' lg where l: "attach_network_logged obj_aya NetworkFilter_UDP ([], []) = (res, b', lg)"
    by (metis prod.exhaust)
  from network_subscription_log [OF obj_aya_law l] l show ?thesis by auto
qed

end
