(* ===== verification/Spec2Isabelle.thy ===== *)
theory Spec2Isabelle
  imports Bpfx_Examples Bpfx_Checks Bpfx_Client Bpfx_Resubscribe Bpfx_Derive Bpfx_Log
begin

text \<open>
  A verification development for bpfx, a Rust library that reports process, file, memory and network
  events of a Linux machine. The program has two sides. An eBPF object (\<open>bpfx-ebpf/src/main.rs\<close>)
  holds 23 programs that the kernel runs at its hooks; each may submit one structure of
  \<open>bpfx-common/src/raw.rs\<close> to a ring buffer, after consulting the filters that user space wrote to
  two maps. The library (\<open>src/*.rs\<close>) loads the object, attaches the programs that a subscription
  asks for, and runs an event loop that reads the ring, converts the bytes of each item to an event
  of a family and hands it to the subscriber's channel. The library theories of HOL give words,
  lists and maps; everything else is defined here from the sources.

  Theories and what they model:

  \<^item> \<open>Bpfx_Prelude\<close>: machine types, sequences of fallible calls (\<open>run_steps\<close>), byte arrays cut at
    their first NUL, hash maps and their interface (locale \<open>hash_map_spec\<close>).
  \<^item> \<open>Bpfx_Std\<close>: what the sources use of Rust's standard library: \<open>String::from_utf8_lossy\<close>,
    \<open>Path::file_name\<close>, \<open>Duration\<close>, the formatting of numbers.
  \<^item> \<open>Bpfx_Bytes\<close>, \<open>Bpfx_Raw\<close>: the layout of \<open>#[repr(C)]\<close> structures and the structures of
    \<open>raw.rs\<close>, each with an encoder, a decoder and a well-formedness predicate; locale \<open>codec\<close> is
    the contract of such a pair, interpreted for all fourteen. The bytes are shown unambiguous.
  \<^item> \<open>Bpfx_Common\<close>, \<open>Bpfx_Mask\<close>, \<open>Bpfx_File\<close>, \<open>Bpfx_Process\<close>, \<open>Bpfx_Memory\<close>, \<open>Bpfx_Network\<close>:
    \<open>common.rs\<close>, \<open>error.rs\<close> and the event and filter types of the four families with their
    accessors, \<open>Display\<close> and operators. Locales \<open>bitmask\<close> and \<open>event_family\<close> are what the masks
    and the event enumerations share.
  \<^item> \<open>Ebpf_Core\<close>, \<open>Ebpf_Probes\<close>: the object. \<open>kstate\<close> is its maps; \<open>kenv\<close> is what one invocation
    gets from the kernel, the helpers and the generated bindings, none of which is in the
    repository; \<open>try_*\<close> are the bodies and \<open>run_program\<close> the programs.
  \<^item> \<open>Ebpf_Props\<close>: locale \<open>probe_contract\<close>, discharged for every program; the step relation
    \<open>kernel_step\<close> and its runs \<open>kernel_run\<close>; the properties of the kernel side.
  \<^item> \<open>Bpfx_Convert\<close>: the converters of \<open>core.rs\<close> on the bytes of an item, with \<open>try_send\<close> as an
    argument; the views \<open>net_view\<close>, \<open>process_view\<close>, \<open>mem_view\<close> and \<open>file_view\<close>, with \<open>pending_after\<close>
    and \<open>pending_log\<close> for the two halves of a rename, are written out from the structures and
    mention none of the converters: they are their specification and locale \<open>converter\<close> the refinement, interpreted for the four converters.
  \<^item> \<open>Bpfx_Attach\<close>: the attaching functions of \<open>core.rs\<close> as sequences of calls on the loader
    \<open>aya\<close>; the plans are their specification and locale \<open>attacher\<close> the refinement.
  \<^item> \<open>Bpfx_Runtime\<close>: \<open>BpfxConfig\<close>, \<open>Bpfx\<close>, construction, the four \<open>subscribe\<close> functions and the
    event loop; \<open>spec_drain\<close> and \<open>spec_loop\<close> are the abstract loop.
  \<^item> \<open>Bpfx_Stream\<close>: the streams \<open>Poll*\<close> over the receiving half of a channel, \<open>Bpfx::subscribe\<close>,
    \<open>Bpfx::run\<close> and a consumer's loop over a stream; locale \<open>event_stream\<close> is the contract of a
    stream, interpreted for the four.
  \<^item> \<open>Bpfx_Examples\<close>: the programs of \<open>examples/\<close>, run as systems of the kernel, the event loop
    and the main task (\<open>sys_step\<close>, \<open>sys_run\<close>); locale \<open>subscriber\<close> extends \<open>event_stream\<close> by what
    such a system relies on in a family and carries its invariant, interpreted for the four.
  \<^item> \<open>Bpfx_Client\<close>: a program with several subscriptions (\<open>client_step\<close>, \<open>client_run\<close>), whose loop
    waits, checks for subscribers when it is woken and then drains the ring, and for which a read
    without a defined value has no outcome but a mark; locale
    \<open>client_family\<close> extends \<open>subscriber\<close> by what a family relies on in the other tasks, interpreted
    for the four.
  \<^item> \<open>Bpfx_Resubscribe\<close>: a second subscription of the same family, and the sender that it drops
    (\<open>subscribe_process_over\<close>); locale \<open>exclusive_attacher\<close>
    extends \<open>attacher\<close> to a loader that loads a program once, interpreted for the four.
  \<^item> \<open>Bpfx_Log\<close>: what construction and attachment log; locale \<open>logged_attacher\<close> is how a log follows
    the plan, interpreted for the four.
  \<^item> \<open>Bpfx_Derive\<close>: the derived comparisons of events and filters; locale \<open>rust_ord\<close> is the contract
    of the trait \<open>Ord\<close>, interpreted for the event enumerations, the header, the deduplication key
    and the filters.
  \<^item> \<open>Bpfx_Checks\<close>: the probe checks of \<open>src/test.rs\<close>.
  \<^item> This theory: the properties that span both sides.

  What is shown. On the kernel side: every program returns 0, submits at most one event per
  invocation, correctly tagged and filtered, and in every reachable state the ring holds well-formed
  events only; paths and names in events are those of the files, and an operation on a file whose
  path was recorded is reported exactly when it was selected. On the user side: on such events
  the converters and the loop refine their specifications, never fault, deliver in order and log
  each refusal; pending renames stay bounded and pair their halves; a subscription attaches what
  its filter selects; a consumer's turn over a stream ends, every accepted event is received, the
  loop stops at the first wake-up without a stream, and a stream ends only after the run. Together:
  in every interleaving of kernel, loop and main task, what an example prints is what the kernel
  side submitted, in its order, with every missing event accounted for, and what a subscription's
  programs submit is what it selected. Subscriptions to processes, files and memory coexist, each as
  if it were alone, and while one of their streams is open the loop can convert what is in the ring. The log of a subscription
  names the step that failed. The derived order of the events is total, and sorts by kind before
  time. The properties and the theorems beside them also pin down where the code does something
  else than it means to: the exit status that is always 0, the network filter union that loses
  protocols, the network subscription that cannot share the ring with another, the second file
  subscription that fails and changes the first, the unfiltered unmapping, the
  rename flags that are never written, the stale rename of a full map, \<open>O_DSYNC\<close> reported as
  \<open>SYNC\<close>, the partial inverse of the event type's discriminants, the UDP subscription that attaches
  nothing.

  Parameters and hypotheses. \<open>wf_env\<close>: the helpers respect the sizes of the arrays they fill.
  \<open>str_reads\<close>: \<open>bpf_probe_read_kernel_str\<close> on readable addresses. \<open>aya_law\<close>: the loader knows
  the object's programs, and a call has its effect exactly when it succeeds. \<open>mpsc_law\<close>: a channel
  accepts exactly what it answers \<open>Ok\<close> to. \<open>receiver_law\<close>: it hands out what it accepted, in order,
  and ends only when its senders are dropped and nothing is left. \<open>closing\<close>: a channel whose
  receiver was dropped is closed. \<open>loads_once\<close>: the loader refuses a program that is loaded.
  \<open>maps_writable\<close>: the two maps accept what is written. Each property that uses one has a witness on a concrete instance
  (\<open>demo_env\<close>, \<open>obj_aya\<close>, \<open>once_aya\<close>, \<open>demo_mpsc\<close>, \<open>q_mpsc\<close> with \<open>q_receiver\<close>). No fuel is used: programs and
  converters are total; the event loop, which need not end, runs on the list of its wake-ups and
  reports that it is waiting at the end of the list; a consumer's turn, which a lawless channel
  could keep going for ever, is a partial function and is shown to return.

  Bounds. Machine integers keep their width; \<open>usize\<close> and \<open>isize\<close> are 64 bits, as on the targets
  that run eBPF. The ring's capacity is in \<open>kenv\<close>, as whether a reservation succeeds, and so is the
  capacity of the path map. A read past the end of an item reads the bytes that lie there
  (\<open>item_of\<close>), and a property says where such reads happen.

  Not modelled: the bindings and the loader themselves, the scheduling of \<open>tokio\<close> (the properties
  hold for every interleaving), the derived \<open>Debug\<close>, \<open>Clone\<close>, \<open>Hash\<close> and serialisation, module
  declarations and re-exports, the unused \<open>SockAddrIn\<close> and \<open>SockaddrIn6\<close>.
\<close>

section \<open>From the kernel to a subscriber\<close>

text \<open>The programs of the network family; all they submit are network structures.\<close>

definition net_programs :: "program set" where
  "net_programs = {P_tcp_v4_connect, P_inet_csk_accept, P_tcp_close, P_udp_destroy_sock,
     P_tcp_v6_connect, P_udp_connect, P_udpv6_connect, P_inet_bind, P_inet_listen}"

definition all_net :: "kstate \<Rightarrow> bool" where
  "all_net s = list_all is_net (EVENTS s)"

lemma all_net_emit:
  "all_net s \<Longrightarrow> all_net (snd (emit_v4 env sk rv pr et s))"
  "all_net s \<Longrightarrow> all_net (snd (emit_v6 env sk rv pr et s))"
  by (auto simp: all_net_def emit_v4_def emit_v6_def Let_def split: option.split sum.split)

lemma all_net_family: "all_net s \<Longrightarrow> all_net (snd (emit_by_family env sk rv pr et s))"
  by (auto simp: emit_by_family_def all_net_emit split: option.split)

lemma all_net_program: "p \<in> net_programs \<Longrightarrow> all_net s \<Longrightarrow> all_net (snd (run_program p env s))"
  by (auto simp: net_programs_def try_defs Let_def all_net_emit all_net_family split: option.split)

lemma all_net_run: "kernel_run A s t \<Longrightarrow> A \<subseteq> net_programs \<Longrightarrow> all_net s \<Longrightarrow> all_net t"
proof (induction rule: kernel_run.induct)
  case (run_step s t u)
  from run_step.hyps(2) run_step.IH run_step.prems show ?case
  proof (cases rule: kernel_step.cases)
    case (step_prog p env r)
    with run_step show ?thesis by (metis all_net_program snd_conv subsetD)
  qed (auto simp: all_net_def)
qed

text \<open>The ring as user space reads it: the items are the memory images of what was submitted.\<close>

definition ring_items :: "kstate \<Rightarrow> ('rv \<times> ring_item) list \<Rightarrow> ('rv \<times> raw_event) list \<Rightarrow> bool" where
  "ring_items s items es =
     (map snd es = EVENTS s \<and>
      list_all2 (\<lambda>ri re. fst ri = fst re \<and> is_image (snd ri) (snd re)) items es)"

lemma ring_items_good:
  assumes "ring_inv s" and "ring_items s items es" and "b \<Longrightarrow> all_net s"
  shows "list_all2 (good_item b) items es"
proof -
  have ev: "wf_raw (snd re) \<and> tag_ok (snd re) \<and> (b \<longrightarrow> is_net (snd re))" if "re \<in> set es" for re
  proof -
    from that have "snd re \<in> set (map snd es)" by simp
    with assms(2) have "snd re \<in> set (EVENTS s)" by (simp only: ring_items_def)
    with assms(1,3) show ?thesis by (auto simp: ring_inv_def all_net_def list_all_iff)
  qed
  from assms(2) have "list_all2 (\<lambda>ri re. fst ri = fst re \<and> is_image (snd ri) (snd re)) items es"
    by (simp add: ring_items_def)
  then show ?thesis
    using ev by (auto simp: list_all2_conv_all_nth good_item_def)
qed

section \<open>What a file subscription selects\<close>

fun file_op :: "raw_event \<Rightarrow> FileMask option" where
  "file_op (RE_open _) = Some FileMask_OPEN"
| "file_op (RE_close _) = Some FileMask_CLOSE"
| "file_op (RE_read _) = Some FileMask_READ"
| "file_op (RE_write _) = Some FileMask_WRITE"
| "file_op (RE_delete _) = Some FileMask_DELETE"
| "file_op (RE_rename _) = Some FileMask_RENAME"
| "file_op (RE_rtr _) = Some FileMask_RENAME"
| "file_op _ = None"

fun program_file_op :: "program \<Rightarrow> FileMask option" where
  "program_file_op P_vfs_open = Some FileMask_OPEN"
| "program_file_op P_filp_close = Some FileMask_CLOSE"
| "program_file_op P_vfs_read = Some FileMask_READ"
| "program_file_op P_vfs_write = Some FileMask_WRITE"
| "program_file_op P_vfs_unlink = Some FileMask_DELETE"
| "program_file_op P_vfs_rename = Some FileMask_RENAME"
| "program_file_op P_vfs_rename_retval = Some FileMask_RENAME"
| "program_file_op _ = None"

lemma file_program_op:
  assumes "program_file_op p \<noteq> None" and "EVENTS (snd (run_program p env s)) = EVENTS s @ [e]"
  shows "file_op e = program_file_op p \<and> event_owner e = OwnerFile"
  using assms by (cases p) (auto simp: try_defs Let_def split: option.splits if_splits)

lemma path_program_silent:
  "p \<in> {P_file_open, P_fput} \<Longrightarrow> EVENTS (snd (run_program p env s)) = EVENTS s"
  by (auto simp: try_defs Let_def split: option.split prod.split)

lemma plan_file_attached:
  "p \<in> attached (plan_file filt) \<longleftrightarrow>
     p \<in> {P_file_open, P_fput} \<or>
     (\<exists>m. program_file_op p = Some m \<and> FileMask_contains (ff_event_type filt) m)"
  by (cases p) (auto simp: attached_def plan_file_def Let_def)

lemma plan_file_maps:
  "FILTER (fold apply_effect (plan_file filt) s) 3 = Some (ff_filter filt)"
  "CONFIG (fold apply_effect (plan_file filt) s) 0 = Some (ftf_mode (ff_file_mode filt))"
  by (simp_all add: plan_file_def Let_def)


section \<open>What the other subscriptions select\<close>

fun process_op :: "raw_event \<Rightarrow> ProcessMask option" where
  "process_op (RE_start _) = Some ProcessMask_START"
| "process_op (RE_fork _) = Some ProcessMask_FORK"
| "process_op (RE_exit _) = Some ProcessMask_EXIT"
| "process_op _ = None"

fun program_process_op :: "program \<Rightarrow> ProcessMask option" where
  "program_process_op P_sched_process_exec = Some ProcessMask_START"
| "program_process_op P_sched_process_fork = Some ProcessMask_FORK"
| "program_process_op P_do_group_exit = Some ProcessMask_EXIT"
| "program_process_op _ = None"

fun memory_op :: "raw_event \<Rightarrow> MemoryMask option" where
  "memory_op (RE_mmap _) = Some MemoryMask_MMAP"
| "memory_op (RE_munmap _) = Some MemoryMask_UNMAP"
| "memory_op _ = None"

fun program_memory_op :: "program \<Rightarrow> MemoryMask option" where
  "program_memory_op P_vm_mmap_pgoff = Some MemoryMask_MMAP"
| "program_memory_op P_vm_munmap = Some MemoryMask_UNMAP"
| "program_memory_op _ = None"

fun event_network_op :: "EventType \<Rightarrow> NetworkMask option" where
  "event_network_op Connect = Some NetworkMask_CONNECT"
| "event_network_op Accept = Some NetworkMask_ACCEPT"
| "event_network_op Close = Some NetworkMask_CLOSE"
| "event_network_op Bind = Some NetworkMask_BIND"
| "event_network_op Listen = Some NetworkMask_LISTEN"
| "event_network_op _ = None"

fun protocol_mask :: "RawProtocol \<Rightarrow> ProtocolMask" where
  "protocol_mask RawTcp = ProtocolMask_TCP"
| "protocol_mask RawUdp = ProtocolMask_UDP"

fun network_op :: "raw_event \<Rightarrow> (NetworkMask \<times> ProtocolMask) option" where
  "network_op (RE_net c) =
     map_option (\<lambda>m. (m, protocol_mask (pc_protocol c))) (event_network_op (rh_event_type (pc_header c)))"
| "network_op _ = None"

fun program_network_op :: "program \<Rightarrow> (NetworkMask \<times> ProtocolMask) option" where
  "program_network_op P_tcp_v4_connect = Some (NetworkMask_CONNECT, ProtocolMask_TCP)"
| "program_network_op P_tcp_v6_connect = Some (NetworkMask_CONNECT, ProtocolMask_TCP)"
| "program_network_op P_inet_csk_accept = Some (NetworkMask_ACCEPT, ProtocolMask_TCP)"
| "program_network_op P_tcp_close = Some (NetworkMask_CLOSE, ProtocolMask_TCP)"
| "program_network_op P_inet_bind = Some (NetworkMask_BIND, ProtocolMask_TCP)"
| "program_network_op P_inet_listen = Some (NetworkMask_LISTEN, ProtocolMask_TCP)"
| "program_network_op P_udp_connect = Some (NetworkMask_CONNECT, ProtocolMask_UDP)"
| "program_network_op P_udpv6_connect = Some (NetworkMask_CONNECT, ProtocolMask_UDP)"
| "program_network_op P_udp_destroy_sock = Some (NetworkMask_CLOSE, ProtocolMask_UDP)"
| "program_network_op _ = None"

lemma process_program_op:
  assumes "program_process_op p \<noteq> None" and "EVENTS (snd (run_program p env s)) = EVENTS s @ [e]"
  shows "process_op e = program_process_op p \<and> event_owner e = OwnerProcess \<and> \<not> unfiltered e"
  using assms by (cases p) (auto simp: try_defs Let_def split: option.splits if_splits)

lemma memory_program_op:
  assumes "program_memory_op p \<noteq> None" and "EVENTS (snd (run_program p env s)) = EVENTS s @ [e]"
  shows "memory_op e = program_memory_op p \<and> event_owner e = OwnerMemory"
  using assms by (cases p) (auto simp: try_defs Let_def split: option.splits if_splits)

definition net_event :: "EventType \<Rightarrow> u8 \<Rightarrow> raw_event \<Rightarrow> bool" where
  "net_event et pr e = (\<exists>c. e = RE_net c \<and> rh_event_type (pc_header c) = et \<and> protocol_try_from pr = Inr (pc_protocol c))"

lemma emit_net_event:
  "EVENTS (snd (emit_v4 env sk rv pr et s)) = EVENTS s @ [e] \<Longrightarrow> net_event et pr e"
  "EVENTS (snd (emit_v6 env sk rv pr et s)) = EVENTS s @ [e] \<Longrightarrow> net_event et pr e"
  by (auto simp: emit_v4_def emit_v6_def Let_def net_event_def split: sum.splits if_splits)

lemma emit_family_event:
  "EVENTS (snd (emit_by_family env sk rv pr et s)) = EVENTS s @ [e] \<Longrightarrow> net_event et pr e"
  by (auto simp: emit_by_family_def emit_net_event split: option.splits if_splits)

lemma net_event_op:
  "net_event et 1 e \<Longrightarrow> network_op e = map_option (\<lambda>m. (m, ProtocolMask_TCP)) (event_network_op et) \<and>
     event_owner e = OwnerNetwork \<and> \<not> unfiltered e"
  "net_event et 2 e \<Longrightarrow> network_op e = map_option (\<lambda>m. (m, ProtocolMask_UDP)) (event_network_op et) \<and>
     event_owner e = OwnerNetwork \<and> \<not> unfiltered e"
  by (auto simp: net_event_def protocol_try_from_def)

lemma network_program_op:
  assumes "program_network_op p \<noteq> None" and "EVENTS (snd (run_program p env s)) = EVENTS s @ [e]"
  shows "network_op e = program_network_op p \<and> event_owner e = OwnerNetwork \<and> \<not> unfiltered e"
  using assms
  by (cases p) (auto simp: try_tcp_v4_connect_def try_inet_csk_accept_impl_def try_tcp_close_def
      try_udp_destroy_sock_def try_tcp_v6_connect_def try_udp_connect_def try_udpv6_connect_def
      try_inet_bind_def try_inet_listen_def Let_def split: option.splits if_splits
      dest!: emit_net_event emit_family_event net_event_op)

lemma plan_process_attached:
  "p \<in> attached (plan_process filt) \<longleftrightarrow>
     (\<exists>m. program_process_op p = Some m \<and> ProcessMask_contains (pfl_mask filt) m)"
  by (cases p) (auto simp: attached_def plan_process_def Let_def)

lemma plan_mem_attached:
  "p \<in> attached (plan_mem filt) \<longleftrightarrow>
     (\<exists>m. program_memory_op p = Some m \<and> MemoryMask_contains (mf_mask filt) m)"
  by (cases p) (auto simp: attached_def plan_mem_def)

lemma plan_network_attached:
  "p \<in> attached (plan_network filt) \<longleftrightarrow>
     (\<exists>m pr. program_network_op p = Some (m, pr) \<and> NetworkMask_contains (nf_event_mask filt) m \<and>
        ProtocolMask_contains (nf_protocol_mask filt) pr)"
  by (cases p) (auto simp: attached_def plan_network_def Let_def)

lemma plan_filter_maps:
  "FILTER (fold apply_effect (plan_process filtp) s) 1 = Some (pfl_filter filtp)"
  "FILTER (fold apply_effect (plan_network filtn) s) 2 = Some (nf_filter filtn)"
  "FILTER (fold apply_effect (plan_mem filtm) s) 0 = Some (mf_filter filtm)"
  by (simp_all add: plan_process_def plan_network_def plan_mem_def Let_def)

section \<open>Concrete runs\<close>

definition demo_exit_state :: kstate where
  "demo_exit_state = snd (run_program P_do_group_exit demo_env (boot demo_header))"

definition demo_net_state :: kstate where
  "demo_net_state = snd (run_program P_tcp_v4_connect demo_env (boot demo_header))"

definition demo_ring :: "kstate \<Rightarrow> ((NetworkEvent demo_channel, ProcessEvent demo_channel,
    FileEvent demo_channel, MemoryEvent demo_channel) receivers \<times> ring_item) list" where
  "demo_ring s = map (\<lambda>e. (idle, item_of (enc_raw (\<lambda>_. 0) e) (\<lambda>_. 7))) (EVENTS s)"

lemma demo_ring_items: "ring_items s (demo_ring s) (map (Pair idle) (EVENTS s))"
  by (auto simp: ring_items_def demo_ring_def list_all2_conv_all_nth is_image_def comp_def simp del: enc_raw.simps)

lemma demo_exit_events: "\<exists>x. EVENTS demo_exit_state = [RE_exit x]"
  by (simp add: demo_exit_state_def try_do_group_exit_def Let_def filter_events_def boot_def demo_env_def)

lemma demo_net_run: "kernel_run net_programs (boot demo_header) demo_net_state"
proof -
  have "P_tcp_v4_connect \<in> net_programs" by (simp add: net_programs_def)
  from run_step [OF run_refl step_prog [OF this wf_demo_env prod.collapse [symmetric]]]
  show ?thesis unfolding demo_net_state_def .
qed

lemma demo_file_attach:
  "attach_file_probe obj_aya FileFilter_DELETE ([], []) = (Inr (), (plan_file FileFilter_DELETE, []))"
  by (simp add: attach_file_probe_def plan_file_def write_to_fiter_map_def write_to_map_def
      attach_lsm_probe_def attach_fexit_def load_attach_def obj_aya_def Let_def program_of_name_def
      all_programs_def FileFilter_DELETE_def FileFilter_of_mask_def FileMask_contains_def
      FileMask_consts file_mode_from_type_filter_def)

section \<open>The network example\<close>

lemma emits_only_net: "A \<subseteq> net_programs \<Longrightarrow> emits_only A is_net"
  using all_net_program by (auto simp: emits_only_def all_net_def)

lemma network_lines: "concat (map network_example_lines evs) = map fmt_NetworkEvent evs"
proof (induction evs)
  case (Cons e evs)
  then show ?case by (cases e) simp_all
qed simp

lemma plan_network_all: "attached (plan_network NetworkFilter_ALL) = net_programs"
proof -
  have "p \<in> attached (plan_network NetworkFilter_ALL) \<longleftrightarrow> p \<in> net_programs" for p
    unfolding plan_network_attached
    by (cases p) (simp_all add: net_programs_def NetworkFilter_ALL_def NetworkMask_contains_def
        ProtocolMask_contains_def NetworkMask_ALL_def NetworkMask_consts ProtocolMask_ALL_def ProtocolMask_consts)
  then show ?thesis by blast
qed

lemma network_example_attaches:
  fixes ld :: "('b, 'r, 'x) loading" and tk :: "('n, 'p, 'f, 'm) tokio"
  assumes "network_example ay tk ld = Inr started" and "aya_law ay hist"
    and "\<And>bx :: ('b, 'r, 'n, 'p, 'f, 'm) Bpfx. Bpfx_new ld = Inr bx \<Longrightarrow> hist (bx_bpf bx) = []"
  shows "attached (hist (bx_bpf (fst started))) = net_programs"
  using assms(1) unfolding network_example_def
proof (rule start_exampleE)
  fix bx bx' :: "('b, 'r, 'n, 'p, 'f, 'm) Bpfx" and tx banner
  assume bx: "Bpfx_new ld = Inr bx" and sub: "subscribe_network ay tk NetworkFilter_ALL bx = (Inr tx, bx')"
    and st: "started = (bx', banner)"
  obtain b' where "attach_network_probe ay NetworkFilter_ALL (bx_bpf bx) = (Inr (), b')" and "bx_bpf bx' = b'"
    using sub by (auto simp: subscribe_network_def split: option.splits prod.splits sum.splits)
  with network_attach.success_is_plan [OF assms(2)] assms(3) [OF bx] st plan_network_all show ?thesis by simp
qed

section \<open>The values of the masks\<close>

lemma built_FileMask:
  "built FileMask_bitor {FileMask_OPEN, FileMask_CLOSE, FileMask_READ, FileMask_WRITE, FileMask_DELETE,
      FileMask_RENAME, FileMask_ALL} fm \<longleftrightarrow> fm_bits fm \<noteq> 0 \<and> FileMask_contains FileMask_ALL fm"
proof -
  have all: "FileMask_contains FileMask_ALL v \<longleftrightarrow> take_bit 6 (fm_bits v) = fm_bits v" for v
    by (simp add: FileMask_contains_def FileMask_ALL_def FileMask_consts take_bit_eq_mask mask_eq_exp_minus_1 and.commute)
  have atoms: "FileMask (2 ^ i) \<in> {FileMask_OPEN, FileMask_CLOSE, FileMask_READ, FileMask_WRITE, FileMask_DELETE,
      FileMask_RENAME, FileMask_ALL}" if "i < 6" for i
  proof -
    from that have "i \<in> {0, 1, 2, 3, 4, 5}" by auto
    then show ?thesis by (auto simp: FileMask_consts)
  qed
  have within: "fm_bits c \<noteq> 0 \<and> take_bit 6 (fm_bits c) = fm_bits c" if "c \<in> {FileMask_OPEN, FileMask_CLOSE, FileMask_READ, FileMask_WRITE, FileMask_DELETE,
      FileMask_RENAME, FileMask_ALL}" for c
    using that by (auto simp: FileMask_consts FileMask_ALL_def)
  show ?thesis unfolding all by (rule file_mask.built_iff [OF atoms within])
qed

lemma built_NetworkMask:
  "built NetworkMask_bitor {NetworkMask_CONNECT, NetworkMask_ACCEPT, NetworkMask_CLOSE, NetworkMask_BIND,
      NetworkMask_LISTEN, NetworkMask_ALL} nm \<longleftrightarrow> nm_bits nm \<noteq> 0 \<and> NetworkMask_contains NetworkMask_ALL nm"
proof -
  have all: "NetworkMask_contains NetworkMask_ALL v \<longleftrightarrow> take_bit 5 (nm_bits v) = nm_bits v" for v
    by (simp add: NetworkMask_contains_def NetworkMask_ALL_def NetworkMask_consts take_bit_eq_mask mask_eq_exp_minus_1 and.commute)
  have atoms: "NetworkMask (2 ^ i) \<in> {NetworkMask_CONNECT, NetworkMask_ACCEPT, NetworkMask_CLOSE, NetworkMask_BIND,
      NetworkMask_LISTEN, NetworkMask_ALL}" if "i < 5" for i
  proof -
    from that have "i \<in> {0, 1, 2, 3, 4}" by auto
    then show ?thesis by (auto simp: NetworkMask_consts)
  qed
  have within: "nm_bits c \<noteq> 0 \<and> take_bit 5 (nm_bits c) = nm_bits c" if "c \<in> {NetworkMask_CONNECT, NetworkMask_ACCEPT, NetworkMask_CLOSE, NetworkMask_BIND,
      NetworkMask_LISTEN, NetworkMask_ALL}" for c
    using that by (auto simp: NetworkMask_consts NetworkMask_ALL_def)
  show ?thesis unfolding all by (rule network_mask.built_iff [OF atoms within])
qed

lemma built_ProtocolMask:
  "built ProtocolMask_bitor {ProtocolMask_TCP, ProtocolMask_UDP, ProtocolMask_ALL} pm \<longleftrightarrow>
      prm_bits pm \<noteq> 0 \<and> ProtocolMask_contains ProtocolMask_ALL pm"
proof -
  have all: "ProtocolMask_contains ProtocolMask_ALL v \<longleftrightarrow> take_bit 2 (prm_bits v) = prm_bits v" for v
    by (simp add: ProtocolMask_contains_def ProtocolMask_ALL_def ProtocolMask_consts take_bit_eq_mask mask_eq_exp_minus_1 and.commute)
  have atoms: "ProtocolMask (2 ^ i) \<in> {ProtocolMask_TCP, ProtocolMask_UDP, ProtocolMask_ALL}" if "i < 2" for i
  proof -
    from that have "i \<in> {0, 1}" by auto
    then show ?thesis by (auto simp: ProtocolMask_consts)
  qed
  have within: "prm_bits c \<noteq> 0 \<and> take_bit 2 (prm_bits c) = prm_bits c" if "c \<in> {ProtocolMask_TCP, ProtocolMask_UDP, ProtocolMask_ALL}" for c
    using that by (auto simp: ProtocolMask_consts ProtocolMask_ALL_def)
  show ?thesis unfolding all by (rule protocol_mask.built_iff [OF atoms within])
qed

lemma built_ProcessMask:
  "built ProcessMask_bitor {ProcessMask_START, ProcessMask_FORK, ProcessMask_EXIT, ProcessMask_ALL} cm \<longleftrightarrow>
      pm_bits cm \<noteq> 0 \<and> ProcessMask_contains ProcessMask_ALL cm"
proof -
  have all: "ProcessMask_contains ProcessMask_ALL v \<longleftrightarrow> take_bit 3 (pm_bits v) = pm_bits v" for v
    by (simp add: ProcessMask_contains_def ProcessMask_ALL_def ProcessMask_consts take_bit_eq_mask mask_eq_exp_minus_1 and.commute)
  have atoms: "ProcessMask (2 ^ i) \<in> {ProcessMask_START, ProcessMask_FORK, ProcessMask_EXIT, ProcessMask_ALL}" if "i < 3" for i
  proof -
    from that have "i \<in> {0, 1, 2}" by auto
    then show ?thesis by (auto simp: ProcessMask_consts)
  qed
  have within: "pm_bits c \<noteq> 0 \<and> take_bit 3 (pm_bits c) = pm_bits c" if "c \<in> {ProcessMask_START, ProcessMask_FORK, ProcessMask_EXIT, ProcessMask_ALL}" for c
    using that by (auto simp: ProcessMask_consts ProcessMask_ALL_def)
  show ?thesis unfolding all by (rule process_mask.built_iff [OF atoms within])
qed

lemma built_MemoryMask:
  "built MemoryMask_bitor {MemoryMask_MMAP, MemoryMask_UNMAP, MemoryMask_ALL} mm \<longleftrightarrow>
      mmk_bits mm \<noteq> 0 \<and> MemoryMask_contains MemoryMask_ALL mm"
proof -
  have all: "MemoryMask_contains MemoryMask_ALL v \<longleftrightarrow> take_bit 2 (mmk_bits v) = mmk_bits v" for v
    by (simp add: MemoryMask_contains_def MemoryMask_ALL_def MemoryMask_consts take_bit_eq_mask mask_eq_exp_minus_1 and.commute)
  have atoms: "MemoryMask (2 ^ i) \<in> {MemoryMask_MMAP, MemoryMask_UNMAP, MemoryMask_ALL}" if "i < 2" for i
  proof -
    from that have "i \<in> {0, 1}" by auto
    then show ?thesis by (auto simp: MemoryMask_consts)
  qed
  have within: "mmk_bits c \<noteq> 0 \<and> take_bit 2 (mmk_bits c) = mmk_bits c" if "c \<in> {MemoryMask_MMAP, MemoryMask_UNMAP, MemoryMask_ALL}" for c
    using that by (auto simp: MemoryMask_consts MemoryMask_ALL_def)
  show ?thesis unfolding all by (rule memory_mask.built_iff [OF atoms within])
qed

section \<open>Properties of the whole system\<close>

text \<open>
  End to end, for processes. Start from the freshly loaded maps, let any programs run in any
  order while the filters are rewritten, and read the ring with a process subscriber and without a
  network one: the loop's body never faults, and the subscriber's channel has accepted the process
  events that the kernel side submitted, in their order and none twice, each missing one having a
  line in the log.
\<close>

theorem kernel_to_process_subscriber:
  assumes "kernel_run A (boot h0) s" and "ring_items s items es" and "bx_network bx = None"
    and "mpsc_law (tk_process tk) acc" and "list_all (\<lambda>re. \<forall>tx. acc (rv_process (fst re) tx) = acc tx) es"
    and "bx_process bx = Some r" and "drain tk items bx = (res, bx', lg)"
  shows "res = Inr () \<and> (\<exists>r' sent. bx_process bx' = Some r' \<and> acc (pr_tx r') = acc (pr_tx r) @ sent \<and>
    subseq sent (List.map_filter process_view (EVENTS s)) \<and>
    length (List.map_filter process_view (EVENTS s)) = length sent + drops ''process'' lg)"
proof -
  have "ring_inv s" by (rule kernel_run_ring_inv [OF assms(1) boot_ring_inv])
  then have good: "list_all2 (good_item (bx_network bx \<noteq> None)) items es"
    by (rule ring_items_good) (use assms(2,3) in simp_all)
  have "EVENTS s = map snd es" using assms(2) by (simp add: ring_items_def)
  then have "List.map_filter process_view (EVENTS s) = views process_view es"
    by (simp add: views_def map_filter_def filter_map comp_def)
  with process_run_accounted [OF good assms(4-7)] show ?thesis by simp
qed

theorem kernel_to_process_subscriber_witness:
  "\<exists>bx' lg. drain demo_tokio (demo_ring demo_exit_state) demo_bpfx = (Inr () :: unit fault + unit, bx', lg) \<and>
     (\<exists>r' sent. bx_process bx' = Some r' \<and> snd (pr_tx r') = sent \<and> 1 = length sent + drops ''process'' lg)"
proof -
  obtain res :: "unit fault + unit" and bx' lg where d:
    "drain demo_tokio (demo_ring demo_exit_state) demo_bpfx = (res, bx', lg)"
    by (cases "drain demo_tokio (demo_ring demo_exit_state) demo_bpfx :: (_, unit) stage") auto
  have run: "kernel_run UNIV (boot demo_header) demo_exit_state"
    unfolding demo_exit_state_def by (rule demo_run [OF run_refl])
  have len: "length (List.map_filter process_view (EVENTS demo_exit_state)) = 1"
    using demo_exit_events by (auto simp: List.map_filter_simps)
  have tk: "mpsc_law (tk_process demo_tokio) snd" "bx_network demo_bpfx = None"
    "list_all (\<lambda>re. \<forall>tx. snd (rv_process (fst re) tx) = snd tx) (map (Pair idle) (EVENTS demo_exit_state))"
    by (simp_all add: demo_tokio_def demo_mpsc_law demo_bpfx_def idle_def list_all_iff)
  obtain r where r: "bx_process demo_bpfx = Some r" "snd (pr_tx r) = []" by (simp add: demo_bpfx_def)
  from kernel_to_process_subscriber [OF run demo_ring_items tk(2,1,3) r(1) d] d len r(2) show ?thesis
    by auto
qed

text \<open>
  End to end, for the network. When only network programs are attached, the network converter
  is safe on everything in the ring: with any subscriptions the loop's body never faults, so
  neither an \<open>unwrap\<close> panics nor an item is misread.
\<close>

theorem network_only_ring_is_safe:
  assumes "kernel_run A (boot h0) s" and "A \<subseteq> net_programs" and "ring_items s items es"
  shows "drain tk items bx = (Inr (), spec_drain tk es bx)"
proof (rule drain_spec)
  have "ring_inv s" by (rule kernel_run_ring_inv [OF assms(1) boot_ring_inv])
  moreover have "all_net s"
    by (rule all_net_run [OF assms(1,2)]) (simp add: all_net_def boot_def)
  ultimately show "list_all2 (good_item (bx_network bx \<noteq> None)) items es"
    using assms(3) by (blast intro: ring_items_good)
qed

theorem network_only_ring_is_safe_witness:
  "drain demo_tokio (demo_ring demo_net_state) demo_bpfx =
     (Inr () :: unit fault + unit,
      spec_drain demo_tokio (map (Pair idle) (EVENTS demo_net_state)) demo_bpfx)"
  by (rule network_only_ring_is_safe [OF demo_net_run order_refl demo_ring_items])

text \<open>
  C8: a file subscription gets what it selected. After a successful subscription on a freshly
  loaded object, every event that an attached program submits while the filter maps stay as
  written is one of the selected operations, of a selected file type, and from a task that matches
  the process filter (the return value of a rename excepted, which is only used to complete a
  rename that did).
\<close>

theorem file_subscription_selects:
  assumes "aya_law ay hist" and "attach_file_probe ay filt b = (Inr (), b')" and "hist b = []"
    and "p \<in> attached (hist b')"
    and "FILTER s = FILTER (fold apply_effect (hist b') (boot h0))"
    and "CONFIG s = CONFIG (fold apply_effect (hist b') (boot h0))"
    and "EVENTS (snd (run_program p env s)) = EVENTS s @ [e]"
  shows "(\<exists>m. file_op e = Some m \<and> FileMask_contains (ff_event_type filt) m) \<and>
    (unfiltered e \<or> key_matches (ff_filter filt) (raw_header e)) \<and>
    (case event_mode e of None \<Rightarrow> True | Some m \<Rightarrow> mode (ftf_mode (ff_file_mode filt)) AND m \<noteq> 0)"
proof -
  have h: "hist b' = plan_file filt" using file_attach.success_is_plan [OF assms(1,2)] assms(3) by simp
  have "p \<notin> {P_file_open, P_fput}" using path_program_silent [of p env s] assms(7) by auto
  with assms(4) h obtain m where m: "program_file_op p = Some m" "FileMask_contains (ff_event_type filt) m"
    by (auto simp: plan_file_attached)
  have op: "file_op e = Some m" "event_owner e = OwnerFile"
    using file_program_op [OF _ assms(7)] m by auto
  have ok: "emit_ok env s e" using prog.emitted_filtered [OF assms(7), of e] by simp
  then show ?thesis
    using m op assms(5,6) h
    by (auto simp: emit_ok_def passes_def type_selected_def plan_file_maps split: option.splits)
qed

theorem file_subscription_selects_witness:
  "\<exists>e. EVENTS (snd (run_program P_vfs_unlink demo_env
        (fold apply_effect (plan_file FileFilter_DELETE) (boot demo_header)))) = [e] \<and>
     (\<exists>m. file_op e = Some m \<and> FileMask_contains (ff_event_type FileFilter_DELETE) m)"
proof -
  let ?s = "fold apply_effect (plan_file FileFilter_DELETE) (boot demo_header)"
  have p: "P_vfs_unlink \<in> attached (fst (plan_file FileFilter_DELETE, [] :: string list))"
    by (simp add: plan_file_attached FileFilter_DELETE_def FileFilter_of_mask_def FileMask_contains_def)
  have f: "FILTER ?s = FILTER (fold apply_effect (fst (plan_file FileFilter_DELETE, [] :: string list)) (boot demo_header))"
    "CONFIG ?s = CONFIG (fold apply_effect (fst (plan_file FileFilter_DELETE, [] :: string list)) (boot demo_header))"
    by simp_all
  have none: "EVENTS ?s = []" by (simp add: plan_file_def Let_def boot_def)
  obtain e where e: "EVENTS (snd (run_program P_vfs_unlink demo_env ?s)) = EVENTS ?s @ [e]"
    by (simp add: try_vfs_unlink_def Let_def demo_env_def plan_file_def boot_def filter_events_def
        capture_inode_def type_of_mode_def file_mode_consts file_bits FileFilter_DELETE_def
        FileFilter_of_mask_def FileTypeFilter_default_def FileTypeFilter_ALL_def FileTypeFilter_consts)
  from file_subscription_selects [OF obj_aya_law demo_file_attach _ p f e] none e show ?thesis by auto
qed

text \<open>
  C29: the file type a subscriber reads is the type of the inode: for the seven types a mode can
  have, the bits of the reported type are the format bits of the inode's mode, and any other
  format is reported as unknown. A file or an inode is selected exactly when the configured types
  have the bit of its format; what is selected is reported with the format bits of its inode, and
  an inode of any other format is never selected, whatever is configured.
\<close>

theorem file_type_end_to_end:
  "mode_bits (file_type_from \<lparr>mode = type_of_mode m\<rparr>) =
     (if m AND S_IFMT \<in> {S_IFREG, S_IFDIR, S_IFCHR, S_IFBLK, S_IFIFO, S_IFLNK, S_IFSOCK}
      then ucast (m AND S_IFMT) else 0) \<and>
   (file_type_from \<lparr>mode = type_of_mode m\<rparr> = Unknown \<longleftrightarrow> type_of_mode m = 0) \<and>
   (fst (capture_inode env s i) \<longleftrightarrow> (\<exists>c. CONFIG s 0 = Some c \<and> mode c AND format_bit (k_i_mode env i) \<noteq> 0)) \<and>
   (fst (capture_inode env s i) \<longrightarrow>
      mode_bits (file_type_from (snd (capture_inode env s i))) = ucast (k_i_mode env i AND S_IFMT)) \<and>
   (k_i_mode env i AND S_IFMT \<notin> {S_IFREG, S_IFDIR, S_IFCHR, S_IFBLK, S_IFIFO, S_IFLNK, S_IFSOCK} \<longrightarrow>
      \<not> fst (capture_inode env s i)) \<and>
   (k_f_inode env f = i \<longrightarrow> capture_file env s f = capture_inode env s i)"
proof (intro conjI impI)
  have fmt: "mode_bits (file_type_from \<lparr>mode = type_of_mode m\<rparr>) =
     (if m AND S_IFMT \<in> {S_IFREG, S_IFDIR, S_IFCHR, S_IFBLK, S_IFIFO, S_IFLNK, S_IFSOCK}
      then ucast (m AND S_IFMT) else 0)" for m
    by (simp add: type_of_mode_def file_type_from_def file_mode_consts file_bits Let_def)
  then show "mode_bits (file_type_from \<lparr>mode = type_of_mode m\<rparr>) =
     (if m AND S_IFMT \<in> {S_IFREG, S_IFDIR, S_IFCHR, S_IFBLK, S_IFIFO, S_IFLNK, S_IFSOCK}
      then ucast (m AND S_IFMT) else 0)" .
  show "file_type_from \<lparr>mode = type_of_mode m\<rparr> = Unknown \<longleftrightarrow> type_of_mode m = 0"
    by (simp add: type_of_mode_def file_type_from_def file_mode_consts file_bits Let_def)
  show sel: "fst (capture_inode env s i) \<longleftrightarrow> (\<exists>c. CONFIG s 0 = Some c \<and> mode c AND format_bit (k_i_mode env i) \<noteq> 0)"
    by (rule capture_inode_format)
  show other: "\<not> fst (capture_inode env s i)"
    if "k_i_mode env i AND S_IFMT \<notin> {S_IFREG, S_IFDIR, S_IFCHR, S_IFBLK, S_IFIFO, S_IFLNK, S_IFSOCK}"
    using that by (auto simp: sel format_bit_def file_mode_consts)
  show "mode_bits (file_type_from (snd (capture_inode env s i))) = ucast (k_i_mode env i AND S_IFMT)"
    if "fst (capture_inode env s i)"
    using other that capture_inode_format(2) [OF that] fmt [of "k_i_mode env i"] by (auto simp: type_of_mode_format)
  show "capture_file env s f = capture_inode env s i" if "k_f_inode env f = i"
    using that by (simp add: capture_file_inode)
qed

theorem file_type_end_to_end_witness:
  "fst (capture_file demo_env demo_state 4096) \<and>
   mode_bits (file_type_from (snd (capture_file demo_env demo_state 4096))) = 0x8000 \<and>
   \<not> fst (capture_inode (demo_env\<lparr>k_i_mode := \<lambda>_. 0x31A4\<rparr>) (demo_state\<lparr>CONFIG := \<lambda>_. Some \<lparr>mode = 0xFFFF\<rparr>\<rparr>) 4096)"
proof -
  have "format_bit (k_i_mode demo_env 4096) = 1" "k_f_inode demo_env 4096 = 4096" "CONFIG demo_state 0 = Some \<lparr>mode = 0x7F\<rparr>"
    "ucast (k_i_mode demo_env 4096 AND S_IFMT) = (0x8000 :: u32)"
    by (simp_all add: demo_env_def demo_state_def format_bit_def S_IFMT_def)
  moreover have "k_i_mode (demo_env\<lparr>k_i_mode := \<lambda>_. 0x31A4\<rparr>) 4096 AND S_IFMT \<notin>
      {S_IFREG, S_IFDIR, S_IFCHR, S_IFBLK, S_IFIFO, S_IFLNK, S_IFSOCK}"
    by (simp add: file_mode_consts)
  ultimately show ?thesis
    using file_type_end_to_end [of 0 demo_env demo_state 4096 4096]
      file_type_end_to_end [of 0 "demo_env\<lparr>k_i_mode := \<lambda>_. 0x31A4\<rparr>" "demo_state\<lparr>CONFIG := \<lambda>_. Some \<lparr>mode = 0xFFFF\<rparr>\<rparr>" 4096 4096]
    by auto
qed

text \<open>
  C10: a process subscription gets what it selected: after a successful subscription on a freshly
  loaded object, every event that an attached program submits while the filter map stays as written
  is one of the selected operations and from a task that matches the process filter.
\<close>

theorem process_subscription_selects:
  assumes "aya_law ay hist" and "attach_process_probe ay filt b = (Inr (), b')" and "hist b = []"
    and "p \<in> attached (hist b')" and "FILTER s = FILTER (fold apply_effect (hist b') (boot h0))"
    and "EVENTS (snd (run_program p env s)) = EVENTS s @ [e]"
  shows "(\<exists>m. process_op e = Some m \<and> ProcessMask_contains (pfl_mask filt) m) \<and>
    key_matches (pfl_filter filt) (raw_header e)"
proof -
  have h: "hist b' = plan_process filt" using process_attach.success_is_plan [OF assms(1,2)] assms(3) by simp
  with assms(4) obtain m where m: "program_process_op p = Some m" "ProcessMask_contains (pfl_mask filt) m"
    by (auto simp: plan_process_attached)
  have op: "process_op e = Some m" "event_owner e = OwnerProcess" "\<not> unfiltered e"
    using process_program_op [OF _ assms(6)] m by auto
  have "emit_ok env s e" using prog.emitted_filtered [OF assms(6), of e] by simp
  with m op assms(5) h show ?thesis by (auto simp: emit_ok_def passes_def plan_filter_maps)
qed

theorem process_subscription_selects_witness:
  "\<exists>e. EVENTS (snd (run_program P_do_group_exit demo_env
        (fold apply_effect (plan_process ProcessFilter_EXIT) (boot demo_header)))) = [e] \<and> process_op e = Some ProcessMask_EXIT"
proof -
  let ?s = "fold apply_effect (plan_process ProcessFilter_EXIT) (boot demo_header)"
  have a: "attach_process_probe obj_aya ProcessFilter_EXIT ([], []) = (Inr (), (plan_process ProcessFilter_EXIT, []))"
    by (simp add: demo_attach plan_process_def ProcessFilter_EXIT_def ProcessMask_contains_def ProcessMask_consts)
  have p: "P_do_group_exit \<in> attached (fst (plan_process ProcessFilter_EXIT, [] :: string list))"
    by (simp add: plan_process_attached ProcessFilter_EXIT_def ProcessMask_contains_def)
  have none: "EVENTS ?s = []" by (simp add: plan_process_def Let_def boot_def)
  obtain e where e: "EVENTS (snd (run_program P_do_group_exit demo_env ?s)) = EVENTS ?s @ [e]"
    by (simp add: try_do_group_exit_def Let_def demo_env_def plan_process_def boot_def filter_events_def
        ProcessFilter_EXIT_def)
  have f: "FILTER ?s = FILTER (fold apply_effect (fst (plan_process ProcessFilter_EXIT, [] :: string list)) (boot demo_header))"
    by simp
  from process_subscription_selects [OF obj_aya_law a _ p f e] none e
    process_program_op [OF _ e] show ?thesis by auto
qed

text \<open>
  C9: a network subscription gets what it selected: every event that an attached program submits is
  of a selected operation and of a selected protocol, and from a task that matches the process filter.
\<close>

theorem network_subscription_selects:
  assumes "aya_law ay hist" and "attach_network_probe ay filt b = (Inr (), b')" and "hist b = []"
    and "p \<in> attached (hist b')" and "FILTER s = FILTER (fold apply_effect (hist b') (boot h0))"
    and "EVENTS (snd (run_program p env s)) = EVENTS s @ [e]"
  shows "(\<exists>m pr. network_op e = Some (m, pr) \<and> NetworkMask_contains (nf_event_mask filt) m \<and>
      ProtocolMask_contains (nf_protocol_mask filt) pr) \<and> key_matches (nf_filter filt) (raw_header e)"
proof -
  have h: "hist b' = plan_network filt" using network_attach.success_is_plan [OF assms(1,2)] assms(3) by simp
  with assms(4) obtain m pr where m: "program_network_op p = Some (m, pr)" "NetworkMask_contains (nf_event_mask filt) m"
    "ProtocolMask_contains (nf_protocol_mask filt) pr"
    by (auto simp: plan_network_attached)
  have op: "network_op e = Some (m, pr)" "event_owner e = OwnerNetwork" "\<not> unfiltered e"
    using network_program_op [OF _ assms(6)] m by auto
  have "emit_ok env s e" using prog.emitted_filtered [OF assms(6), of e] by simp
  with m op assms(5) h show ?thesis by (auto simp: emit_ok_def passes_def plan_filter_maps)
qed

theorem network_subscription_selects_witness:
  "\<exists>e. EVENTS (snd (run_program P_udp_connect demo_env
        (fold apply_effect (plan_network NetworkFilter_UDP) (boot demo_header)))) = [e] \<and>
     (\<exists>m pr. network_op e = Some (m, pr) \<and> ProtocolMask_contains ProtocolMask_UDP pr)"
proof -
  let ?s = "fold apply_effect (plan_network NetworkFilter_UDP) (boot demo_header)"
  note udp = NetworkFilter_UDP_def NetworkMask_contains_def ProtocolMask_contains_def NetworkMask_ALL_def
    NetworkMask_consts ProtocolMask_consts
  have a: "attach_network_probe obj_aya NetworkFilter_UDP ([], []) = (Inr (), (plan_network NetworkFilter_UDP, []))"
    by (simp add: demo_attach plan_network_def udp UDP_CONNECT_def UDP_CLOSE_def)
  have p: "P_udp_connect \<in> attached (fst (plan_network NetworkFilter_UDP, [] :: string list))"
    by (simp add: plan_network_attached udp)
  have none: "EVENTS ?s = []" by (simp add: plan_network_def udp Let_def boot_def)
  obtain e where e: "EVENTS (snd (run_program P_udp_connect demo_env ?s)) = EVENTS ?s @ [e]"
    by (simp add: try_udp_connect_def emit_v4_def then_ok_def protocol_try_from_def Let_def demo_env_def plan_network_def
        boot_def filter_events_def udp)
  have f: "FILTER ?s = FILTER (fold apply_effect (fst (plan_network NetworkFilter_UDP, [] :: string list)) (boot demo_header))"
    by simp
  from network_subscription_selects [OF obj_aya_law a _ p f e] none e show ?thesis by (auto simp: NetworkFilter_UDP_def)
qed

text \<open>
  C11: a memory subscription gets the operations it selected; its process filter holds for mappings,
  but unmappings of every task are submitted.
\<close>

theorem memory_subscription_selects:
  assumes "aya_law ay hist" and "attach_mem_probe ay filt b = (Inr (), b')" and "hist b = []"
    and "p \<in> attached (hist b')" and "FILTER s = FILTER (fold apply_effect (hist b') (boot h0))"
    and "EVENTS (snd (run_program p env s)) = EVENTS s @ [e]"
  shows "\<exists>m. memory_op e = Some m \<and> MemoryMask_contains (mf_mask filt) m \<and>
    (m = MemoryMask_MMAP \<longrightarrow> key_matches (mf_filter filt) (raw_header e))"
proof -
  have h: "hist b' = plan_mem filt" using mem_attach.success_is_plan [OF assms(1,2)] assms(3) by simp
  with assms(4) obtain m where m: "program_memory_op p = Some m" "MemoryMask_contains (mf_mask filt) m"
    by (auto simp: plan_mem_attached)
  have op: "memory_op e = Some m" "event_owner e = OwnerMemory"
    using memory_program_op [OF _ assms(6)] m by auto
  then have "m = MemoryMask_MMAP \<Longrightarrow> \<not> unfiltered e" by (cases e) (auto simp: MemoryMask_consts)
  moreover have "emit_ok env s e" using prog.emitted_filtered [OF assms(6), of e] by simp
  ultimately show ?thesis
    using m op assms(5) h by (auto simp: emit_ok_def passes_def plan_filter_maps)
qed

theorem memory_subscription_selects_witness:
  "\<exists>e. EVENTS (snd (run_program P_vm_munmap demo_env
        (fold apply_effect (plan_mem MemoryFilter_UNMAP) (boot demo_header)))) = [e] \<and>
     (\<exists>m. memory_op e = Some m \<and> MemoryMask_contains MemoryMask_UNMAP m)"
proof -
  let ?s = "fold apply_effect (plan_mem MemoryFilter_UNMAP) (boot demo_header)"
  have a: "attach_mem_probe obj_aya MemoryFilter_UNMAP ([], []) = (Inr (), (plan_mem MemoryFilter_UNMAP, []))"
    by (simp add: demo_attach plan_mem_def MemoryFilter_UNMAP_def MemoryMask_contains_def MemoryMask_consts)
  have p: "P_vm_munmap \<in> attached (fst (plan_mem MemoryFilter_UNMAP, [] :: string list))"
    by (simp add: plan_mem_attached MemoryFilter_UNMAP_def MemoryMask_contains_def)
  have none: "EVENTS ?s = []" by (simp add: plan_mem_def boot_def)
  obtain e where e: "EVENTS (snd (run_program P_vm_munmap demo_env ?s)) = EVENTS ?s @ [e]"
    by (simp add: try_vm_munmap_def Let_def demo_env_def)
  have f: "FILTER ?s = FILTER (fold apply_effect (fst (plan_mem MemoryFilter_UNMAP, [] :: string list)) (boot demo_header))"
    by simp
  from memory_subscription_selects [OF obj_aya_law a _ p f e] none e show ?thesis by (auto simp: MemoryFilter_UNMAP_def)
qed

text \<open>
  C2: the network example, with the programs that its own subscription attached and the kernel, the
  event loop and the main task taking turns in any order. No structure of another family reaches
  the ring, so the loop never faults: after the first line exactly one line is printed for each
  event handed out, in the order of their submission and none twice, and each network event read
  from the ring is printed, or waiting in the channel, or has a line in the log.
\<close>

theorem network_example_reports:
  fixes ld :: "('b, 'r, 'x) loading" and tk :: "('n, 'p, 'f, 'm) tokio"
  assumes "network_example ay tk ld = Inr started" and "aya_law ay hist"
    and "\<And>bx :: ('b, 'r, 'n, 'p, 'f, 'm) Bpfx. Bpfx_new ld = Inr bx \<Longrightarrow> hist (bx_bpf bx) = []"
    and "receiver_law (tk_network tk) (sm_network sm) acc got gone" and "kernel_run {} (boot h0) k"
    and "sys_run (attached (hist (bx_bpf (fst started)))) tk sm network_port (PollNetwork_poll_next (sm_network sm))
      network_example_lines (sys_start k started) s"
  shows "list_all is_net (sy_read s @ EVENTS (sy_kernel s)) \<and>
    (\<forall>res. sy_end s = Some res \<longrightarrow> (\<exists>x. res = Inl (Err (Io x)))) \<and>
    (\<exists>st. pt_get network_port (sy_bx s) = Some st \<and> prefix (got (pn_rx st)) (acc (pn_rx st)) \<and>
      sy_out s = ''Watching network activity (Ctrl+C to exit)...'' # map fmt_NetworkEvent (got (pn_rx st)) \<and>
      subseq (acc (pn_rx st)) (List.map_filter net_view (sy_read s)) \<and>
      length (List.map_filter net_view (sy_read s)) = length (acc (pn_rx st)) + drops ''network'' (sy_log s) \<and>
      (sy_left s \<longrightarrow> got (pn_rx st) = acc (pn_rx st) \<and> sy_end s \<noteq> None))"
proof -
  note start = network_example_start [OF assms(1,4)] and k = quiet_start [OF assms(5)]
  then obtain st where st: "pt_get network_port (fst started) = Some st" "acc (pn_rx st) = []" "\<not> gone (pn_rx st)"
    by blast
  have A: "emits_only (attached (hist (bx_bpf (fst started)))) is_net"
    using network_example_attaches [OF assms(1-3)] by (simp add: emits_only_net)
  have net: "list_all is_net (sy_read s @ EVENTS (sy_kernel s))"
    using sys_run_only [OF assms(6) A] k by simp
  from network_sub.run_inv [OF assms(6,4) A, of st] start k st
  obtain st' where st': "pt_get network_port (sy_bx s) = Some st'"
    "stream_inv acc got gone network_example_lines [''Watching network activity (Ctrl+C to exit)...'']
       (List.map_filter net_view (sy_read s)) ''network'' (pn_rx st') s"
    by auto
  with net receiver_lawD(2) [OF assms(4), of "pn_rx st'"] show ?thesis
    by (auto simp: stream_inv_def network_lines)
qed

theorem network_example_reports_witness:
  "\<exists>started (s :: (_, unit) system). network_example obj_aya q_tokio demo_ld = Inr started \<and>
    sys_run (attached (fst (bx_bpf (fst started)))) q_tokio q_streams network_port (PollNetwork_poll_next (sm_network q_streams))
      network_example_lines (sys_start (boot demo_header) started) s \<and> length (sy_read s) = 1 \<and>
    (\<exists>st. pt_get network_port (sy_bx s) = Some st \<and>
      length (List.map_filter net_view (sy_read s)) = length (q_acc (pn_rx st)) + drops ''network'' (sy_log s))"
proof -
  obtain started where start: "network_example obj_aya q_tokio demo_ld = (Inr started :: unit fault + _)"
    using demo_started by blast
  have law: "receiver_law (tk_network q_tokio) (sm_network q_streams) q_acc qc_got qc_tx_gone"
    using q_law by (simp add: q_tokio_def q_streams_def)
  have fresh: "fst (bx_bpf bx) = []" if "Bpfx_new demo_ld = Inr bx"
    for bx :: "(_, _, NetworkEvent qchan, ProcessEvent qchan, FileEvent qchan, MemoryEvent qchan) Bpfx"
    using that by (auto simp: Bpfx_new_def demo_ld_def)
  have kr: "kernel_run {} (boot demo_header) (boot demo_header)" by (rule run_refl)
  let ?A = "attached (fst (bx_bpf (fst started)))"
  have p: "P_tcp_v4_connect \<in> ?A"
    using network_example_attaches [OF start obj_aya_law fresh] by (simp add: net_programs_def)
  obtain e where e: "EVENTS (snd (run_program P_tcp_v4_connect demo_env (boot demo_header))) = [e]" "is_net e"
    by (auto simp: try_tcp_v4_connect_def emit_v4_def then_ok_def protocol_try_from_def Let_def demo_env_def boot_def
        filter_events_def)
  have "\<exists>s :: (_, unit) system. sys_run ?A q_tokio q_streams network_port (PollNetwork_poll_next (sm_network q_streams))
      network_example_lines (sys_start (boot demo_header) started) s \<and> sy_read s = [e]"
    by (rule network_sub.one_event_run [OF p wf_demo_env conjunct1 [OF quiet_start [OF kr]]
        conjunct2 [OF quiet_start [OF kr]] e]) simp
  then obtain s :: "(_, unit) system" where run: "sys_run ?A q_tokio q_streams network_port
      (PollNetwork_poll_next (sm_network q_streams)) network_example_lines (sys_start (boot demo_header) started) s"
    and read: "sy_read s = [e]" by blast
  from network_example_reports [OF start obj_aya_law fresh law kr run] obtain st where
    "pt_get network_port (sy_bx s) = Some st"
    "length (List.map_filter net_view (sy_read s)) = length (q_acc (pn_rx st)) + drops ''network'' (sy_log s)" by blast
  with start run read show ?thesis by fastforce
qed

text \<open>
  C37: a subscription to the binds, listens or accepts of UDP attaches nothing. If the maps can be
  written it succeeds, and all it has done is to write the process filter: it has attached no program
  that could submit an event for its stream; the programs on \<open>inet_bind\<close> and \<open>inet_listen\<close> are
  attached for TCP only.
\<close>

theorem udp_binds_attach_nothing:
  assumes "aya_law ay hist" and "maps_writable ay"
    and "nf_protocol_mask filt = ProtocolMask_UDP"
    and "\<not> NetworkMask_contains (nf_event_mask filt) NetworkMask_CONNECT"
    and "\<not> NetworkMask_contains (nf_event_mask filt) NetworkMask_CLOSE"
  shows "\<exists>b'. attach_network_probe ay filt b = (Inr (), b') \<and>
    hist b' = hist b @ [WroteFilter 2 (nf_filter filt)] \<and> attached (hist b') = attached (hist b)"
proof -
  have no_tcp: "\<not> ProtocolMask_contains ProtocolMask_UDP ProtocolMask_TCP"
    by (simp add: ProtocolMask_contains_def ProtocolMask_consts)
  with assms(3-5) have plan: "plan_network filt = [WroteFilter 2 (nf_filter filt)]"
    by (simp add: plan_network_def Let_def)
  obtain b' where "write_to_fiter_map ay (Filters_Network filt) OwnerNetwork b = (Inr (), b')"
    using write_succeeds(1) [OF assms(1,2)] by blast
  with assms(3-5) no_tcp have att: "attach_network_probe ay filt b = (Inr (), b')"
    by (simp add: attach_network_probe_def when_steps_def Let_def)
  from network_attach.success_is_plan [OF assms(1) att] plan att show ?thesis by auto
qed

theorem udp_binds_attach_nothing_witness:
  "\<exists>b'. attach_network_probe once_aya \<lparr>nf_protocol_mask = ProtocolMask_UDP, nf_event_mask = NetworkMask_BIND,
       nf_filter = FilterNone\<rparr> (([], []), []) = (Inr (), b') \<and> fst (fst b') = [WroteFilter 2 FilterNone]"
proof -
  let ?f = "\<lparr>nf_protocol_mask = ProtocolMask_UDP, nf_event_mask = NetworkMask_BIND, nf_filter = FilterNone\<rparr>"
  note masks = NetworkMask_contains_def ProtocolMask_contains_def NetworkMask_consts ProtocolMask_consts
  have "\<not> NetworkMask_contains (nf_event_mask ?f) NetworkMask_CONNECT"
    "\<not> NetworkMask_contains (nf_event_mask ?f) NetworkMask_CLOSE" "nf_protocol_mask ?f = ProtocolMask_UDP"
    by (simp_all add: masks)
  from udp_binds_attach_nothing [OF once_aya_laws(1,3) this(3,1,2), of "(([], []), [])"] show ?thesis by auto
qed

text \<open>
  C38: the values of the mask types. A mask that a client can build from the constants and \<open>|\<close> is a
  non-empty set of the bits of its type, and each such set can be built: there is no mask with an
  unknown bit and no empty one, so a filter always selects at least one operation.
\<close>

theorem mask_values:
  "(built FileMask_bitor {FileMask_OPEN, FileMask_CLOSE, FileMask_READ, FileMask_WRITE, FileMask_DELETE,
      FileMask_RENAME, FileMask_ALL} fm \<longleftrightarrow> fm_bits fm \<noteq> 0 \<and> FileMask_contains FileMask_ALL fm) \<and>
   (built NetworkMask_bitor {NetworkMask_CONNECT, NetworkMask_ACCEPT, NetworkMask_CLOSE, NetworkMask_BIND,
      NetworkMask_LISTEN, NetworkMask_ALL} nm \<longleftrightarrow> nm_bits nm \<noteq> 0 \<and> NetworkMask_contains NetworkMask_ALL nm) \<and>
   (built ProtocolMask_bitor {ProtocolMask_TCP, ProtocolMask_UDP, ProtocolMask_ALL} pm \<longleftrightarrow>
      prm_bits pm \<noteq> 0 \<and> ProtocolMask_contains ProtocolMask_ALL pm) \<and>
   (built ProcessMask_bitor {ProcessMask_START, ProcessMask_FORK, ProcessMask_EXIT, ProcessMask_ALL} cm \<longleftrightarrow>
      pm_bits cm \<noteq> 0 \<and> ProcessMask_contains ProcessMask_ALL cm) \<and>
   (built MemoryMask_bitor {MemoryMask_MMAP, MemoryMask_UNMAP, MemoryMask_ALL} mm \<longleftrightarrow>
      mmk_bits mm \<noteq> 0 \<and> MemoryMask_contains MemoryMask_ALL mm)"
  by (intro conjI built_FileMask built_NetworkMask built_ProtocolMask built_ProcessMask built_MemoryMask)

end
